(* ===== verification/Prelude.thy ===== *)
theory Prelude
  imports Main "HOL-Library.Word"
begin

text \<open>
  What every component shares: Go's fixed-width integers, errors as values with their text and
  their \<^verbatim>\<open>%w\<close> chain, the three ways a Go call can end (a value, an error, a panic), and two
  small sequencing layers. \<open>'a res\<close> is for calls without side effects, \<open>('w, 'a) prog\<close> for calls
  that also change the world \<open>'w\<close>. The collection \<open>keeps_intros\<close> proves frame properties
  (a program leaves an observation of the world alone) by following a program's structure; the
  rules \<open>bindP_Ok_iff\<close> and its kin take a successful run of a program apart.
\<close>

named_theorems keeps_intros \<open>structural rules for frame properties of programs\<close>
named_theorems run_iffs \<open>how a run of a composed program splits into runs of its parts\<close>

section \<open>Machine integers and bytes\<close>

type_synonym byte = "8 word"
type_synonym bytes = "byte list"
type_synonym u16 = "16 word"
type_synonym u32 = "32 word"
type_synonym u64 = "64 word"
type_synonym i32 = "32 word"
type_synonym i64 = "64 word"

lemma unat_u16_less: "unat (x :: u16) < 65536"
proof -
  have "unat x < 2 ^ LENGTH(16)" by (rule unsigned_less)
  then show ?thesis by simp
qed

lemma unat_u32_less: "unat (x :: u32) < 4294967296"
proof -
  have "unat x < 2 ^ LENGTH(32)" by (rule unsigned_less)
  then show ?thesis by simp
qed

lemma unat_ucast_mod: "unat (ucast (x :: 'a::len word) :: 'b::len word) = unat x mod 2 ^ LENGTH('b)"
  by (simp add: unsigned_ucast_eq take_bit_eq_mod)

lemma ucast_u16_u64_u16 [simp]: "ucast (ucast (t :: u16) :: u64) = t"
  using unat_u16_less [of t] by (simp add: word_unat_eq_iff unat_ucast_mod)

lemma u64_fits_u16: "(x :: u64) \<le> 65535 \<longleftrightarrow> ucast (ucast x :: u16) = x"
proof -
  have "unat x mod 65536 mod 18446744073709551616 = unat x mod 65536" by simp
  then show ?thesis
    by (simp add: word_le_nat_alt word_unat_eq_iff unat_ucast_mod)
      (simp add: mod_eq_self_iff_div_eq_0 div_eq_0_iff less_eq_Suc_le)
qed

lemma ucast_u16_le_u64 [simp]: "(ucast (t :: u16) :: u64) \<le> 65535"
  by (simp add: u64_fits_u16)

section \<open>Errors\<close>

text \<open>
  A Go error is a value with a text; \<^verbatim>\<open>fmt.Errorf("...: %w", err)\<close> keeps the cause reachable by
  \<^verbatim>\<open>errors.Unwrap\<close> (\<open>Wrap\<close>), \<^verbatim>\<open>fmt.Errorf("...: %v", err)\<close> only copies its text (\<open>errorf_v\<close>).
\<close>

datatype error = Error string | Wrap string error

primrec err_text :: "error \<Rightarrow> string" where
  "err_text (Error s) = s"
| "err_text (Wrap s e) = s @ '': '' @ err_text e"

primrec unwrap :: "error \<Rightarrow> error option" where
  "unwrap (Error s) = None"
| "unwrap (Wrap s e) = Some e"

definition errorf_v :: "string \<Rightarrow> error \<Rightarrow> error" where
  "errorf_v s e = Error (s @ '': '' @ err_text e)"

lemma errorf_v_text: "err_text (errorf_v s e) = err_text (Wrap s e)"
  by (simp add: errorf_v_def)

lemma errorf_v_no_cause [simp]: "unwrap (errorf_v s e) = None"
  by (simp add: errorf_v_def)

section \<open>Results: a value, an error or a panic\<close>

datatype 'a res = Ok 'a | Err error | Panic string

primrec bindR :: "'a res \<Rightarrow> ('a \<Rightarrow> 'b res) \<Rightarrow> 'b res" where
  "bindR (Ok x) f = f x"
| "bindR (Err e) f = Err e"
| "bindR (Panic p) f = Panic p"

primrec wrapR :: "string \<Rightarrow> 'a res \<Rightarrow> 'a res" where
  "wrapR s (Ok x) = Ok x"
| "wrapR s (Err e) = Err (Wrap s e)"
| "wrapR s (Panic p) = Panic p"

text \<open>
  The Go idiom \<^verbatim>\<open>for _, x := range xs { y, err := f(x); if err != nil { return } ; out = append(out, y) }\<close>.
\<close>

primrec mapR :: "('a \<Rightarrow> 'b res) \<Rightarrow> 'a list \<Rightarrow> 'b list res" where
  "mapR f [] = Ok []"
| "mapR f (x # xs) = bindR (f x) (\<lambda>y. bindR (mapR f xs) (\<lambda>ys. Ok (y # ys)))"

lemma bindR_Ok_iff [run_iffs]: "bindR m f = Ok y \<longleftrightarrow> (\<exists>x. m = Ok x \<and> f x = Ok y)"
  by (cases m) auto

lemma bindR_Err_iff: "bindR m f = Err e \<longleftrightarrow> m = Err e \<or> (\<exists>x. m = Ok x \<and> f x = Err e)"
  by (cases m) auto

lemma bindR_Panic_iff: "bindR m f = Panic p \<longleftrightarrow> m = Panic p \<or> (\<exists>x. m = Ok x \<and> f x = Panic p)"
  by (cases m) auto

lemma wrapR_Ok_iff [run_iffs]: "wrapR s m = Ok x \<longleftrightarrow> m = Ok x"
  by (cases m) auto

lemma wrapR_Err_iff: "wrapR s m = Err e \<longleftrightarrow> (\<exists>e'. m = Err e' \<and> e = Wrap s e')"
  by (cases m) auto

lemma wrapR_Panic_iff [simp]: "wrapR s m = Panic p \<longleftrightarrow> m = Panic p"
  by (cases m) auto

lemma bindR_assoc: "bindR (bindR m f) g = bindR m (\<lambda>x. bindR (f x) g)"
  by (cases m) auto

lemma mapR_Ok_iff [run_iffs]: "mapR f xs = Ok ys \<longleftrightarrow> list_all2 (\<lambda>x y. f x = Ok y) xs ys"
  by (induction xs arbitrary: ys) (auto simp: run_iffs list_all2_Cons1)

lemma mapR_total: "(\<And>x. x \<in> set xs \<Longrightarrow> f x = Ok (g x)) \<Longrightarrow> mapR f xs = Ok (map g xs)"
  by (induction xs) auto

lemma mapR_no_panic:
  "(\<And>x p. x \<in> set xs \<Longrightarrow> f x \<noteq> Panic p) \<Longrightarrow> mapR f xs \<noteq> Panic q"
  by (induction xs) (auto simp: bindR_Panic_iff)

section \<open>Programs over a world\<close>

type_synonym ('w, 'a) prog = "'w \<Rightarrow> 'a res \<times> 'w"

definition returnP :: "'a \<Rightarrow> ('w, 'a) prog" where
  "returnP x w = (Ok x, w)"

definition throwP :: "error \<Rightarrow> ('w, 'a) prog" where
  "throwP e w = (Err e, w)"

definition panicP :: "string \<Rightarrow> ('w, 'a) prog" where
  "panicP p w = (Panic p, w)"

definition liftP :: "'a res \<Rightarrow> ('w, 'a) prog" where
  "liftP r w = (r, w)"

definition bindP :: "('w, 'a) prog \<Rightarrow> ('a \<Rightarrow> ('w, 'b) prog) \<Rightarrow> ('w, 'b) prog" where
  "bindP m f w =
     (case m w of
        (Ok x, w') \<Rightarrow> f x w'
      | (Err e, w') \<Rightarrow> (Err e, w')
      | (Panic p, w') \<Rightarrow> (Panic p, w'))"

definition wrapP :: "string \<Rightarrow> ('w, 'a) prog \<Rightarrow> ('w, 'a) prog" where
  "wrapP s m w = (case m w of (r, w') \<Rightarrow> (wrapR s r, w'))"

primrec mapP :: "('a \<Rightarrow> ('w, 'b) prog) \<Rightarrow> 'a list \<Rightarrow> ('w, 'b list) prog" where
  "mapP f [] = returnP []"
| "mapP f (x # xs) = bindP (f x) (\<lambda>y. bindP (mapP f xs) (\<lambda>ys. returnP (y # ys)))"

lemmas prog_defs = returnP_def throwP_def panicP_def liftP_def

lemma returnP_run [simp]: "returnP x w = (Ok x, w)"
  by (simp add: prog_defs)

lemma throwP_run [simp]: "throwP e w = (Err e, w)"
  by (simp add: prog_defs)

lemma panicP_run [simp]: "panicP p w = (Panic p, w)"
  by (simp add: prog_defs)

lemma liftP_run [simp]: "liftP r w = (r, w)"
  by (simp add: prog_defs)

lemma bindP_returnP [simp]: "bindP (returnP x) f = f x"
  by (simp add: bindP_def fun_eq_iff)

lemma bindP_throwP [simp]: "bindP (throwP e) f = throwP e"
  by (simp add: bindP_def fun_eq_iff)

lemma bindP_panicP [simp]: "bindP (panicP p) f = panicP p"
  by (simp add: bindP_def fun_eq_iff)

lemma bindP_liftP_Ok [simp]: "bindP (liftP (Ok x)) f = f x"
  by (simp add: bindP_def fun_eq_iff)

lemma bindP_liftP_Err [simp]: "bindP (liftP (Err e)) f = throwP e"
  by (simp add: bindP_def fun_eq_iff)

lemma bindP_liftP_Panic [simp]: "bindP (liftP (Panic p)) f = panicP p"
  by (simp add: bindP_def fun_eq_iff)

lemma bindP_assoc: "bindP (bindP m f) g = bindP m (\<lambda>x. bindP (f x) g)"
  by (simp add: bindP_def fun_eq_iff split: prod.splits res.splits)

lemma bindP_Ok_iff [run_iffs]:
  "bindP m f w = (Ok y, w'') \<longleftrightarrow> (\<exists>x w'. m w = (Ok x, w') \<and> f x w' = (Ok y, w''))"
  by (auto simp: bindP_def split: prod.splits res.splits)

lemma bindP_Err_iff:
  "bindP m f w = (Err e, w'') \<longleftrightarrow>
     m w = (Err e, w'') \<or> (\<exists>x w'. m w = (Ok x, w') \<and> f x w' = (Err e, w''))"
  by (auto simp: bindP_def split: prod.splits res.splits)

lemma bindP_Panic_iff:
  "bindP m f w = (Panic p, w'') \<longleftrightarrow>
     m w = (Panic p, w'') \<or> (\<exists>x w'. m w = (Ok x, w') \<and> f x w' = (Panic p, w''))"
  by (auto simp: bindP_def split: prod.splits res.splits)

lemma wrapP_Ok_iff [run_iffs]: "wrapP s m w = (Ok x, w') \<longleftrightarrow> m w = (Ok x, w')"
  by (auto simp: wrapP_def wrapR_Ok_iff split: prod.splits)

lemma wrapP_Panic_iff [simp]: "wrapP s m w = (Panic p, w') \<longleftrightarrow> m w = (Panic p, w')"
  by (auto simp: wrapP_def split: prod.splits)

text \<open>A run is simplified left to right once the run of its first part is known.\<close>

lemma bindP_run: "m w = (Ok x, w') \<Longrightarrow> bindP m f w = f x w'"
  by (simp add: bindP_def)

lemma bindP_run_Err: "m w = (Err e, w') \<Longrightarrow> bindP m f w = (Err e, w')"
  by (simp add: bindP_def)

lemma bindP_run_Panic: "m w = (Panic p, w') \<Longrightarrow> bindP m f w = (Panic p, w')"
  by (simp add: bindP_def)

lemma wrapP_run: "m w = (r, w') \<Longrightarrow> wrapP s m w = (wrapR s r, w')"
  by (simp add: wrapP_def)

section \<open>Frame properties\<close>

definition keeps :: "('w \<Rightarrow> 'b) \<Rightarrow> ('w, 'a) prog \<Rightarrow> bool" where
  "keeps f m \<longleftrightarrow> (\<forall>w. f (snd (m w)) = f w)"

lemma keepsD: "keeps f m \<Longrightarrow> m w = (r, w') \<Longrightarrow> f w' = f w"
  by (metis keeps_def snd_conv)

lemma keeps_returnP [keeps_intros]: "keeps f (returnP x)"
  by (simp add: keeps_def)

lemma keeps_throwP [keeps_intros]: "keeps f (throwP e)"
  by (simp add: keeps_def)

lemma keeps_panicP [keeps_intros]: "keeps f (panicP p)"
  by (simp add: keeps_def)

lemma keeps_liftP [keeps_intros]: "keeps f (liftP r)"
  by (simp add: keeps_def)

lemma keeps_bindP [keeps_intros]:
  "keeps f m \<Longrightarrow> (\<And>x. keeps f (g x)) \<Longrightarrow> keeps f (bindP m g)"
  by (simp add: keeps_def bindP_def split: prod.splits res.splits) (metis snd_conv)

lemma keeps_wrapP [keeps_intros]: "keeps f m \<Longrightarrow> keeps f (wrapP s m)"
  by (simp add: keeps_def wrapP_def split_beta)

lemma keeps_if [keeps_intros]:
  "(c \<Longrightarrow> keeps f m) \<Longrightarrow> (\<not> c \<Longrightarrow> keeps f m') \<Longrightarrow> keeps f (if c then m else m')"
  by simp

lemma keeps_case_option [keeps_intros]:
  "(x = None \<Longrightarrow> keeps f m) \<Longrightarrow> (\<And>y. x = Some y \<Longrightarrow> keeps f (g y)) \<Longrightarrow>
     keeps f (case x of None \<Rightarrow> m | Some y \<Rightarrow> g y)"
  by (cases x) auto

lemma keeps_mapP [keeps_intros]: "(\<And>x. keeps f (g x)) \<Longrightarrow> keeps f (mapP g xs)"
  by (induction xs) (auto intro: keeps_intros)

section \<open>Decimal printing\<close>

text \<open>\<^verbatim>\<open>%d\<close> of an unsigned value.\<close>

definition digit_char :: "nat \<Rightarrow> char" where
  "digit_char n = char_of (48 + n)"

fun show_nat :: "nat \<Rightarrow> string" where
  "show_nat n = (if n < 10 then [digit_char n] else show_nat (n div 10) @ [digit_char (n mod 10)])"

declare show_nat.simps [simp del]

definition read_nat :: "string \<Rightarrow> nat" where
  "read_nat s = foldl (\<lambda>a c. 10 * a + (of_char c - 48)) 0 s"

lemma of_char_digit_char: "n < 10 \<Longrightarrow> (of_char (digit_char n) :: nat) = 48 + n"
  by (simp add: digit_char_def)

lemma read_show_nat: "read_nat (show_nat n) = n"
proof (induction n rule: show_nat.induct)
  case (1 n)
  show ?case
  proof (cases "n < 10")
    case True
    then show ?thesis
      by (simp add: show_nat.simps [of n] read_nat_def of_char_digit_char)
  next
    case False
    then show ?thesis
      using "1"
      by (simp add: show_nat.simps [of n] read_nat_def of_char_digit_char)
  qed
qed

lemma show_nat_inject [simp]: "show_nat m = show_nat n \<longleftrightarrow> m = n"
  by (metis read_show_nat)

end
