(* ===== verification/Staking_Types.thy ===== *)
theory Staking_Types
  imports Prelude
begin

text \<open>
  The package \<^verbatim>\<open>types\<close> (delegation.go, params.go, sigs.go, txresponse.go, chainkey.go): the
  delegations the daemon looks at, the staking parameters it enforces, the signatures it sends, and
  the methods on them.

  Values of third-party types (keys, signatures, addresses, transactions) are opaque here: each is a
  one-constructor datatype around the bytes that identify it, and no definition of the development
  looks inside one, except at the outputs of a transaction, whose first value the code reads.
  A Go pointer that the code compares with nil, or that it dereferences without having compared it,
  is an \<open>option\<close>.
\<close>

section \<open>Values of third-party types\<close>

datatype PublicKey = PublicKey bytes
datatype PrivateKey = PrivateKey bytes
datatype SchnorrSignature = SchnorrSignature bytes
datatype BIP340PubKey = BIP340PubKey bytes
datatype BIP340Signature = BIP340Signature bytes
datatype BTCSlashingTx = BTCSlashingTx bytes
datatype Hash = Hash bytes
datatype Address = Address string
datatype LegacyDec = LegacyDec int

record TxOut =
  Value :: i64
  PkScript :: bytes

record MsgTx =
  TxOuts :: "TxOut list"
  TxRest :: bytes

text \<open>The panic of a nil dereference and of an index out of range, as the Go runtime reports them.\<close>

definition nil_deref :: string where
  "nil_deref = ''invalid memory address or nil pointer dereference''"

definition index_out_of_range :: string where
  "index_out_of_range = ''index out of range''"

section \<open>Delegations and undelegations\<close>

record CovenantAdaptorSigInfo =
  Pk :: PublicKey
  Sigs :: "bytes list"

record CovenantSchnorrSigInfo =
  Pk_schnorr :: PublicKey
  Sig :: SchnorrSignature

record Undelegation =
  UnbondingTxHex :: string
  SlashingTxHex_ud :: string
  CovenantSlashingSigs :: "CovenantAdaptorSigInfo list"
  CovenantUnbondingSigs :: "CovenantSchnorrSigInfo list"
  DelegatorUnbondingSig :: "BIP340Signature option"

record Delegation =
  BtcPk :: PublicKey
  FpBtcPks :: "PublicKey list"
  StartHeight :: u64
  EndHeight :: u64
  TotalSat :: u64
  StakingTxHex :: string
  StakingOutputIdx :: u32
  SlashingTxHex :: string
  UnbondingTime :: u32
  CovenantSigs_del :: "CovenantAdaptorSigInfo list"
  BtcUndelegation :: "Undelegation option"

definition HasCovenantQuorumOnSlashing :: "Undelegation \<Rightarrow> u32 \<Rightarrow> bool" where
  "HasCovenantQuorumOnSlashing ud quorum \<longleftrightarrow> length (CovenantUnbondingSigs ud) \<ge> unat quorum"

definition HasCovenantQuorumOnUnbonding :: "Undelegation \<Rightarrow> u32 \<Rightarrow> bool" where
  "HasCovenantQuorumOnUnbonding ud quorum \<longleftrightarrow> length (CovenantUnbondingSigs ud) \<ge> unat quorum"

definition HasAllSignatures :: "Undelegation \<Rightarrow> u32 \<Rightarrow> bool" where
  "HasAllSignatures ud covenantQuorum \<longleftrightarrow>
     HasCovenantQuorumOnUnbonding ud covenantQuorum \<and> HasCovenantQuorumOnSlashing ud covenantQuorum"

text \<open>
  \<^verbatim>\<open>HasAllSignatures\<close> is called on a pointer: on a nil one the first field access panics, but
  only when the left operand of the conjunction was true.
\<close>

definition HasCovenantQuorum :: "Delegation \<Rightarrow> u32 \<Rightarrow> bool res" where
  "HasCovenantQuorum d quorum =
     (if (of_nat (length (CovenantSigs_del d)) :: u32) \<ge> quorum then
        (case BtcUndelegation d of
           None \<Rightarrow> Panic nil_deref
         | Some ud \<Rightarrow> Ok (HasAllSignatures ud quorum))
      else Ok False)"

definition GetStakingTime :: "Delegation \<Rightarrow> u16 res" where
  "GetStakingTime d =
     (let diff = EndHeight d - StartHeight d
      in if diff > 65535 then Panic ''invalid delegation in database''
         else Ok (ucast diff))"

section \<open>Staking parameters, signatures, responses\<close>

record StakingParams =
  ComfirmationTimeBlocks :: u64
  FinalizationTimeoutBlocks :: u64
  MinSlashingTxFeeSat :: i64
  CovenantPks :: "PublicKey list"
  SlashingAddress :: Address
  CovenantQuorum :: u32
  SlashingRate :: LegacyDec
  MinComissionRate :: LegacyDec
  MinUnbondingTime :: u32

definition MinimumUnbondingTime :: "StakingParams \<Rightarrow> u64" where
  "MinimumUnbondingTime p = max (ucast (MinUnbondingTime p)) (FinalizationTimeoutBlocks p)"

record CovenantSigs =
  PublicKey_sigs :: PublicKey
  StakingTxHash :: Hash
  SlashingSigs :: "bytes list"
  UnbondingSig :: SchnorrSignature
  SlashingUnbondingSigs :: "bytes list"

record RelayerEvent =
  EventType :: string
  Attributes :: "(string \<times> string) list"

record TxResponse =
  TxHash_resp :: string
  Events :: "RelayerEvent list"

record ChainKeyInfo =
  Name :: string
  Mnemonic :: string
  PublicKey_info :: PublicKey
  PrivateKey_info :: PrivateKey

section \<open>Quorum tests\<close>

text \<open>
  The contract the signing code relies on when it asks whether a quorum is reached: the test
  compares a count of collected signatures with the quorum. What follows from it is shared by the
  three tests of an undelegation.
\<close>

locale quorum_test =
  fixes reached :: "'a \<Rightarrow> u32 \<Rightarrow> bool"
    and collected :: "'a \<Rightarrow> nat"
  assumes reached_iff: "reached x q \<longleftrightarrow> unat q \<le> collected x"
begin

lemma zero_reached: "reached x 0"
  by (simp add: reached_iff)

lemma antitone: "reached x q \<Longrightarrow> q' \<le> q \<Longrightarrow> reached x q'"
  by (simp add: reached_iff word_le_nat_alt)

lemma grows: "reached x q \<Longrightarrow> collected x \<le> collected y \<Longrightarrow> reached y q"
  by (simp add: reached_iff)

lemma short: "collected x < unat q \<Longrightarrow> \<not> reached x q"
  by (simp add: reached_iff)

end

interpretation unbonding_quorum: quorum_test HasCovenantQuorumOnUnbonding "\<lambda>ud. length (CovenantUnbondingSigs ud)"
  by unfold_locales (simp add: HasCovenantQuorumOnUnbonding_def)

interpretation slashing_quorum: quorum_test HasCovenantQuorumOnSlashing "\<lambda>ud. length (CovenantUnbondingSigs ud)"
  by unfold_locales (simp add: HasCovenantQuorumOnSlashing_def)

interpretation undelegation_quorum: quorum_test HasAllSignatures "\<lambda>ud. length (CovenantUnbondingSigs ud)"
  by unfold_locales
    (simp add: HasAllSignatures_def unbonding_quorum.reached_iff slashing_quorum.reached_iff)

section \<open>Properties\<close>

lemma HasCovenantQuorum_undelegated:
  assumes "BtcUndelegation d = Some ud"
  obtains b where "HasCovenantQuorum d q = Ok b"
  using assms by (cases "(of_nat (length (CovenantSigs_del d)) :: u32) \<ge> q")
    (simp_all add: HasCovenantQuorum_def)

text \<open>
  C31: A delegation with an undelegation counts as having its quorum exactly when at least the
  quorum of covenant members have signed the slashing path of the staking transaction and at least
  the quorum have signed the unbonding transaction (for fewer than \<open>2 ^ 32\<close> collected signatures,
  the range in which the conversion to uint32 is exact).
\<close>

theorem HasCovenantQuorum_iff:
  assumes "length (CovenantSigs_del d) < 2 ^ 32"
    and "BtcUndelegation d = Some ud"
  shows "HasCovenantQuorum d q =
    Ok (unat q \<le> length (CovenantSigs_del d) \<and> unat q \<le> length (CovenantUnbondingSigs ud))"
  using assms
  by (simp add: HasCovenantQuorum_def word_le_nat_alt unat_of_nat undelegation_quorum.reached_iff)

definition sample_undelegation :: Undelegation where
  "sample_undelegation =
     \<lparr>UnbondingTxHex = ''01'', SlashingTxHex_ud = ''02'', CovenantSlashingSigs = [],
      CovenantUnbondingSigs = [\<lparr>Pk_schnorr = PublicKey [7], Sig = SchnorrSignature [8]\<rparr>],
      DelegatorUnbondingSig = None\<rparr>"

definition sample_delegation :: Delegation where
  "sample_delegation =
     \<lparr>BtcPk = PublicKey [1], FpBtcPks = [PublicKey [2], PublicKey [3]], StartHeight = 100,
      EndHeight = 105, TotalSat = 20000, StakingTxHex = ''0a'', StakingOutputIdx = 0,
      SlashingTxHex = ''0b'', UnbondingTime = 101,
      CovenantSigs_del = [\<lparr>Pk = PublicKey [7], Sigs = []\<rparr>],
      BtcUndelegation = Some sample_undelegation\<rparr>"

theorem HasCovenantQuorum_iff_witness:
  "HasCovenantQuorum sample_delegation 1 = Ok True \<and> HasCovenantQuorum sample_delegation 2 = Ok False"
  using HasCovenantQuorum_iff [of sample_delegation sample_undelegation 1]
    HasCovenantQuorum_iff [of sample_delegation sample_undelegation 2]
  by (simp add: sample_delegation_def sample_undelegation_def)

text \<open>
  C32: The signatures the covenant put on the slashing transaction of the unbonding output play no
  part in the quorum test: whatever they are, a delegation has its quorum or not all the same.
  (\<^verbatim>\<open>HasCovenantQuorumOnSlashing\<close> counts the unbonding signatures.)
\<close>

theorem quorum_ignores_slashing_sigs:
  "HasAllSignatures (ud\<lparr>CovenantSlashingSigs := sigs\<rparr>) q = HasAllSignatures ud q \<and>
   HasCovenantQuorum (d\<lparr>BtcUndelegation := Some (ud\<lparr>CovenantSlashingSigs := sigs\<rparr>)\<rparr>) q =
   HasCovenantQuorum (d\<lparr>BtcUndelegation := Some ud\<rparr>) q"
  by (simp add: HasCovenantQuorum_def undelegation_quorum.reached_iff)

text \<open>
  C33: \<^verbatim>\<open>GetStakingTime\<close> returns \<open>t\<close> exactly when the end height is the start height plus \<open>t\<close>
  blocks, in 64-bit arithmetic; in every other case it panics.
\<close>

theorem GetStakingTime_iff:
  "(GetStakingTime d = Ok t \<longleftrightarrow> EndHeight d = StartHeight d + ucast t) \<and>
   ((\<exists>p. GetStakingTime d = Panic p) \<longleftrightarrow> (\<nexists>t'. EndHeight d = StartHeight d + ucast (t' :: u16)))"
proof -
  let ?diff = "EndHeight d - StartHeight d"
  have split: "EndHeight d = StartHeight d + x \<longleftrightarrow> ?diff = x" for x
    by (auto simp: algebra_simps)
  show ?thesis
  proof (cases "?diff \<le> 65535")
    case True
    then have "ucast (ucast ?diff :: u16) = ?diff" by (simp add: u64_fits_u16)
    with True show ?thesis
      unfolding split GetStakingTime_def Let_def by (metis leD res.distinct(3) res.inject(1) ucast_u16_u64_u16)
  next
    case False
    then have "?diff \<noteq> ucast (t' :: u16)" for t'
      by (metis ucast_u16_le_u64)
    with False show ?thesis
      unfolding split GetStakingTime_def Let_def by simp
  qed
qed

end
