(* ===== verification/Paths.thy ===== *)
theory Paths
  imports Prelude
begin

text \<open>
  Path names as \<^verbatim>\<open>util/path.go\<close> and \<^verbatim>\<open>config/config.go\<close> use them: the lexical functions of
  Go's \<^verbatim>\<open>path/filepath\<close> on Unix (\<open>Clean\<close>, \<open>Join\<close>, \<open>Abs\<close>, \<open>Dir\<close>), the expansion of environment
  variables by \<^verbatim>\<open>os.ExpandEnv\<close>, and \<open>CleanAndExpandPath\<close>. A path is a string; \<open>Clean\<close> works on its
  slash-separated elements. The locale \<open>normaliser\<close> is what the other components need of \<open>Clean\<close>:
  it maps every path to one canonical spelling.
\<close>

section \<open>Elements of a path\<close>

fun split_sep :: "string \<Rightarrow> string list" where
  "split_sep [] = [[]]"
| "split_sep (c # cs) =
     (if c = CHR ''/'' then [] # split_sep cs
      else (case split_sep cs of [] \<Rightarrow> [[c]] | x # xs \<Rightarrow> (c # x) # xs))"

fun join_sep :: "string list \<Rightarrow> string" where
  "join_sep [] = []"
| "join_sep [x] = x"
| "join_sep (x # y # xs) = x @ CHR ''/'' # join_sep (y # xs)"

definition elements :: "string \<Rightarrow> string list" where
  "elements p = filter (\<lambda>c. c \<noteq> []) (split_sep p)"

definition rooted :: "string \<Rightarrow> bool" where
  "rooted p \<longleftrightarrow> (case p of [] \<Rightarrow> False | c # _ \<Rightarrow> c = CHR ''/'')"

lemma split_sep_not_Nil [simp]: "split_sep s \<noteq> []"
  by (induction s) (auto split: list.splits)

lemma split_sep_no_slash: "x \<in> set (split_sep s) \<Longrightarrow> CHR ''/'' \<notin> set x"
  by (induction s arbitrary: x) (auto split: list.splits if_splits)

lemma split_sep_plain: "CHR ''/'' \<notin> set s \<Longrightarrow> split_sep s = [s]"
  by (induction s) auto

lemma split_sep_append_slash: "CHR ''/'' \<notin> set x \<Longrightarrow> split_sep (x @ CHR ''/'' # s) = x # split_sep s"
  by (induction x) auto

lemma split_join_sep:
  "xs \<noteq> [] \<Longrightarrow> (\<And>x. x \<in> set xs \<Longrightarrow> CHR ''/'' \<notin> set x) \<Longrightarrow> split_sep (join_sep xs) = xs"
  by (induction xs rule: join_sep.induct) (auto simp: split_sep_plain split_sep_append_slash)

lemma elements_plain: "x \<in> set (elements p) \<Longrightarrow> x \<noteq> [] \<and> CHR ''/'' \<notin> set x"
  by (auto simp: elements_def dest: split_sep_no_slash)

lemma elements_slash [simp]: "elements (CHR ''/'' # p) = elements p"
  by (simp add: elements_def)

lemma elements_join:
  "(\<And>x. x \<in> set xs \<Longrightarrow> x \<noteq> [] \<and> CHR ''/'' \<notin> set x) \<Longrightarrow> elements (join_sep xs) = xs"
  by (cases "xs = []") (auto simp: elements_def split_join_sep filter_id_conv)

lemma split_sep_append:
  "split_sep (p @ CHR ''/'' # q) = split_sep p @ split_sep q"
  by (induction p) (auto split: list.splits)

lemma elements_append: "elements (p @ CHR ''/'' # q) = elements p @ elements q"
  by (simp add: elements_def split_sep_append)

lemma rooted_Cons [simp]: "rooted (c # p) \<longleftrightarrow> c = CHR ''/''"
  by (simp add: rooted_def)

lemma rooted_Nil [simp]: "\<not> rooted []"
  by (simp add: rooted_def)

lemma rooted_append: "p \<noteq> [] \<Longrightarrow> rooted (p @ q) = rooted p"
  by (cases p) auto

section \<open>filepath.Clean\<close>

text \<open>
  \<^verbatim>\<open>.\<close> is dropped, \<^verbatim>\<open>..\<close> drops the element before it, and what cannot be dropped stays: nothing
  at the root, a leading \<^verbatim>\<open>..\<close> in a relative path. The output is kept as a stack, last element first.
\<close>

fun clean_go :: "bool \<Rightarrow> string list \<Rightarrow> string list \<Rightarrow> string list" where
  "clean_go r out [] = rev out"
| "clean_go r out (c # cs) =
     (if c = ''.'' then clean_go r out cs
      else if c = ''..'' then
        (case out of
           [] \<Rightarrow> clean_go r (if r then [] else [''..'']) cs
         | x # xs \<Rightarrow> clean_go r (if x = ''..'' then ''..'' # out else xs) cs)
      else clean_go r (c # out) cs)"

definition Clean :: "string \<Rightarrow> string" where
  "Clean p =
     (if p = [] then ''.''
      else if rooted p then CHR ''/'' # join_sep (clean_go True [] (elements p))
      else (case clean_go False [] (elements p) of [] \<Rightarrow> ''.'' | xs \<Rightarrow> join_sep xs))"

text \<open>What \<open>Clean\<close> leaves: proper elements, and \<^verbatim>\<open>..\<close> only at the front of a relative path.\<close>

fun clean_stack :: "bool \<Rightarrow> string list \<Rightarrow> bool" where
  "clean_stack r [] = True"
| "clean_stack r (x # xs) =
     (x \<noteq> [] \<and> x \<noteq> ''.'' \<and> CHR ''/'' \<notin> set x \<and>
      (if x = ''..'' then \<not> r \<and> (\<forall>y \<in> set xs. y = ''..'') else True) \<and> clean_stack r xs)"

definition clean_elements :: "bool \<Rightarrow> string list \<Rightarrow> bool" where
  "clean_elements r xs \<longleftrightarrow> clean_stack r (rev xs)"

lemma clean_stack_go:
  "clean_stack r out \<Longrightarrow> (\<And>c. c \<in> set cs \<Longrightarrow> c \<noteq> [] \<and> CHR ''/'' \<notin> set c) \<Longrightarrow>
     clean_stack r (rev (clean_go r out cs))"
  by (induction r out cs rule: clean_go.induct) (auto split: list.splits)

lemma clean_elements_go: "clean_elements r (clean_go r [] (elements p))"
  unfolding clean_elements_def by (rule clean_stack_go) (auto dest: elements_plain)

lemma clean_stack_append: "clean_stack r (xs @ ys) \<Longrightarrow> clean_stack r ys"
  by (induction xs) auto

lemma clean_go_clean: "clean_stack r (rev cs @ out) \<Longrightarrow> clean_go r out cs = rev out @ cs"
proof (induction cs arbitrary: out)
  case Nil
  then show ?case by simp
next
  case (Cons c cs)
  have top: "clean_stack r (c # out)"
    by (rule clean_stack_append [of r "rev cs"]) (use Cons.prems in simp)
  from Cons.prems have rest: "clean_go r (c # out) cs = rev (c # out) @ cs"
    by (intro Cons.IH) simp
  have "clean_go r out (c # cs) = clean_go r (c # out) cs"
  proof (cases "c = ''..''")
    case True
    with top show ?thesis by (cases out) auto
  next
    case False
    with top show ?thesis by simp
  qed
  with rest show ?case by simp
qed

lemma clean_elements_plain: "clean_elements r xs \<Longrightarrow> x \<in> set xs \<Longrightarrow> x \<noteq> [] \<and> CHR ''/'' \<notin> set x"
proof -
  have "clean_stack r ys \<Longrightarrow> x \<in> set ys \<Longrightarrow> x \<noteq> [] \<and> CHR ''/'' \<notin> set x" for ys
    by (induction ys) auto
  then show "clean_elements r xs \<Longrightarrow> x \<in> set xs \<Longrightarrow> x \<noteq> [] \<and> CHR ''/'' \<notin> set x"
    by (metis clean_elements_def set_rev)
qed

lemma elements_clean: "clean_elements r xs \<Longrightarrow> elements (join_sep xs) = xs"
  by (rule elements_join) (rule clean_elements_plain)

lemma clean_go_elements: "clean_elements r xs \<Longrightarrow> clean_go r [] xs = xs"
  by (simp add: clean_elements_def clean_go_clean)

lemma join_sep_eq_Nil: "(\<And>x. x \<in> set xs \<Longrightarrow> x \<noteq> []) \<Longrightarrow> join_sep xs = [] \<longleftrightarrow> xs = []"
  by (induction xs rule: join_sep.induct) auto

lemma join_sep_not_rooted:
  assumes "clean_elements r xs"
  shows "\<not> rooted (join_sep xs)"
proof (cases xs)
  case (Cons x ys)
  with assms have "x \<noteq> [] \<and> CHR ''/'' \<notin> set x"
    by (intro clean_elements_plain [OF assms]) simp
  then show ?thesis
    using Cons by (cases ys; cases x) auto
qed simp

lemma Clean_rooted: "clean_elements True xs \<Longrightarrow> Clean (CHR ''/'' # join_sep xs) = CHR ''/'' # join_sep xs"
  by (simp add: Clean_def elements_clean clean_go_elements)

lemma Clean_relative:
  assumes "clean_elements False xs" and "xs \<noteq> []"
  shows "Clean (join_sep xs) = join_sep xs"
proof -
  have "join_sep xs \<noteq> []"
    using assms join_sep_eq_Nil [of xs] clean_elements_plain [OF assms(1)] by auto
  with assms show ?thesis
    by (simp add: Clean_def elements_clean clean_go_elements join_sep_not_rooted split: list.splits)
qed

lemma Clean_dot: "Clean ''.'' = ''.''"
  by (simp add: Clean_def elements_def)

lemma Clean_cases:
  obtains (root) xs where "clean_elements True xs" "Clean p = CHR ''/'' # join_sep xs" "rooted p"
  | (rel) xs where "clean_elements False xs" "xs \<noteq> []" "Clean p = join_sep xs" "\<not> rooted p"
  | (dot) "Clean p = ''.''" "\<not> rooted p"
proof (cases "p = []")
  case True
  then show ?thesis by (intro dot) (simp_all add: Clean_def)
next
  case False
  show ?thesis
  proof (cases "rooted p")
    case True
    with False show ?thesis
      by (intro root [of "clean_go True [] (elements p)"]) (simp_all add: Clean_def clean_elements_go)
  next
    case nroot: False
    show ?thesis
    proof (cases "clean_go False [] (elements p) = []")
      case True
      with False nroot show ?thesis by (intro dot) (simp_all add: Clean_def)
    next
      case ne: False
      with False nroot show ?thesis
        by (intro rel [of "clean_go False [] (elements p)"])
          (simp_all add: Clean_def clean_elements_go split: list.splits)
    qed
  qed
qed

lemma Clean_idem: "Clean (Clean p) = Clean p"
  by (cases p rule: Clean_cases) (simp_all add: Clean_rooted Clean_relative Clean_dot)

lemma rooted_Clean: "rooted (Clean p) = rooted p"
  by (cases p rule: Clean_cases) (simp_all add: join_sep_not_rooted)


section \<open>filepath.Join, filepath.Abs, filepath.Dir\<close>

text \<open>\<^verbatim>\<open>filepath.Join\<close> skips leading empty elements; \<^verbatim>\<open>path.Join\<close> is the same function on Unix.\<close>

definition Join :: "string list \<Rightarrow> string" where
  "Join elems =
     (case dropWhile (\<lambda>e. e = []) elems of [] \<Rightarrow> [] | es \<Rightarrow> Clean (join_sep es))"

text \<open>\<open>Abs\<close> fails only when the working directory is unknown.\<close>

definition Abs :: "string res \<Rightarrow> string \<Rightarrow> string res" where
  "Abs getwd p = (if rooted p then Ok (Clean p) else bindR getwd (\<lambda>wd. Ok (Join [wd, p])))"

definition Dir :: "string \<Rightarrow> string" where
  "Dir p = Clean (rev (dropWhile (\<lambda>c. c \<noteq> CHR ''/'') (rev p)))"

section \<open>os.ExpandEnv\<close>

definition isShellSpecialVar :: "char \<Rightarrow> bool" where
  "isShellSpecialVar c \<longleftrightarrow> c \<in> set ''*#$@!?-0123456789''"

definition isAlphaNum :: "char \<Rightarrow> bool" where
  "isAlphaNum c \<longleftrightarrow>
     c = CHR ''_'' \<or>
     (let n = (of_char c :: nat)
      in 48 \<le> n \<and> n \<le> 57 \<or> 97 \<le> n \<and> n \<le> 122 \<or> 65 \<le> n \<and> n \<le> 90)"

text \<open>
  \<open>getShellName s\<close> reads the name that starts \<open>s\<close> (which follows a dollar sign and is not empty)
  and returns it with the number of characters it took.
\<close>

definition getShellName :: "string \<Rightarrow> string \<times> nat" where
  "getShellName s =
     (case s of
        [] \<Rightarrow> ([], 0)
      | c # cs \<Rightarrow>
          if c = CHR ''{'' then
            if length cs > 1 \<and> isShellSpecialVar (cs ! 0) \<and> cs ! 1 = CHR ''}'' then ([cs ! 0], 3)
            else
              let name = takeWhile (\<lambda>d. d \<noteq> CHR ''}'') cs
              in if length name < length cs
                 then (if name = [] then ([], 2) else (name, length name + 2))
                 else ([], 1)
          else if isShellSpecialVar c then ([c], 1)
          else let name = takeWhile isAlphaNum s in (name, length name))"

function Expand :: "(string \<Rightarrow> string) \<Rightarrow> string \<Rightarrow> string" where
  "Expand getenv [] = []"
| "Expand getenv (c # cs) =
     (if c = CHR ''$'' \<and> cs \<noteq> [] then
        (case getShellName cs of
           (name, w) \<Rightarrow>
             (if name = [] \<and> w > 0 then []
              else if name = [] then [c]
              else getenv name) @ Expand getenv (drop w cs))
      else c # Expand getenv cs)"
  by pat_completeness auto
termination
  by (relation "measure (\<lambda>(g, s). length s)") auto

lemma Expand_plain: "CHR ''$'' \<notin> set p \<Longrightarrow> Expand getenv p = p"
  by (induction p) auto

section \<open>CleanAndExpandPath\<close>

text \<open>
  The user's home directory comes from \<^verbatim>\<open>user.Current()\<close>, or from \<^verbatim>\<open>HOME\<close> when that fails.
  \<^verbatim>\<open>os.Getenv\<close> gives the empty string for a variable that is not set.
\<close>

record environ =
  getenv :: "string \<Rightarrow> string"
  user_current :: "string option"
  getwd :: "string res"

definition CleanAndExpandPath :: "environ \<Rightarrow> string \<Rightarrow> string" where
  "CleanAndExpandPath env p =
     (if p = [] then []
      else
        let p' = (case p of
                    c # cs \<Rightarrow>
                      if c = CHR ''~'' then
                        (case user_current env of Some home \<Rightarrow> home | None \<Rightarrow> getenv env ''HOME'') @ cs
                      else p)
        in Clean (Expand (getenv env) p'))"

section \<open>Canonical spellings\<close>

text \<open>
  What the configuration and the commands rely on: a normaliser maps every path to a spelling that
  it leaves alone, so two components that normalise a path once or several times agree on it.
\<close>

locale normaliser =
  fixes norm :: "string \<Rightarrow> string"
  assumes idem: "norm (norm p) = norm p"
begin

lemma canonical_iff: "norm p = p \<longleftrightarrow> (\<exists>q. p = norm q)"
  by (metis idem)

lemma iterate: "(norm ^^ Suc n) p = norm p"
  by (induction n) (simp_all add: idem)

end

interpretation clean: normaliser Clean
  by unfold_locales (rule Clean_idem)

lemma Clean_not_Nil [simp]: "Clean p \<noteq> []"
proof (cases p rule: Clean_cases)
  case (rel xs)
  then show ?thesis
    using join_sep_eq_Nil [of xs] clean_elements_plain [OF rel(1)] by auto
qed simp_all

lemma clean_elements_snoc:
  assumes "clean_elements r xs" and "x \<noteq> []" "x \<noteq> ''.''" "x \<noteq> ''..''" "CHR ''/'' \<notin> set x"
  shows "clean_elements r (xs @ [x])"
  using assms by (simp add: clean_elements_def)

text \<open>Joining a plain file name to a clean directory appends it.\<close>

lemma Join_clean_root:
  assumes "clean_elements True xs" and "x \<noteq> []" "x \<noteq> ''.''" "x \<noteq> ''..''" "CHR ''/'' \<notin> set x"
  shows "Join [CHR ''/'' # join_sep xs, x] = CHR ''/'' # join_sep (xs @ [x])"
proof -
  have "elements ((CHR ''/'' # join_sep xs) @ CHR ''/'' # x) = xs @ [x]"
    using assms by (simp only: elements_append elements_slash elements_clean) (simp add: elements_def split_sep_plain)
  then show ?thesis
    using clean_go_elements [OF clean_elements_snoc [OF assms]] by (simp add: Join_def Clean_def)
qed

lemma Join_rooted: "rooted d \<Longrightarrow> rooted (Join [d, p]) \<and> Clean (Join [d, p]) = Join [d, p]"
  by (cases d) (simp_all add: Join_def rooted_Clean Clean_idem)

lemma Abs_rooted:
  assumes "Abs wd p = Ok q" and "\<And>d. wd = Ok d \<Longrightarrow> rooted d"
  shows "rooted q \<and> Clean q = q"
proof (cases "rooted p")
  case True
  with assms(1) have "q = Clean p" by (simp add: Abs_def)
  with True show ?thesis by (simp add: rooted_Clean Clean_idem)
next
  case False
  with assms(1) obtain d where "wd = Ok d" "q = Join [d, p]"
    by (auto simp: Abs_def run_iffs)
  with assms(2) show ?thesis by (simp add: Join_rooted)
qed

text \<open>
  C35: \<^verbatim>\<open>CleanAndExpandPath\<close> returns the empty path for the empty path only, and otherwise a path in
  canonical spelling, which cleaning again does not change; a leading tilde stands for the home
  directory of the user, or else of the environment; and a path without a leading tilde and without a
  dollar sign is only cleaned.
\<close>

theorem CleanAndExpandPath_canonical:
  "(CleanAndExpandPath env p = [] \<longleftrightarrow> p = []) \<and>
   (p \<noteq> [] \<longrightarrow> Clean (CleanAndExpandPath env p) = CleanAndExpandPath env p) \<and>
   CleanAndExpandPath env (CHR ''~'' # p) =
     Clean (Expand (getenv env) ((case user_current env of Some home \<Rightarrow> home | None \<Rightarrow> getenv env ''HOME'') @ p)) \<and>
   (p \<noteq> [] \<and> hd p \<noteq> CHR ''~'' \<and> CHR ''$'' \<notin> set p \<longrightarrow> CleanAndExpandPath env p = Clean p)"
  by (cases p) (auto simp: CleanAndExpandPath_def Let_def Clean_idem Expand_plain simp del: Expand.simps)

theorem CleanAndExpandPath_canonical_witness:
  "CleanAndExpandPath \<lparr>getenv = (\<lambda>_. []), user_current = Some ''/home/u'', getwd = Ok ''/''\<rparr> ''/a//b/../c/.'' = ''/a/c'' \<and>
   CleanAndExpandPath \<lparr>getenv = (\<lambda>_. []), user_current = Some ''/home/u'', getwd = Ok ''/''\<rparr> ''~/x'' = ''/home/u/x''"
proof -
  have "Clean ''/a//b/../c/.'' = ''/a/c''" "Clean ''/home/u/x'' = ''/home/u/x''" by code_simp+
  then show ?thesis
    using CleanAndExpandPath_canonical [of "\<lparr>getenv = (\<lambda>_. []), user_current = Some ''/home/u'', getwd = Ok ''/''\<rparr>" "''/a//b/../c/.''"]
      CleanAndExpandPath_canonical [of "\<lparr>getenv = (\<lambda>_. []), user_current = Some ''/home/u'', getwd = Ok ''/''\<rparr>" "''/x''"]
    by (simp add: Expand_plain del: Expand.simps)
qed

text \<open>Cleaning brings in no character but slashes and dots.\<close>

lemma split_sep_chars: "x \<in> set (split_sep p) \<Longrightarrow> set x \<subseteq> set p"
  by (induction p arbitrary: x) (fastforce split: list.splits if_splits)+

lemma elements_chars: "x \<in> set (elements p) \<Longrightarrow> set x \<subseteq> set p"
  by (auto simp: elements_def dest: split_sep_chars)

lemma clean_go_chars: "x \<in> set (clean_go r out cs) \<Longrightarrow> x \<in> set out \<or> x \<in> set cs \<or> x = ''..''"
  by (induction r out cs rule: clean_go.induct) (auto split: list.splits if_splits)

lemma join_sep_chars: "c \<in> set (join_sep xs) \<Longrightarrow> c = CHR ''/'' \<or> (\<exists>x \<in> set xs. c \<in> set x)"
  by (induction xs rule: join_sep.induct) auto

lemma Clean_chars: "c \<notin> set p \<Longrightarrow> c \<noteq> CHR ''/'' \<Longrightarrow> c \<noteq> CHR ''.'' \<Longrightarrow> c \<notin> set (Clean p)"
proof
  assume c: "c \<notin> set p" "c \<noteq> CHR ''/''" "c \<noteq> CHR ''.''" "c \<in> set (Clean p)"
  then obtain r where "c \<in> set (join_sep (clean_go r [] (elements p)))"
    by (cases "clean_go False [] (elements p)"; simp add: Clean_def split: if_splits) metis+
  then obtain x where "x \<in> set (clean_go r [] (elements p))" "c \<in> set x"
    using join_sep_chars c(2) by blast
  then have "x \<in> set (elements p)" using clean_go_chars [of x r "[]" "elements p"] c(3) by auto
  with \<open>c \<in> set x\<close> c(1) elements_chars show False by blast
qed

end
