(* ===== verification/File_System.thy ===== *)
theory File_System
  imports Paths
begin

text \<open>
  The part of package \<^verbatim>\<open>os\<close> that the daemon uses (\<^verbatim>\<open>Stat\<close>, \<^verbatim>\<open>Lstat\<close>, \<^verbatim>\<open>Mkdir\<close>, \<^verbatim>\<open>MkdirAll\<close>,
  \<^verbatim>\<open>Readlink\<close>, opening and writing a file) over a tree of directories, files and symbolic links, and
  \<^verbatim>\<open>FileExists\<close> and \<^verbatim>\<open>MakeDirectory\<close> of \<^verbatim>\<open>util/path.go\<close>. A node is found under the list of elements
  of its absolute path. The field \<open>fault\<close> lets any system call on any path fail with any error number
  (no permission, no space), so that the error branches are all reachable. A link in the tree is one that
  leads into a missing directory, such as that of an unmounted device, the case \<^verbatim>\<open>MakeDirectory\<close> words
  specially: looking it up or opening it finds nothing, and opening it cannot create its target either. A
  link with a target is not a node of its own but stands in the tree as what it leads to, so two names
  of one file are not represented.
\<close>

section \<open>Nodes, error numbers, faults\<close>

datatype node = DirNode | FileNode string | LinkNode string

datatype errno = ENOENT | EEXIST | ENOTDIR | EACCES | EOTHER string

datatype syscall =
    Sys_stat | Sys_lstat | Sys_mkdir | Sys_readlink | Sys_open | Sys_read | Sys_write | Sys_close | Sys_unlink | Sys_chmod

record filesys =
  nodes :: "string list \<Rightarrow> node option"
  cwd :: "string list"
  fault :: "syscall \<Rightarrow> string \<Rightarrow> errno option"

primrec errno_text :: "errno \<Rightarrow> string" where
  "errno_text ENOENT = ''no such file or directory''"
| "errno_text EEXIST = ''file exists''"
| "errno_text ENOTDIR = ''not a directory''"
| "errno_text EACCES = ''permission denied''"
| "errno_text (EOTHER s) = s"

definition IsNotExist :: "errno \<Rightarrow> bool" where
  "IsNotExist e \<longleftrightarrow> e = ENOENT"

definition IsExist :: "errno \<Rightarrow> bool" where
  "IsExist e \<longleftrightarrow> e = EEXIST"

text \<open>A relative path is looked up from the working directory.\<close>

definition fs_key :: "filesys \<Rightarrow> string \<Rightarrow> string list" where
  "fs_key fs p = clean_go True [] (if rooted p then elements p else cwd fs @ elements p)"

definition is_file :: "node option \<Rightarrow> bool" where
  "is_file n \<longleftrightarrow> (case n of Some (FileNode s) \<Rightarrow> True | _ \<Rightarrow> False)"

definition under_file :: "filesys \<Rightarrow> string list \<Rightarrow> bool" where
  "under_file fs k \<longleftrightarrow> list_ex (\<lambda>n. is_file (nodes fs (take n k))) [0..<length k]"

definition os_Stat :: "filesys \<Rightarrow> string \<Rightarrow> errno + node" where
  "os_Stat fs p =
     (case fault fs Sys_stat p of
        Some e \<Rightarrow> Inl e
      | None \<Rightarrow>
          (case nodes fs (fs_key fs p) of
             Some (LinkNode t) \<Rightarrow> Inl ENOENT
           | Some n \<Rightarrow> Inr n
           | None \<Rightarrow> Inl (if under_file fs (fs_key fs p) then ENOTDIR else ENOENT)))"

definition os_Lstat :: "filesys \<Rightarrow> string \<Rightarrow> errno + node" where
  "os_Lstat fs p =
     (case fault fs Sys_lstat p of
        Some e \<Rightarrow> Inl e
      | None \<Rightarrow>
          (case nodes fs (fs_key fs p) of
             Some n \<Rightarrow> Inr n
           | None \<Rightarrow> Inl (if under_file fs (fs_key fs p) then ENOTDIR else ENOENT)))"

definition os_Readlink :: "filesys \<Rightarrow> string \<Rightarrow> errno + string" where
  "os_Readlink fs p =
     (case fault fs Sys_readlink p of
        Some e \<Rightarrow> Inl e
      | None \<Rightarrow>
          (case nodes fs (fs_key fs p) of
             Some (LinkNode t) \<Rightarrow> Inr t
           | Some n \<Rightarrow> Inl (EOTHER ''invalid argument'')
           | None \<Rightarrow> Inl ENOENT))"

definition os_Mkdir :: "string \<Rightarrow> filesys \<Rightarrow> errno option \<times> filesys" where
  "os_Mkdir p fs =
     (case fault fs Sys_mkdir p of
        Some e \<Rightarrow> (Some e, fs)
      | None \<Rightarrow>
          (let k = fs_key fs p in
           if nodes fs k \<noteq> None then (Some EEXIST, fs)
           else if k \<noteq> [] \<and> nodes fs (butlast k) = Some DirNode
           then (None, fs\<lparr>nodes := (nodes fs)(k \<mapsto> DirNode)\<rparr>)
           else (Some (if under_file fs k then ENOTDIR else ENOENT), fs)))"

section \<open>os.MkdirAll\<close>

text \<open>
  \<open>MkdirAll_rev r es\<close> works on the path with the elements \<open>rev es\<close>: done if it is a directory,
  otherwise the parent first, then the directory itself. An error comes with the path it is about.
\<close>

definition path_of :: "bool \<Rightarrow> string list \<Rightarrow> string" where
  "path_of r es = (if r then CHR ''/'' # join_sep es else join_sep es)"

definition mkdir_checked :: "string \<Rightarrow> filesys \<Rightarrow> (errno \<times> string) option \<times> filesys" where
  "mkdir_checked p fs =
     (case os_Mkdir p fs of
        (None, fs') \<Rightarrow> (None, fs')
      | (Some e, fs') \<Rightarrow>
          (case os_Lstat fs' p of
             Inr DirNode \<Rightarrow> (None, fs')
           | _ \<Rightarrow> (Some (e, p), fs')))"

fun MkdirAll_rev :: "bool \<Rightarrow> string list \<Rightarrow> filesys \<Rightarrow> (errno \<times> string) option \<times> filesys" where
  "MkdirAll_rev r es fs =
     (let p = path_of r (rev es) in
      case os_Stat fs p of
        Inr DirNode \<Rightarrow> (None, fs)
      | Inr _ \<Rightarrow> (Some (ENOTDIR, p), fs)
      | Inl _ \<Rightarrow>
          (case es of
             e # e' # es' \<Rightarrow>
               (case MkdirAll_rev r (e' # es') fs of
                  (Some err, fs') \<Rightarrow> (Some err, fs')
                | (None, fs') \<Rightarrow> mkdir_checked p fs')
           | _ \<Rightarrow> mkdir_checked p fs))"

declare MkdirAll_rev.simps [simp del]

definition os_MkdirAll :: "string \<Rightarrow> filesys \<Rightarrow> (errno \<times> string) option \<times> filesys" where
  "os_MkdirAll p fs = MkdirAll_rev (rooted p) (rev (elements p)) fs"

section \<open>util/path.go: FileExists and MakeDirectory\<close>

definition FileExists :: "filesys \<Rightarrow> string \<Rightarrow> bool" where
  "FileExists fs name =
     (case os_Stat fs name of
        Inl e \<Rightarrow> (if IsNotExist e then False else True)
      | Inr _ \<Rightarrow> True)"

definition MakeDirectory :: "string \<Rightarrow> (filesys, unit) prog" where
  "MakeDirectory dir fs =
     (case os_MkdirAll dir fs of
        (None, fs') \<Rightarrow> (Ok (), fs')
      | (Some (e, p), fs') \<Rightarrow>
          (let err = Error (''mkdir '' @ p @ '': '' @ errno_text e);
               err' = (if IsExist e then
                         (case os_Readlink fs' p of
                            Inr link \<Rightarrow> Error (''is symlink '' @ p @ '' -> '' @ link @ '' mounted?'')
                          | Inl _ \<Rightarrow> err)
                       else err)
           in (Err (Wrap (''failed to create dir '' @ dir) err'), fs')))"

section \<open>Reading and writing whole files\<close>

text \<open>
  \<open>os_OpenAppend\<close> is \<^verbatim>\<open>os.OpenFile(p, O_CREATE|O_WRONLY|O_APPEND, 0666)\<close>: an existing file is kept,
  a missing one is created empty. \<open>os_WriteFile\<close> replaces the contents; \<open>os_ReadFile\<close> returns them.
\<close>

definition os_create :: "(string \<Rightarrow> string) \<Rightarrow> syscall \<Rightarrow> string \<Rightarrow> (filesys, unit) prog" where
  "os_create contents call p fs =
     (case fault fs call p of
        Some e \<Rightarrow> (Err (Error (''open '' @ p @ '': '' @ errno_text e)), fs)
      | None \<Rightarrow>
          (let k = fs_key fs p in
           case nodes fs k of
             Some DirNode \<Rightarrow> (Err (Error (''open '' @ p @ '': is a directory'')), fs)
           | Some (LinkNode t) \<Rightarrow> (Err (Error (''open '' @ p @ '': '' @ errno_text ENOENT)), fs)
           | Some (FileNode s) \<Rightarrow> (Ok (), fs\<lparr>nodes := (nodes fs)(k \<mapsto> FileNode (contents s))\<rparr>)
           | None \<Rightarrow>
               if k \<noteq> [] \<and> nodes fs (butlast k) = Some DirNode
               then (Ok (), fs\<lparr>nodes := (nodes fs)(k \<mapsto> FileNode (contents []))\<rparr>)
               else (Err (Error (''open '' @ p @ '': '' @
                       errno_text (if under_file fs k then ENOTDIR else ENOENT))), fs)))"

definition os_OpenAppend :: "string \<Rightarrow> (filesys, unit) prog" where
  "os_OpenAppend p = os_create (\<lambda>s. s) Sys_open p"

definition os_WriteFile :: "string \<Rightarrow> string \<Rightarrow> (filesys, unit) prog" where
  "os_WriteFile p contents = os_create (\<lambda>_. contents) Sys_write p"

definition os_ReadFile :: "filesys \<Rightarrow> string \<Rightarrow> string res" where
  "os_ReadFile fs p =
     (case fault fs Sys_read p of
        Some e \<Rightarrow> Err (Error (''open '' @ p @ '': '' @ errno_text e))
      | None \<Rightarrow>
          (case nodes fs (fs_key fs p) of
             Some (FileNode s) \<Rightarrow> Ok s
           | Some DirNode \<Rightarrow> Err (Error (''read '' @ p @ '': is a directory''))
           | _ \<Rightarrow> Err (Error (''open '' @ p @ '': '' @ errno_text ENOENT))))"

section \<open>Properties\<close>

text \<open>\<open>grows fs fs'\<close>: nothing that was there has changed or gone.\<close>

definition grows :: "filesys \<Rightarrow> filesys \<Rightarrow> bool" where
  "grows fs fs' \<longleftrightarrow> nodes fs \<subseteq>\<^sub>m nodes fs' \<and> cwd fs' = cwd fs \<and> fault fs' = fault fs"

lemma grows_refl [simp]: "grows fs fs"
  by (simp add: grows_def)

lemma grows_trans: "grows a b \<Longrightarrow> grows b c \<Longrightarrow> grows a c"
  by (auto simp: grows_def intro: map_le_trans)

lemma grows_key: "grows fs fs' \<Longrightarrow> fs_key fs' p = fs_key fs p"
  by (simp add: grows_def fs_key_def)

lemma os_Stat_Inr: "os_Stat fs p = Inr n \<Longrightarrow> nodes fs (fs_key fs p) = Some n"
  by (auto simp: os_Stat_def split: option.splits node.splits)

lemma os_Lstat_Inr: "os_Lstat fs p = Inr n \<Longrightarrow> nodes fs (fs_key fs p) = Some n"
  by (auto simp: os_Lstat_def split: option.splits)

lemma os_Mkdir_grows: "os_Mkdir p fs = (e, fs') \<Longrightarrow> grows fs fs'"
  by (auto simp: os_Mkdir_def grows_def Let_def map_le_def split: option.splits if_splits)

lemma os_Mkdir_made: "os_Mkdir p fs = (None, fs') \<Longrightarrow> nodes fs' (fs_key fs' p) = Some DirNode"
  by (auto simp: os_Mkdir_def Let_def fs_key_def split: option.splits if_splits)

lemma mkdir_checked_grows: "mkdir_checked p fs = (r, fs') \<Longrightarrow> grows fs fs'"
  by (auto simp: mkdir_checked_def split: prod.splits option.splits sum.splits node.splits dest: os_Mkdir_grows)

lemma mkdir_checked_made: "mkdir_checked p fs = (None, fs') \<Longrightarrow> nodes fs' (fs_key fs' p) = Some DirNode"
  by (auto simp: mkdir_checked_def split: prod.splits option.splits sum.splits node.splits
      dest: os_Mkdir_made os_Lstat_Inr)

lemma MkdirAll_rev_grows: "MkdirAll_rev r es fs = (e, fs') \<Longrightarrow> grows fs fs'"
proof (induction r es fs arbitrary: e fs' rule: MkdirAll_rev.induct)
  case (1 r es fs)
  show ?case
  proof (cases "\<exists>n. os_Stat fs (path_of r (rev es)) = Inr n")
    case True
    with "1.prems" show ?thesis
      by (auto simp: MkdirAll_rev.simps [of r es] Let_def split: node.splits)
  next
    case False
    then obtain x where x: "os_Stat fs (path_of r (rev es)) = Inl x" by (metis sum.exhaust)
    show ?thesis
    proof (cases "\<exists>a b es'. es = a # b # es'")
      case True
      then obtain a b es' where es: "es = a # b # es'" by blast
      obtain q fs1 where q: "MkdirAll_rev r (b # es') fs = (q, fs1)" by fastforce
      have "grows fs fs1" using "1.IH" [OF refl x es] q by blast
      with "1.prems" x es q show ?thesis
        by (auto simp: MkdirAll_rev.simps [of r "a # b # es'"] Let_def split: option.splits
            dest: mkdir_checked_grows intro: grows_trans)
    next
      case False
      with "1.prems" x show ?thesis
        by (auto simp: MkdirAll_rev.simps [of r es] Let_def split: list.splits dest: mkdir_checked_grows)
    qed
  qed
qed

lemma MkdirAll_rev_made:
  "MkdirAll_rev r es fs = (None, fs') \<Longrightarrow> nodes fs' (fs_key fs' (path_of r (rev es))) = Some DirNode"
  by (subst (asm) MkdirAll_rev.simps)
    (auto simp: Let_def split: sum.splits node.splits list.splits prod.splits option.splits
      dest: os_Stat_Inr mkdir_checked_made)

lemma fs_key_path_of: "fs_key fs (path_of (rooted p) (elements p)) = fs_key fs p"
proof -
  have e: "elements (join_sep (elements p)) = elements p" by (rule elements_join) (rule elements_plain)
  show ?thesis
  proof (cases "rooted p")
    case True
    with e show ?thesis by (simp add: path_of_def fs_key_def)
  next
    case False
    have "\<not> rooted (join_sep (elements p))"
    proof (cases "elements p")
      case (Cons x xs)
      with elements_plain [of x p] show ?thesis by (cases xs; cases x) auto
    qed simp
    with e False show ?thesis by (simp add: path_of_def fs_key_def)
  qed
qed

lemma MakeDirectory_run:
  "MakeDirectory dir fs = (r, fs') \<Longrightarrow>
     grows fs fs' \<and> (r = Ok () \<longrightarrow> nodes fs' (fs_key fs' dir) = Some DirNode)"
  using fs_key_path_of [of fs' dir]
  by (auto simp: MakeDirectory_def os_MkdirAll_def Let_def split: prod.splits option.splits
      dest: MkdirAll_rev_grows MkdirAll_rev_made)

text \<open>What a call of \<^verbatim>\<open>mkdir\<close> changes: at most the node of its path, from nothing to a directory.\<close>

lemma mkdir_checked_adds:
  "mkdir_checked p fs = (r, fs') \<Longrightarrow>
     nodes fs' k = nodes fs k \<or> (nodes fs k = None \<and> nodes fs' k = Some DirNode \<and> k = fs_key fs p)"
  by (auto simp: mkdir_checked_def os_Mkdir_def Let_def split: prod.splits option.splits sum.splits node.splits if_splits)

lemma take_min_append: "take (min m (length xs)) (xs @ ys) = take m xs"
  by (simp add: min_def)

lemma MkdirAll_rev_adds:
  "MkdirAll_rev r es fs = (e, fs') \<Longrightarrow>
     nodes fs' k = nodes fs k \<or>
     (nodes fs k = None \<and> nodes fs' k = Some DirNode \<and> (\<exists>n. k = fs_key fs (path_of r (take n (rev es)))))"
proof (induction r es fs arbitrary: e fs' rule: MkdirAll_rev.induct)
  case (1 r es fs)
  have last: "\<exists>n. fs_key fs (path_of r (rev es)) = fs_key fs (path_of r (take n (rev es)))"
    by (rule exI [of _ "length es"]) simp
  show ?case
  proof (cases "\<exists>a b es' x. es = a # b # es' \<and> os_Stat fs (path_of r (rev es)) = Inl x")
    case True
    then obtain a b es' x where es: "es = a # b # es'" and x: "os_Stat fs (path_of r (rev es)) = Inl x" by blast
    obtain q fs1 where q: "MkdirAll_rev r (b # es') fs = (q, fs1)" by fastforce
    have g: "grows fs fs1" using MkdirAll_rev_grows [OF q] .
    have up: "\<exists>n. fs_key fs (path_of r (take m (rev (b # es')))) = fs_key fs (path_of r (take n (rev es)))" for m
      using take_min_append [of m "rev (b # es')" "[a]"] by (metis es rev.simps(2))
    have "nodes fs1 k = nodes fs k \<or> (nodes fs k = None \<and> nodes fs1 k = Some DirNode \<and>
        (\<exists>n. k = fs_key fs (path_of r (take n (rev es)))))"
      using "1.IH" [OF refl x es refl q] up by metis
    moreover have "fs' = fs1 \<or> (\<exists>r'. mkdir_checked (path_of r (rev es)) fs1 = (r', fs'))"
      using "1.prems" x q unfolding es
      by (subst (asm) MkdirAll_rev.simps) (auto simp: Let_def split: option.splits)
    ultimately show ?thesis
      using mkdir_checked_adds [of "path_of r (rev es)" fs1 _ fs' k] last grows_key [OF g] by metis
  next
    case False
    with "1.prems" have "fs' = fs \<or> (\<exists>r'. mkdir_checked (path_of r (rev es)) fs = (r', fs'))"
      by (subst (asm) MkdirAll_rev.simps) (auto simp: Let_def split: sum.splits node.splits list.splits)
    with mkdir_checked_adds [of "path_of r (rev es)" fs _ fs' k] last show ?thesis by metis
  qed
qed

lemma MakeDirectory_adds:
  assumes "MakeDirectory dir fs = (r, fs')"
  shows "nodes fs' k = nodes fs k \<or> (nodes fs k = None \<and> nodes fs' k = Some DirNode \<and>
    (\<exists>n. k = fs_key fs (path_of (rooted dir) (take n (elements dir)))))"
proof -
  obtain e where "MkdirAll_rev (rooted dir) (rev (elements dir)) fs = (e, fs')"
    using assms by (auto simp: MakeDirectory_def os_MkdirAll_def Let_def split: prod.splits option.splits)
  from MkdirAll_rev_adds [OF this, of k] show ?thesis by simp
qed

lemma MakeDirectory_quiet: "MakeDirectory dir fs = (r, fs') \<Longrightarrow> r \<noteq> Panic q"
  by (auto simp: MakeDirectory_def Let_def split: prod.splits option.splits)

text \<open>
  C37: \<^verbatim>\<open>MakeDirectory\<close> only adds directories, and only on its own path: whether it succeeds or fails, and
  whatever system calls fail on the way, a name in the tree is as it was, or there was nothing and now
  there is a directory, and the name is that of a leading part of the path. When it reports success, the
  path is a directory; it never panics.
\<close>

theorem MakeDirectory_safe:
  assumes "MakeDirectory dir fs = (r, fs')"
  shows "(\<forall>k. nodes fs' k = nodes fs k \<or> (nodes fs k = None \<and> nodes fs' k = Some DirNode \<and>
      (\<exists>n. k = fs_key fs (path_of (rooted dir) (take n (elements dir)))))) \<and>
    cwd fs' = cwd fs \<and> fault fs' = fault fs \<and>
    (r = Ok () \<longrightarrow> nodes fs' (fs_key fs' dir) = Some DirNode) \<and> (\<forall>q. r \<noteq> Panic q)"
  using MakeDirectory_run [OF assms] MakeDirectory_adds [OF assms] MakeDirectory_quiet [OF assms]
  by (auto simp: grows_def)

theorem MakeDirectory_safe_witness:
  "\<exists>fs'. MakeDirectory ''/a'' \<lparr>nodes = [[] \<mapsto> DirNode], cwd = [], fault = (\<lambda>_ _. None)\<rparr> = (Ok (), fs') \<and>
     nodes fs' [''a''] = Some DirNode \<and> nodes fs' [] = Some DirNode"
proof -
  let ?fs = "\<lparr>nodes = [[] \<mapsto> DirNode], cwd = [], fault = (\<lambda>_ _. None)\<rparr>"
  obtain fs' where fs': "MakeDirectory ''/a'' ?fs = (Ok (), fs')"
    by (simp add: MakeDirectory_def os_MkdirAll_def MkdirAll_rev.simps elements_def path_of_def os_Stat_def
        fs_key_def under_file_def mkdir_checked_def os_Mkdir_def)
  have safe: "nodes fs' [] = nodes ?fs []" "nodes fs' (fs_key fs' ''/a'') = Some DirNode"
    using MakeDirectory_safe [OF fs', THEN conjunct1, THEN spec [of _ "[]"]] MakeDirectory_safe [OF fs'] by simp_all
  with fs' show ?thesis by (auto simp: fs_key_def elements_def)
qed

lemma os_create_run:
  assumes "os_create f call p fs = (Ok (), fs')"
  shows "\<exists>s. nodes fs' = (nodes fs)(fs_key fs p \<mapsto> FileNode s) \<and> cwd fs' = cwd fs \<and> fault fs' = fault fs \<and>
    (\<exists>t. s = f t)"
  using assms by (auto simp: os_create_def Let_def split: option.splits node.splits if_splits)

lemma write_then_read:
  assumes "os_WriteFile p contents fs = (Ok (), fs')" and "\<And>c q. fault fs c q = None"
  shows "FileExists fs' p \<and> os_ReadFile fs' p = Ok contents"
  using os_create_run [OF assms(1) [unfolded os_WriteFile_def]] assms(2)
  by (auto simp: FileExists_def os_Stat_def os_ReadFile_def fs_key_def)

end
