(* ===== verification/World.thy ===== *)
theory World
  imports Staking_Types File_System
begin

text \<open>
  What the daemon acts on: the readers that carry a passphrase to the keyring, the files and the
  environment, the state \<open>ext\<close> of everything behind a third-party library (the keyring's storage, the
  Babylon node), and a \<open>trace\<close> of the calls made on the node, oldest first. Third-party code can
  change \<open>ext\<close> only: the files that a keyring backend keeps in its own directory below the home count
  as part of \<open>ext\<close>, and \<open>files\<close> is what the daemon itself reads and writes. Every call on the node is
  recorded by the wrapper \<open>node_call\<close>, so what the daemon has asked the chain to do is read off the trace.
\<close>

section \<open>Messages to the Babylon chain\<close>

record MsgAddCovenantSigs =
  Signer :: string
  Pk_msg :: BIP340PubKey
  StakingTxHash_msg :: string
  SlashingTxSigs :: "bytes list"
  UnbondingTxSig :: BIP340Signature
  SlashingUnbondingTxSigs :: "bytes list"

record MsgCreateBTCDelegation =
  Signer_del :: string
  BabylonPk_del :: bytes
  Pop_del :: bytes
  BtcPk_del :: BIP340PubKey
  FpBtcPkList_del :: "BIP340PubKey list"
  StakingTime_del :: u32
  StakingValue_del :: i64
  StakingTx_del :: bytes
  SlashingTx_del :: BTCSlashingTx
  DelegatorSlashingSig_del :: BIP340Signature
  UnbondingTx_del :: bytes
  UnbondingTime_del :: u32
  UnbondingValue_del :: i64
  UnbondingSlashingTx_del :: BTCSlashingTx
  DelegatorUnbondingSlashingSig_del :: BIP340Signature

record MsgCreateFinalityProvider =
  Signer_fp :: string
  Commission_fp :: LegacyDec
  BabylonPk_fp :: bytes
  BtcPk_fp :: BIP340PubKey
  Description_fp :: string
  Pop_fp :: bytes

record MsgInsertHeaders =
  Signer_hdr :: string
  Headers_hdr :: "bytes list"

datatype sdk_Msg =
    AddCovenantSigs MsgAddCovenantSigs
  | CreateBTCDelegation_msg MsgCreateBTCDelegation
  | CreateFinalityProvider_msg MsgCreateFinalityProvider
  | InsertHeaders_msg MsgInsertHeaders

datatype sdk_error = ErrInvalidCovenantPK | ErrInvalidCovenantSig | OtherSdkError string

datatype BTCDelegationStatus = PENDING | ACTIVE | UNBONDED | ANY

section \<open>The trace of calls on the node and the world\<close>

datatype event =
    BTCCheckpointParams_call
  | BTCStakingParams_call
  | BTCDelegations_call BTCDelegationStatus u64
  | FinalityProviders_call "bytes option" u64
  | Tip_call
  | ReliablySendMsgs_call "sdk_Msg list" "sdk_error list" "sdk_error list"
  | Stop_call

record 'x world =
  readers :: "string list"
  trace :: "event list"
  files :: filesys
  environment :: environ
  stdout :: "string list"
  ext :: 'x

definition msgs_of :: "event \<Rightarrow> sdk_Msg list list" where
  "msgs_of e = (case e of ReliablySendMsgs_call ms _ _ \<Rightarrow> [ms] | _ \<Rightarrow> [])"

definition sent :: "'x world \<Rightarrow> sdk_Msg list list" where
  "sent w = concat (map msgs_of (trace w))"

text \<open>A call of a third-party library, and one that goes to the node.\<close>

definition ext_call :: "('x \<Rightarrow> 'a res \<times> 'x) \<Rightarrow> ('x world, 'a) prog" where
  "ext_call f w = (case f (ext w) of (r, x) \<Rightarrow> (r, w\<lparr>ext := x\<rparr>))"

definition node_call :: "event \<Rightarrow> ('x \<Rightarrow> 'a res \<times> 'x) \<Rightarrow> ('x world, 'a) prog" where
  "node_call ev f w = ext_call f (w\<lparr>trace := trace w @ [ev]\<rparr>)"

definition on_files :: "(filesys, 'a) prog \<Rightarrow> ('x world, 'a) prog" where
  "on_files m w = (case m (files w) of (r, f) \<Rightarrow> (r, w\<lparr>files := f\<rparr>))"

lemma ext_call_frame [keeps_intros]:
  "keeps trace (ext_call f)" "keeps readers (ext_call f)" "keeps files (ext_call f)"
  "keeps environment (ext_call f)" "keeps sent (ext_call f)"
  by (simp_all add: keeps_def ext_call_def sent_def split_beta)

lemma node_call_frame [keeps_intros]:
  "keeps readers (node_call ev f)" "keeps files (node_call ev f)"
  "keeps environment (node_call ev f)"
  by (simp_all add: keeps_def node_call_def ext_call_def split_beta)

lemma node_call_trace: "trace (snd (node_call ev f w)) = trace w @ [ev]"
  by (simp add: node_call_def ext_call_def split_beta)

lemma node_call_sent: "sent (snd (node_call ev f w)) = sent w @ msgs_of ev"
  by (simp add: sent_def node_call_trace)

lemma node_query_keeps_sent [keeps_intros]: "msgs_of ev = [] \<Longrightarrow> keeps sent (node_call ev f)"
  by (simp add: keeps_def node_call_sent)

lemma msgs_of_simps [simp]:
  "msgs_of BTCCheckpointParams_call = []" "msgs_of BTCStakingParams_call = []"
  "msgs_of (BTCDelegations_call st n) = []" "msgs_of (FinalityProviders_call k n) = []"
  "msgs_of Tip_call = []" "msgs_of Stop_call = []"
  "msgs_of (ReliablySendMsgs_call ms es us) = [ms]"
  by (simp_all add: msgs_of_def)

lemma on_files_frame [keeps_intros]:
  "keeps trace (on_files m)" "keeps readers (on_files m)" "keeps environment (on_files m)"
  "keeps ext (on_files m)" "keeps sent (on_files m)"
  by (simp_all add: keeps_def on_files_def sent_def split_beta)

section \<open>strings.Reader\<close>

text \<open>
  A reader is known by its address, since one reader is shared by the keyring that reads from it and
  the controller that resets it. Its value is what has not been read yet.
\<close>

definition NewReader :: "string \<Rightarrow> ('x world, nat) prog" where
  "NewReader s w = (Ok (length (readers w)), w\<lparr>readers := readers w @ [s]\<rparr>)"

definition Reset :: "nat \<Rightarrow> string \<Rightarrow> ('x world, unit) prog" where
  "Reset a s w = (Ok (), w\<lparr>readers := (readers w)[a := s]\<rparr>)"

text \<open>A library call that reads from a reader: it sees the unread input and returns what it left.\<close>

definition reading_call ::
    "nat \<Rightarrow> (string \<Rightarrow> 'x \<Rightarrow> ('a res \<times> string) \<times> 'x) \<Rightarrow> ('x world, 'a) prog" where
  "reading_call a f w =
     (case f (readers w ! a) (ext w) of
        ((r, rest), x) \<Rightarrow> (r, w\<lparr>readers := (readers w)[a := rest], ext := x\<rparr>))"

lemma reader_frame [keeps_intros]:
  "keeps trace (NewReader s)" "keeps trace (Reset a s)" "keeps trace (reading_call a f)"
  "keeps sent (NewReader s)" "keeps sent (Reset a s)" "keeps sent (reading_call a f)"
  "keeps files (NewReader s)" "keeps files (Reset a s)" "keeps files (reading_call a f)"
  "keeps environment (NewReader s)" "keeps environment (Reset a s)"
  "keeps environment (reading_call a f)"
  by (simp_all add: keeps_def NewReader_def Reset_def reading_call_def sent_def split_beta)

lemma stdout_frame [keeps_intros]:
  "keeps stdout (ext_call g)" "keeps stdout (node_call ev g)" "keeps stdout (NewReader s)"
  "keeps stdout (Reset a s)" "keeps stdout (reading_call a f)" "keeps stdout (on_files m)"
  by (simp_all add: keeps_def ext_call_def node_call_def NewReader_def Reset_def reading_call_def
      on_files_def split_beta)

lemma reader_count [keeps_intros]:
  "keeps (\<lambda>w. length (readers w)) (Reset a s)"
  "keeps (\<lambda>w. length (readers w)) (reading_call a f)"
  "keeps (\<lambda>w. length (readers w)) (ext_call g)"
  "keeps (\<lambda>w. length (readers w)) (node_call ev g)"
  by (simp_all add: keeps_def Reset_def reading_call_def ext_call_def node_call_def split_beta)

section \<open>A concrete world\<close>

definition sample_environ :: environ where
  "sample_environ = \<lparr>getenv = (\<lambda>v. if v = ''HOME'' then ''/home/u'' else []),
     user_current = Some ''/home/u'', getwd = Ok ''/work''\<rparr>"

definition sample_world :: "unit world" where
  "sample_world = \<lparr>readers = [], trace = [], files = \<lparr>nodes = (\<lambda>_. None), cwd = [], fault = (\<lambda>_ _. None)\<rparr>,
     environment = sample_environ, stdout = [], ext = ()\<rparr>"

end
