(* ===== verification/Keyring.thy ===== *)
theory Keyring
  imports World
begin

text \<open>
  The packages \<^verbatim>\<open>keyring\<close> (keyring.go, keyringcontroller.go) and \<^verbatim>\<open>codec\<close>, and \<^verbatim>\<open>CreateCovenantKey\<close>
  of covenant.go. The Cosmos SDK keyring, bip39 and btcec are the parameter \<open>keyring_lib\<close>: a keyring
  is a handle into the library's state together with the reader it was opened with, from which it
  reads passphrases.
\<close>

section \<open>The libraries\<close>

datatype KeyringHandle = KeyringHandle nat
datatype KeyRecord = KeyRecord bytes
datatype SignatureAlgo = SignatureAlgo string
datatype InterfaceRegistry = InterfaceRegistry "string list"
datatype ProtoCodec = ProtoCodec "string list"

text \<open>The cached value of a record's private key, as the type switch of the code tells it apart.\<close>

datatype CachedKey = Secp256k1PrivKey bytes | OtherPrivKey

record 'x keyring_lib =
  NewInterfaceRegistry :: InterfaceRegistry
  RegisterInterfaces :: "InterfaceRegistry \<Rightarrow> InterfaceRegistry"
  NewProtoCodec :: "InterfaceRegistry \<Rightarrow> ProtoCodec"
  keyring_New :: "string \<Rightarrow> string \<Rightarrow> string \<Rightarrow> ProtoCodec \<Rightarrow> 'x \<Rightarrow> KeyringHandle res \<times> 'x"
  keyring_Key :: "KeyringHandle \<Rightarrow> string \<Rightarrow> string \<Rightarrow> 'x \<Rightarrow> (KeyRecord res \<times> string) \<times> 'x"
  keyring_NewAccount ::
    "KeyringHandle \<Rightarrow> string \<Rightarrow> string \<Rightarrow> string \<Rightarrow> string \<Rightarrow> SignatureAlgo \<Rightarrow> string \<Rightarrow> 'x \<Rightarrow>
       (KeyRecord res \<times> string) \<times> 'x"
  SupportedAlgorithms :: "KeyringHandle \<Rightarrow> SignatureAlgo list"
  NewSigningAlgoFromString :: "string \<Rightarrow> SignatureAlgo list \<Rightarrow> SignatureAlgo res"
  NewEntropy :: "nat \<Rightarrow> 'x \<Rightarrow> bytes res \<times> 'x"
  NewMnemonic :: "bytes \<Rightarrow> string res"
  GetCachedPrivKey :: "KeyRecord \<Rightarrow> CachedKey res"
  PrivKeyFromBytes :: "bytes \<Rightarrow> PrivateKey \<times> PublicKey"
  PubKeyBytes :: "bytes \<Rightarrow> bytes"
  ParsePubKey :: "bytes \<Rightarrow> PublicKey res"

section \<open>codec.go, keyring.go\<close>

text \<open>The codec shares the registry it was made from, so it sees the interfaces registered after it.\<close>

definition MakeCodec :: "'x keyring_lib \<Rightarrow> ProtoCodec" where
  "MakeCodec L = NewProtoCodec L (RegisterInterfaces L (NewInterfaceRegistry L))"

record ClientContext =
  ChainID :: string
  Codec :: ProtoCodec
  KeyringDir :: string

record Keyring =
  kr_handle :: KeyringHandle
  kr_input :: nat

text \<open>\<^verbatim>\<open>os.UserHomeDir\<close> on Unix.\<close>

definition UserHomeDir :: "environ \<Rightarrow> string res" where
  "UserHomeDir env =
     (if getenv env ''HOME'' = [] then Err (Error ''$HOME is not defined'')
      else Ok (getenv env ''HOME''))"

definition CreateClientCtx ::
    "'x keyring_lib \<Rightarrow> string \<Rightarrow> string \<Rightarrow> ('x world, ClientContext) prog" where
  "CreateClientCtx L keyringDir chainId w =
     (if keyringDir = [] then
        bindP (liftP (UserHomeDir (environment w)))
          (\<lambda>homeDir. returnP \<lparr>ChainID = chainId, Codec = MakeCodec L,
                              KeyringDir = Join [homeDir, ''.covenant-emulator'']\<rparr>)
      else returnP \<lparr>ChainID = chainId, Codec = MakeCodec L, KeyringDir = keyringDir\<rparr>) w"

definition CreateKeyring ::
    "'x keyring_lib \<Rightarrow> string \<Rightarrow> string \<Rightarrow> string \<Rightarrow> nat \<Rightarrow> ('x world, Keyring) prog" where
  "CreateKeyring L keyringDir chainId backend input =
     bindP (CreateClientCtx L keyringDir chainId) (\<lambda>ctx.
     if backend = [] then throwP (Error ''the keyring backend should not be empty'')
     else
       bindP (wrapP ''failed to create keyring''
               (ext_call (keyring_New L (ChainID ctx) backend (KeyringDir ctx) (Codec ctx)))) (\<lambda>h.
       returnP \<lparr>kr_handle = h, kr_input = input\<rparr>))"

section \<open>keyringcontroller.go\<close>

record ChainKeyringController =
  kr :: Keyring
  fpName :: string
  input :: nat

definition secp256k1Type :: string where
  "secp256k1Type = ''secp256k1''"

definition mnemonicEntropySize :: nat where
  "mnemonicEntropySize = 256"

definition NewChainKeyringController ::
    "'x keyring_lib \<Rightarrow> ClientContext \<Rightarrow> string \<Rightarrow> string \<Rightarrow> ('x world, ChainKeyringController) prog" where
  "NewChainKeyringController L ctx name keyringBackend =
     (if name = [] then throwP (Error ''the key name should not be empty'')
      else if keyringBackend = [] then throwP (Error ''the keyring backend should not be empty'')
      else
        bindP (NewReader []) (\<lambda>inputReader.
        bindP (wrapP ''failed to create keyring''
                (ext_call (keyring_New L (ChainID ctx) keyringBackend (KeyringDir ctx) (Codec ctx)))) (\<lambda>h.
        returnP \<lparr>kr = \<lparr>kr_handle = h, kr_input = inputReader\<rparr>, fpName = name, input = inputReader\<rparr>)))"

definition NewChainKeyringControllerWithKeyring ::
    "Keyring \<Rightarrow> string \<Rightarrow> nat \<Rightarrow> ChainKeyringController res" where
  "NewChainKeyringControllerWithKeyring k name inp =
     (if name = [] then Err (Error ''the key name should not be empty'')
      else Ok \<lparr>kr = k, fpName = name, input = inp\<rparr>)"

definition GetKeyring :: "ChainKeyringController \<Rightarrow> Keyring" where
  "GetKeyring kc = kr kc"

definition unsupported_key :: error where
  "unsupported_key = Error ''unsupported key type in keyring''"

definition CreateChainKey ::
    "'x keyring_lib \<Rightarrow> ChainKeyringController \<Rightarrow> string \<Rightarrow> string \<Rightarrow> ('x world, ChainKeyInfo) prog" where
  "CreateChainKey L kc passphrase hdPath =
     bindP (liftP (NewSigningAlgoFromString L secp256k1Type (SupportedAlgorithms L (kr_handle (kr kc))))) (\<lambda>algo.
     bindP (ext_call (NewEntropy L mnemonicEntropySize)) (\<lambda>entropySeed.
     bindP (liftP (NewMnemonic L entropySeed)) (\<lambda>mnemonic.
     bindP (Reset (input kc) (passphrase @ CHR 0x0A # passphrase)) (\<lambda>_.
     bindP (reading_call (kr_input (kr kc))
             (keyring_NewAccount L (kr_handle (kr kc)) (fpName kc) mnemonic passphrase hdPath algo)) (\<lambda>record.
     bindP (liftP (GetCachedPrivKey L record)) (\<lambda>privKey.
     case privKey of
       Secp256k1PrivKey key \<Rightarrow>
         (case PrivKeyFromBytes L key of
            (sk, pk) \<Rightarrow> returnP \<lparr>Name = fpName kc, Mnemonic = mnemonic, PublicKey_info = pk, PrivateKey_info = sk\<rparr>)
     | OtherPrivKey \<Rightarrow> throwP unsupported_key))))))"

text \<open>The result is the field \<^verbatim>\<open>Key\<close> of the \<^verbatim>\<open>secp256k1.PrivKey\<close> the method returns.\<close>

definition GetChainPrivKey ::
    "'x keyring_lib \<Rightarrow> ChainKeyringController \<Rightarrow> string \<Rightarrow> ('x world, bytes) prog" where
  "GetChainPrivKey L kc passphrase =
     bindP (Reset (input kc) passphrase) (\<lambda>_.
     bindP (wrapP ''failed to get private key''
             (reading_call (kr_input (kr kc)) (keyring_Key L (kr_handle (kr kc)) (fpName kc)))) (\<lambda>k.
     bindP (liftP (GetCachedPrivKey L k)) (\<lambda>privKeyCached.
     case privKeyCached of
       Secp256k1PrivKey key \<Rightarrow> returnP key
     | OtherPrivKey \<Rightarrow> throwP unsupported_key)))"

definition CreateCovenantKey ::
    "'x keyring_lib \<Rightarrow> string \<Rightarrow> string \<Rightarrow> string \<Rightarrow> string \<Rightarrow> string \<Rightarrow> string \<Rightarrow>
       ('x world, ChainKeyInfo) prog" where
  "CreateCovenantKey L keyringDir chainID keyName backend passphrase hdPath =
     bindP (CreateClientCtx L keyringDir chainID) (\<lambda>sdkCtx.
     bindP (NewChainKeyringController L sdkCtx keyName backend) (\<lambda>krController.
     CreateChainKey L krController passphrase hdPath))"

section \<open>The passphrase reaches the keyring\<close>

text \<open>
  \<open>wired kc w\<close>: the controller resets the reader that its keyring reads from. \<open>opens L k name pass key\<close>:
  the keyring gives out the secp256k1 key \<open>key\<close> stored under a name to whoever presents the passphrase.
\<close>

definition wired :: "ChainKeyringController \<Rightarrow> 'x world \<Rightarrow> bool" where
  "wired kc w \<longleftrightarrow> input kc = kr_input (kr kc) \<and> input kc < length (readers w)"

definition opens :: "'x keyring_lib \<Rightarrow> Keyring \<Rightarrow> string \<Rightarrow> string \<Rightarrow> bytes \<Rightarrow> bool" where
  "opens L k name pass key \<longleftrightarrow>
     (\<forall>x. \<exists>rec rest x'. keyring_Key L (kr_handle k) name pass x = ((Ok rec, rest), x') \<and>
        GetCachedPrivKey L rec = Ok (Secp256k1PrivKey key))"

lemma keeps_case_CachedKey [keeps_intros]:
  "(\<And>key. keeps f (g key)) \<Longrightarrow> keeps f m \<Longrightarrow>
     keeps f (case k of Secp256k1PrivKey key \<Rightarrow> g key | OtherPrivKey \<Rightarrow> m)"
  by (cases k) auto

lemma GetChainPrivKey_frame [keeps_intros]:
  "keeps trace (GetChainPrivKey L kc pass)" "keeps sent (GetChainPrivKey L kc pass)"
  "keeps files (GetChainPrivKey L kc pass)" "keeps environment (GetChainPrivKey L kc pass)"
  "keeps (\<lambda>w. length (readers w)) (GetChainPrivKey L kc pass)"
  unfolding GetChainPrivKey_def by (intro keeps_intros)+

lemma CreateClientCtx_frame [keeps_intros]: "keeps f (CreateClientCtx L dir chain)"
  by (simp add: keeps_def CreateClientCtx_def bindP_def UserHomeDir_def)

lemma CreateKeyring_frame [keeps_intros]:
  "keeps sent (CreateKeyring L dir chain backend inp)" "keeps trace (CreateKeyring L dir chain backend inp)"
  "keeps (\<lambda>w. length (readers w)) (CreateKeyring L dir chain backend inp)"
  unfolding CreateKeyring_def by (intro keeps_intros)+

lemma CreateKeyring_input: "CreateKeyring L dir chain backend inp w = (Ok k, w') \<Longrightarrow> kr_input k = inp"
  by (auto simp: CreateKeyring_def run_iffs split: if_splits)

lemma GetChainPrivKey_run:
  assumes "wired kc w"
    and "keyring_Key L (kr_handle (kr kc)) (fpName kc) pass (ext w) = ((r, rest), x)"
  shows "GetChainPrivKey L kc pass w =
    (bindR (wrapR ''failed to get private key'' r) (\<lambda>rec.
     bindR (GetCachedPrivKey L rec) (\<lambda>k.
     case k of Secp256k1PrivKey key \<Rightarrow> Ok key | OtherPrivKey \<Rightarrow> Err unsupported_key)),
     w\<lparr>readers := (readers w)[input kc := rest], ext := x\<rparr>)"
  using assms
  by (auto simp: GetChainPrivKey_def wired_def Reset_def reading_call_def bindP_def wrapP_def
      split: res.splits CachedKey.splits)

lemma GetChainPrivKey_opens:
  assumes "wired kc w" and "opens L (kr kc) (fpName kc) pass key"
  obtains w' where "GetChainPrivKey L kc pass w = (Ok key, w')" "sent w' = sent w" "wired kc w'"
proof -
  from assms(2) obtain rec rest x where
      x: "keyring_Key L (kr_handle (kr kc)) (fpName kc) pass (ext w) = ((Ok rec, rest), x)"
      "GetCachedPrivKey L rec = Ok (Secp256k1PrivKey key)"
    unfolding opens_def by blast
  show thesis
  proof (rule that)
    show "GetChainPrivKey L kc pass w =
        (Ok key, w\<lparr>readers := (readers w)[input kc := rest], ext := x\<rparr>)"
      using GetChainPrivKey_run [OF assms(1) x(1)] x(2) by simp
  qed (use assms(1) in \<open>simp_all add: sent_def wired_def\<close>)
qed

section \<open>A concrete keyring\<close>

text \<open>One stored key, given out for the passphrase \<open>secret\<close>, of which it consumes the input.\<close>

definition sample_keyring :: "unit keyring_lib" where
  "sample_keyring =
     \<lparr>NewInterfaceRegistry = InterfaceRegistry [], RegisterInterfaces = id,
      NewProtoCodec = (\<lambda>r. ProtoCodec []),
      keyring_New = (\<lambda>_ _ _ _ x. (Ok (KeyringHandle 0), x)),
      keyring_Key = (\<lambda>_ _ inp x.
        ((if inp = ''secret'' then Ok (KeyRecord [5]) else Err (Error ''wrong passphrase''), []), x)),
      keyring_NewAccount = (\<lambda>_ _ _ _ _ _ _ x. ((Ok (KeyRecord [5]), []), x)),
      SupportedAlgorithms = (\<lambda>_. [SignatureAlgo ''secp256k1'']),
      NewSigningAlgoFromString = (\<lambda>s _. Ok (SignatureAlgo s)),
      NewEntropy = (\<lambda>_ x. (Ok [9], x)), NewMnemonic = (\<lambda>_. Ok ''word''),
      GetCachedPrivKey = (\<lambda>r. case r of KeyRecord b \<Rightarrow> Ok (Secp256k1PrivKey b)),
      PrivKeyFromBytes = (\<lambda>b. (PrivateKey b, PublicKey b)), PubKeyBytes = id,
      ParsePubKey = (\<lambda>b. Ok (PublicKey b))\<rparr>"

definition sample_controller :: ChainKeyringController where
  "sample_controller =
     \<lparr>kr = \<lparr>kr_handle = KeyringHandle 0, kr_input = 0\<rparr>, fpName = ''covenant-key'', input = 0\<rparr>"

lemma sample_opens:
  "opens sample_keyring \<lparr>kr_handle = h, kr_input = i\<rparr> name ''secret'' [5]"
  by (simp add: opens_def sample_keyring_def)

section \<open>Creating a key\<close>

text \<open>
  What the Cosmos keyring documents: an account that was created under a name is later found under it
  by whoever presents the passphrase it was created with.
\<close>

definition remembers :: "'x keyring_lib \<Rightarrow> bool" where
  "remembers L \<longleftrightarrow>
     (\<forall>h name mnemonic pass hd algo x rec rest x'.
        keyring_NewAccount L h name mnemonic pass hd algo (pass @ CHR 0x0A # pass) x = ((Ok rec, rest), x') \<longrightarrow>
        (\<exists>rest' x''. keyring_Key L h name pass x' = ((Ok rec, rest'), x'')))"

lemma CreateChainKey_run:
  assumes "wired kc w" and "CreateChainKey L kc pass hdPath w = (Ok info, w')"
  obtains algo x mnemonic rec rest x' key where
    "keyring_NewAccount L (kr_handle (kr kc)) (fpName kc) mnemonic pass hdPath algo (pass @ CHR 0x0A # pass) x
       = ((Ok rec, rest), x')"
    "GetCachedPrivKey L rec = Ok (Secp256k1PrivKey key)" "ext w' = x'" "wired kc w'"
    "info = \<lparr>Name = fpName kc, Mnemonic = mnemonic, PublicKey_info = snd (PrivKeyFromBytes L key),
       PrivateKey_info = fst (PrivKeyFromBytes L key)\<rparr>"
proof -
  let ?new = "keyring_NewAccount L (kr_handle (kr kc)) (fpName kc)"
  from assms(2) obtain algo ent w1 mnemonic w2 rec w3 k where
      ent: "ext_call (NewEntropy L mnemonicEntropySize) w = (Ok ent, w1)"
    and reset: "Reset (input kc) (pass @ CHR 0x0A # pass) w1 = (Ok (), w2)"
    and new: "reading_call (kr_input (kr kc)) (?new mnemonic pass hdPath algo) w2 = (Ok rec, w3)"
    and k: "GetCachedPrivKey L rec = Ok k"
      "(case k of Secp256k1PrivKey key \<Rightarrow>
          (case PrivKeyFromBytes L key of (sk, pk) \<Rightarrow> returnP \<lparr>Name = fpName kc, Mnemonic = mnemonic,
             PublicKey_info = pk, PrivateKey_info = sk\<rparr>)
        | OtherPrivKey \<Rightarrow> throwP unsupported_key) w3 = (Ok info, w')"
    by (auto simp: CreateChainKey_def run_iffs)
  obtain key where key: "k = Secp256k1PrivKey key" "w' = w3"
      "info = \<lparr>Name = fpName kc, Mnemonic = mnemonic, PublicKey_info = snd (PrivKeyFromBytes L key),
        PrivateKey_info = fst (PrivKeyFromBytes L key)\<rparr>"
    using k(2) by (cases k) (auto split: prod.splits)
  have w2: "readers w2 ! kr_input (kr kc) = pass @ CHR 0x0A # pass" "wired kc w2"
    using reset assms(1) keepsD [OF ext_call_frame(2) ent] by (auto simp: Reset_def wired_def)
  obtain rest x' where "?new mnemonic pass hdPath algo (pass @ CHR 0x0A # pass) (ext w2) = ((Ok rec, rest), x')"
      "ext w3 = x'" "wired kc w3"
    using new w2 by (auto simp: reading_call_def wired_def split: prod.splits)
  with that k(1) key show thesis by blast
qed

text \<open>
  C21: A key that \<^verbatim>\<open>CreateChainKey\<close> has created can be fetched again: with a keyring that remembers its
  accounts, \<^verbatim>\<open>GetChainPrivKey\<close> with the same passphrase returns a key whose private and public parts are
  those that were reported at creation. The keyring is given the passphrase twice at creation and once
  at the lookup, whatever an earlier call left unread.
\<close>

theorem created_key_is_found:
  assumes "remembers L" and "wired kc w" and "CreateChainKey L kc pass hdPath w = (Ok info, w')"
  shows "Name info = fpName kc \<and>
    (\<exists>key w''. GetChainPrivKey L kc pass w' = (Ok key, w'') \<and>
       PrivKeyFromBytes L key = (PrivateKey_info info, PublicKey_info info))"
proof -
  obtain algo x mnemonic rec rest x' key where
      new: "keyring_NewAccount L (kr_handle (kr kc)) (fpName kc) mnemonic pass hdPath algo (pass @ CHR 0x0A # pass) x
        = ((Ok rec, rest), x')"
      "GetCachedPrivKey L rec = Ok (Secp256k1PrivKey key)" "ext w' = x'" "wired kc w'"
      "info = \<lparr>Name = fpName kc, Mnemonic = mnemonic, PublicKey_info = snd (PrivKeyFromBytes L key),
        PrivateKey_info = fst (PrivKeyFromBytes L key)\<rparr>"
    using assms(2,3) by (rule CreateChainKey_run)
  from assms(1) new(1,3) obtain rest' x'' where
      "keyring_Key L (kr_handle (kr kc)) (fpName kc) pass (ext w') = ((Ok rec, rest'), x'')"
    unfolding remembers_def by blast
  from GetChainPrivKey_run [OF new(4) this] new(2,5) show ?thesis by simp
qed

definition sample_store :: "(string \<times> string) option keyring_lib" where
  "sample_store =
     \<lparr>NewInterfaceRegistry = InterfaceRegistry [], RegisterInterfaces = id,
      NewProtoCodec = (\<lambda>r. ProtoCodec []),
      keyring_New = (\<lambda>_ _ _ _ x. (Ok (KeyringHandle 0), x)),
      keyring_Key = (\<lambda>_ name inp x.
        ((if x = Some (name, inp) then Ok (KeyRecord [5]) else Err (Error ''not found''), []), x)),
      keyring_NewAccount = (\<lambda>_ name _ pass _ _ _ x. ((Ok (KeyRecord [5]), []), Some (name, pass))),
      SupportedAlgorithms = (\<lambda>_. []), NewSigningAlgoFromString = (\<lambda>s _. Ok (SignatureAlgo s)),
      NewEntropy = (\<lambda>_ x. (Ok [9], x)), NewMnemonic = (\<lambda>_. Ok ''word''),
      GetCachedPrivKey = (\<lambda>r. case r of KeyRecord b \<Rightarrow> Ok (Secp256k1PrivKey b)),
      PrivKeyFromBytes = (\<lambda>b. (PrivateKey b, PublicKey b)), PubKeyBytes = id,
      ParsePubKey = (\<lambda>b. Ok (PublicKey b))\<rparr>"

theorem created_key_is_found_witness:
  "\<exists>info w'. CreateChainKey sample_store sample_controller ''pw'' []
       \<lparr>readers = [''left over''], trace = [], files = files sample_world, environment = sample_environ,
        stdout = [], ext = None\<rparr> = (Ok info, w') \<and>
     (\<exists>key w''. GetChainPrivKey sample_store sample_controller ''pw'' w' = (Ok key, w''))"
proof -
  let ?w = "\<lparr>readers = [''left over''], trace = [], files = files sample_world, environment = sample_environ,
        stdout = [], ext = None\<rparr>"
  have "\<exists>info w'. CreateChainKey sample_store sample_controller ''pw'' [] ?w = (Ok info, w')"
    by (simp add: CreateChainKey_def bindP_def ext_call_def Reset_def reading_call_def sample_store_def
        sample_controller_def)
  then obtain info w' where r: "CreateChainKey sample_store sample_controller ''pw'' [] ?w = (Ok info, w')"
    by blast
  have "remembers sample_store" "wired sample_controller ?w"
    by (simp_all add: remembers_def sample_store_def wired_def sample_controller_def)
  from created_key_is_found [OF this r] r show ?thesis by blast
qed

end
