(* ===== verification/Config.thy ===== *)
theory Config
  imports World
begin

text \<open>
  The package \<^verbatim>\<open>config\<close> (config.go, babylon.go). The parameter \<open>config_lib\<close> holds what comes from
  elsewhere: the default configuration of the Babylon client library, the platform's application
  directory, and the ini reader and writer of go-flags, as functions between the text of a
  configuration file and the options it sets. Reading and writing the file itself is the file system's.
\<close>

section \<open>The configuration records\<close>

datatype NetParams =
    MainNetParams | TestNet3Params | RegressionNetParams | SimNetParams | SigNetParams
  | ZeroNetParams

text \<open>A 64-bit floating point number, only ever copied: its bits. A duration counts nanoseconds.\<close>

datatype float64 = Float64 u64

type_synonym Duration = i64

record BBNConfig =
  Key :: string
  ChainID_cfg :: string
  RPCAddr :: string
  GRPCAddr :: string
  AccountPrefix :: string
  KeyringBackend :: string
  GasAdjustment :: float64
  GasPrices :: string
  KeyDirectory :: string
  Debug :: bool
  Timeout :: Duration
  BlockTimeout :: Duration
  OutputFormat :: string
  SignModeStr :: string

text \<open>The configuration of the Babylon client library.\<close>

record BabylonConfig =
  Key_bbn :: string
  ChainID_bbn :: string
  RPCAddr_bbn :: string
  GRPCAddr_bbn :: string
  AccountPrefix_bbn :: string
  KeyringBackend_bbn :: string
  GasAdjustment_bbn :: float64
  GasPrices_bbn :: string
  KeyDirectory_bbn :: string
  Debug_bbn :: bool
  Timeout_bbn :: Duration
  BlockTimeout_bbn :: Duration
  OutputFormat_bbn :: string
  SignModeStr_bbn :: string
  SubmitterAddress_bbn :: string

record Config =
  LogLevel :: string
  QueryInterval :: Duration
  DelegationLimit :: u64
  SigsBatchSize :: u64
  BitcoinNetwork :: string
  BTCNetParams :: NetParams
  BabylonConfig :: BBNConfig

record config_lib =
  DefaultBabylonConfig :: BabylonConfig
  DefaultCovenantDir :: string
  ini_parse :: "string \<Rightarrow> Config res"
  ini_print :: "Config \<Rightarrow> string"

section \<open>babylon.go\<close>

text \<open>Fields a Go composite literal does not mention get their zero value.\<close>

definition DefaultBBNConfig :: "config_lib \<Rightarrow> BBNConfig" where
  "DefaultBBNConfig L =
     (let dc = DefaultBabylonConfig L in
      \<lparr>Key = Key_bbn dc, ChainID_cfg = ChainID_bbn dc, RPCAddr = RPCAddr_bbn dc,
       GRPCAddr = GRPCAddr_bbn dc, AccountPrefix = AccountPrefix_bbn dc,
       KeyringBackend = KeyringBackend_bbn dc, GasAdjustment = GasAdjustment_bbn dc,
       GasPrices = GasPrices_bbn dc, KeyDirectory = [], Debug = Debug_bbn dc,
       Timeout = Timeout_bbn dc, BlockTimeout = 60000000000, OutputFormat = OutputFormat_bbn dc,
       SignModeStr = SignModeStr_bbn dc\<rparr>)"

definition BBNConfigToBabylonConfig :: "BBNConfig \<Rightarrow> BabylonConfig" where
  "BBNConfigToBabylonConfig bc =
     \<lparr>Key_bbn = Key bc, ChainID_bbn = ChainID_cfg bc, RPCAddr_bbn = RPCAddr bc, GRPCAddr_bbn = [],
      AccountPrefix_bbn = AccountPrefix bc, KeyringBackend_bbn = KeyringBackend bc,
      GasAdjustment_bbn = GasAdjustment bc, GasPrices_bbn = GasPrices bc,
      KeyDirectory_bbn = KeyDirectory bc, Debug_bbn = Debug bc, Timeout_bbn = Timeout bc,
      BlockTimeout_bbn = BlockTimeout bc, OutputFormat_bbn = OutputFormat bc,
      SignModeStr_bbn = SignModeStr bc, SubmitterAddress_bbn = []\<rparr>"

section \<open>config.go\<close>

definition defaultLogLevel :: string where "defaultLogLevel = ''debug''"
definition defaultLogFilename :: string where "defaultLogFilename = ''covd.log''"
definition defaultConfigFileName :: string where "defaultConfigFileName = ''covd.conf''"
definition defaultCovenantKeyName :: string where "defaultCovenantKeyName = ''covenant-key''"
definition defaultQueryInterval :: Duration where "defaultQueryInterval = 15 * 1000000000"
definition defaultDelegationLimit :: u64 where "defaultDelegationLimit = 100"
definition defaultSigsBatchSize :: u64 where "defaultSigsBatchSize = 20"
definition defaultBitcoinNetwork :: string where "defaultBitcoinNetwork = ''simnet''"
definition defaultLogDirname :: string where "defaultLogDirname = ''logs''"
definition defaultBTCNetParams :: NetParams where "defaultBTCNetParams = SimNetParams"

lemmas config_defaults =
  defaultLogLevel_def defaultLogFilename_def defaultConfigFileName_def defaultCovenantKeyName_def
  defaultQueryInterval_def defaultDelegationLimit_def defaultSigsBatchSize_def
  defaultBitcoinNetwork_def defaultLogDirname_def defaultBTCNetParams_def

text \<open>\<open>Validate\<close> updates the receiver; it returns the updated configuration.\<close>

definition Validate :: "Config \<Rightarrow> Config res" where
  "Validate cfg =
     (if BitcoinNetwork cfg = ''mainnet'' then Ok (cfg\<lparr>BTCNetParams := MainNetParams\<rparr>)
      else if BitcoinNetwork cfg = ''testnet'' then Ok (cfg\<lparr>BTCNetParams := TestNet3Params\<rparr>)
      else if BitcoinNetwork cfg = ''regtest'' then Ok (cfg\<lparr>BTCNetParams := RegressionNetParams\<rparr>)
      else if BitcoinNetwork cfg = ''simnet'' then Ok (cfg\<lparr>BTCNetParams := SimNetParams\<rparr>)
      else if BitcoinNetwork cfg = ''signet'' then Ok (cfg\<lparr>BTCNetParams := SigNetParams\<rparr>)
      else Err (Error (''unsupported Bitcoin network: '' @ BitcoinNetwork cfg)))"

definition ConfigFile :: "string \<Rightarrow> string" where
  "ConfigFile homePath = Join [homePath, defaultConfigFileName]"

definition LogDir :: "string \<Rightarrow> string" where
  "LogDir homePath = Join [homePath, defaultLogDirname]"

definition LogFile :: "string \<Rightarrow> string" where
  "LogFile homePath = Join [LogDir homePath, defaultLogFilename]"

definition DefaultConfigWithHomePath :: "config_lib \<Rightarrow> string \<Rightarrow> Config res" where
  "DefaultConfigWithHomePath L homePath =
     (let bbnCfg = (DefaultBBNConfig L)\<lparr>Key := defaultCovenantKeyName, KeyDirectory := homePath\<rparr>;
          cfg = \<lparr>LogLevel = defaultLogLevel, QueryInterval = defaultQueryInterval,
                 DelegationLimit = defaultDelegationLimit, SigsBatchSize = defaultSigsBatchSize,
                 BitcoinNetwork = defaultBitcoinNetwork, BTCNetParams = defaultBTCNetParams,
                 BabylonConfig = bbnCfg\<rparr>
      in case Validate cfg of
           Err e \<Rightarrow> Panic (err_text e)
         | r \<Rightarrow> r)"

definition DefaultConfig :: "config_lib \<Rightarrow> Config res" where
  "DefaultConfig L = DefaultConfigWithHomePath L (DefaultCovenantDir L)"

definition LoadConfig :: "config_lib \<Rightarrow> string \<Rightarrow> ('x world, Config) prog" where
  "LoadConfig L homePath w =
     (let cfgFile = ConfigFile homePath in
      if \<not> FileExists (files w) cfgFile then
        throwP (Error (''specified config file does not exist in '' @ cfgFile)) w
      else
        bindP (liftP (os_ReadFile (files w) cfgFile)) (\<lambda>contents.
        bindP (liftP (ini_parse L contents)) (\<lambda>cfg.
        liftP (Validate cfg))) w)"

section \<open>Properties\<close>

lemma Validate_Ok:
  "Validate cfg = Ok c \<Longrightarrow> Validate c = Ok c \<and> c\<lparr>BTCNetParams := BTCNetParams cfg\<rparr> = cfg"
  by (auto simp: Validate_def split: if_splits)

text \<open>
  The default configuration never panics: for every home directory it is one that \<^verbatim>\<open>Validate\<close>
  accepts unchanged, keeps the keyring in the home directory, runs on simnet with simnet's parameters,
  and has a batch size and a delegation limit above zero.
\<close>

lemma DefaultConfig_valid:
  "\<exists>c. DefaultConfigWithHomePath L home = Ok c \<and> Validate c = Ok c \<and>
     KeyDirectory (BabylonConfig c) = home \<and> Key (BabylonConfig c) = defaultCovenantKeyName \<and>
     BTCNetParams c = SimNetParams \<and> 0 < SigsBatchSize c \<and> 0 < DelegationLimit c"
  by (simp add: DefaultConfigWithHomePath_def Validate_def Let_def config_defaults)

lemma join_sep_snoc: "xs \<noteq> [] \<Longrightarrow> join_sep (xs @ [x]) = join_sep xs @ CHR ''/'' # x"
  by (induction xs rule: join_sep.induct) auto

lemma Dir_slash: "CHR ''/'' \<notin> set x \<Longrightarrow> Dir (d @ CHR ''/'' # x) = Clean (d @ ''/'')"
proof -
  assume "CHR ''/'' \<notin> set x"
  then have "dropWhile (\<lambda>c. c \<noteq> CHR ''/'') (rev x @ CHR ''/'' # rev d) = CHR ''/'' # rev d"
    by (subst dropWhile_append2) auto
  then show "Dir (d @ CHR ''/'' # x) = Clean (d @ ''/'')" by (simp add: Dir_def)
qed

lemma Dir_join_snoc:
  assumes "clean_elements True xs" and "xs \<noteq> []" and "CHR ''/'' \<notin> set x"
  shows "Dir (CHR ''/'' # join_sep (xs @ [x])) = CHR ''/'' # join_sep xs"
proof -
  have "Dir (CHR ''/'' # join_sep (xs @ [x])) = Clean ((CHR ''/'' # join_sep xs) @ ''/'')"
    using Dir_slash [OF assms(3), of "CHR ''/'' # join_sep xs"] by (simp add: join_sep_snoc [OF assms(2)])
  also have "elements ((CHR ''/'' # join_sep xs) @ ''/'') = xs"
    using elements_append [of "CHR ''/'' # join_sep xs" "[]"] elements_clean [OF assms(1)]
    by (simp add: elements_def)
  then have "Clean ((CHR ''/'' # join_sep xs) @ ''/'') = CHR ''/'' # join_sep xs"
    using clean_go_elements [OF assms(1)] by (simp add: Clean_def)
  finally show ?thesis .
qed

lemma Join_home:
  assumes "clean_elements True xs" and "x \<noteq> []" "x \<noteq> ''.''" "x \<noteq> ''..''" "CHR ''/'' \<notin> set x"
  shows "elements (Join [CHR ''/'' # join_sep xs, x]) = xs @ [x]"
proof -
  have "clean_elements True (xs @ [x])" by (rule clean_elements_snoc [OF assms])
  with Join_clean_root [OF assms] show ?thesis by (simp add: elements_clean)
qed

text \<open>
  The layout of a home directory: below a clean absolute home the configuration file is
  \<^verbatim>\<open>covd.conf\<close>, the logs are in \<^verbatim>\<open>logs\<close> and the log file is \<^verbatim>\<open>logs/covd.log\<close>; none of them escapes the home
  directory or coincides with another, and the directory of the log file is the log directory.
\<close>

theorem home_layout:
  assumes "Clean home = home" and "rooted home"
  shows "elements (ConfigFile home) = elements home @ [''covd.conf''] \<and>
    elements (LogDir home) = elements home @ [''logs''] \<and>
    elements (LogFile home) = elements home @ [''logs'', ''covd.log''] \<and>
    Dir (LogFile home) = LogDir home"
proof -
  let ?xs = "clean_go True [] (elements home)"
  have xs: "clean_elements True ?xs" by (rule clean_elements_go)
  from assms have home: "home = CHR ''/'' # join_sep ?xs"
    by (cases "home = []") (simp_all add: Clean_def)
  then have e: "elements home = ?xs" using elements_clean [OF xs] by (metis elements_slash)
  have snoc: "clean_elements True (?xs @ [''logs''])" by (rule clean_elements_snoc [OF xs]) simp_all
  have dir: "LogDir home = CHR ''/'' # join_sep (?xs @ [''logs''])"
    unfolding LogDir_def by (subst home, subst Join_clean_root [OF xs]) (simp_all add: config_defaults)
  have logfile: "LogFile home = CHR ''/'' # join_sep ((?xs @ [''logs'']) @ [''covd.log''])"
    unfolding LogFile_def dir by (subst Join_clean_root [OF snoc]) (simp_all add: config_defaults)
  have "elements (ConfigFile home) = ?xs @ [''covd.conf'']"
    unfolding ConfigFile_def by (subst home, subst Join_home [OF xs]) (simp_all add: config_defaults)
  moreover have "elements (LogFile home) = ?xs @ [''logs'', ''covd.log'']"
    unfolding logfile using clean_elements_snoc [OF snoc, of "''covd.log''"]
    by (simp add: elements_clean)
  moreover have "elements (LogDir home) = ?xs @ [''logs'']"
    unfolding dir by (simp add: elements_clean [OF snoc])
  moreover have "Dir (LogFile home) = LogDir home"
    using Dir_join_snoc [OF snoc, of "''covd.log''"] unfolding logfile dir by simp
  ultimately show ?thesis using e by simp
qed

theorem home_layout_witness:
  "elements (ConfigFile ''/home/u'') = [''home'', ''u'', ''covd.conf''] \<and> Dir (LogFile ''/home/u'') = LogDir ''/home/u''"
proof -
  have "Clean ''/home/u'' = ''/home/u''" "elements ''/home/u'' = [''home'', ''u'']" by code_simp+
  with home_layout [of "''/home/u''"] show ?thesis by simp
qed

end
