(* ===== verification/Client_Controller.thy ===== *)
theory Client_Controller
  imports Keyring Config
begin

text \<open>
  The package \<^verbatim>\<open>clientcontroller\<close>: the interface \<^verbatim>\<open>ClientController\<close> through which the emulator sees
  the consumer chain (interface.go), its implementation over the Babylon RPC client (babylon.go), and
  the error lists of retry_utils.go. The RPC client and the Babylon and Bitcoin type libraries are the
  parameter \<open>bbn_lib\<close>. A Go interface value is a record of the operations it carries.
\<close>

section \<open>The Babylon client library\<close>

record CheckpointParams =
  BtcConfirmationDepth :: u64
  CheckpointFinalizationTimeout :: u64

record BTCStakingParams_res =
  CovenantPks_res :: "BIP340PubKey list"
  SlashingAddress_res :: string
  MinSlashingTxFeeSat_res :: i64
  CovenantQuorum_res :: u32
  SlashingRate_res :: LegacyDec
  MinCommissionRate_res :: LegacyDec
  MinUnbondingTime_res :: u32

record CovenantAdaptorSignatures =
  CovPk :: BIP340PubKey
  AdaptorSigs :: "bytes list"

record SignatureInfo =
  Pk_info :: BIP340PubKey
  Sig_info :: BIP340Signature

record BTCUndelegation_pb =
  UnbondingTx_pb :: "bytes option"
  SlashingTx_undel_pb :: "BTCSlashingTx option"
  CovenantUnbondingSigList :: "SignatureInfo list"
  CovenantSlashingSigs_pb :: "CovenantAdaptorSignatures list"
  DelegatorUnbondingSig_pb :: "BIP340Signature option"

record BTCDelegation_pb =
  BtcPk_pb :: BIP340PubKey
  FpBtcPkList_pb :: "BIP340PubKey list"
  StartHeight_pb :: u64
  EndHeight_pb :: u64
  TotalSat_pb :: u64
  StakingTx_pb :: "bytes option"
  SlashingTx_pb :: "BTCSlashingTx option"
  CovenantSigs_pb :: "CovenantAdaptorSignatures list"
  UnbondingTime_pb :: u32
  BtcUndelegation_pb :: "BTCUndelegation_pb option"

record RelayerTxResponse =
  TxHash_rel :: string
  Events_rel :: "RelayerEvent list"

datatype FinalityProvider = FinalityProvider bytes

record FinalityProvidersPage =
  FinalityProviders_page :: "FinalityProvider list"
  Pagination_page :: "bytes option option"

datatype BTCHeaderInfo = BTCHeaderInfo bytes

record 'x bbn_lib =
  Validate_bbn :: "BabylonConfig \<Rightarrow> unit res"
  bbnclient_New :: "BabylonConfig \<Rightarrow> 'x \<Rightarrow> unit res \<times> 'x"
  client_Key :: "string \<Rightarrow> 'x \<Rightarrow> KeyRecord res \<times> 'x"
  GetAddress :: "KeyRecord \<Rightarrow> bytes res"
  MustBech32ifyAddressBytes :: "string \<Rightarrow> bytes \<Rightarrow> string res"
  BTCCheckpointParams :: "'x \<Rightarrow> CheckpointParams res \<times> 'x"
  BTCStakingParams :: "'x \<Rightarrow> BTCStakingParams_res res \<times> 'x"
  BTCDelegations :: "BTCDelegationStatus \<Rightarrow> u64 \<Rightarrow> 'x \<Rightarrow> BTCDelegation_pb list res \<times> 'x"
  ReliablySendMsgs ::
    "sdk_Msg list \<Rightarrow> sdk_error list \<Rightarrow> sdk_error list \<Rightarrow> 'x \<Rightarrow> RelayerTxResponse option res \<times> 'x"
  FinalityProviders :: "bytes option \<Rightarrow> u64 \<Rightarrow> 'x \<Rightarrow> FinalityProvidersPage res \<times> 'x"
  Tip :: "'x \<Rightarrow> BTCHeaderInfo res \<times> 'x"
  IsRunning :: "'x \<Rightarrow> bool"
  client_Stop :: "'x \<Rightarrow> unit res \<times> 'x"
  ToBTCPK :: "BIP340PubKey \<Rightarrow> PublicKey res"
  MustToBTCPK :: "BIP340PubKey \<Rightarrow> PublicKey res"
  ToBTCSig :: "BIP340Signature \<Rightarrow> SchnorrSignature res"
  NewBIP340PubKeyFromBTCPK :: "PublicKey \<Rightarrow> BIP340PubKey"
  NewBIP340SignatureFromBTCSig :: "SchnorrSignature \<Rightarrow> BIP340Signature"
  Hash_String :: "Hash \<Rightarrow> string"
  ToHexStr :: "BTCSlashingTx \<Rightarrow> string"
  DecodeAddress :: "string \<Rightarrow> NetParams \<Rightarrow> Address res"

section \<open>The interface\<close>

text \<open>
  A delegation comes as a pointer, which the emulator checks; the other results are not nil when the
  error is.
\<close>

record 'x ClientController =
  SubmitCovenantSigs_cc :: "CovenantSigs list \<Rightarrow> ('x world, TxResponse) prog"
  QueryPendingDelegations_cc :: "u64 \<Rightarrow> ('x world, Delegation option list) prog"
  QueryStakingParams_cc :: "('x world, StakingParams) prog"
  Close_cc :: "('x world, unit) prog"

section \<open>babylon.go: construction, signer, queries\<close>

record BabylonController =
  cfg :: BBNConfig
  btcParams :: NetParams

definition NewBabylonController ::
    "'x bbn_lib \<Rightarrow> BBNConfig \<Rightarrow> NetParams \<Rightarrow> ('x world, BabylonController) prog" where
  "NewBabylonController L c net =
     (let bbnConfig = BBNConfigToBabylonConfig c in
      bindP (wrapP ''invalid config for Babylon client'' (liftP (Validate_bbn L bbnConfig))) (\<lambda>_.
      bindP (wrapP ''failed to create Babylon client'' (ext_call (bbnclient_New L bbnConfig))) (\<lambda>_.
      returnP \<lparr>cfg = c, btcParams = net\<rparr>)))"

text \<open>An error of the keyring becomes a panic.\<close>

definition panic_on_err :: "string \<Rightarrow> ('w, 'a) prog \<Rightarrow> ('w, 'a) prog" where
  "panic_on_err s m w =
     (case m w of
        (Err e, w') \<Rightarrow> (Panic (s @ err_text e), w')
      | r \<Rightarrow> r)"

definition GetKeyAddress :: "'x bbn_lib \<Rightarrow> BabylonController \<Rightarrow> ('x world, bytes) prog" where
  "GetKeyAddress L bc =
     bindP (panic_on_err ''Failed to get key address: '' (ext_call (client_Key L (Key (cfg bc))))) (\<lambda>keyRec.
     panic_on_err ''Failed to get key address: '' (liftP (GetAddress L keyRec)))"

definition mustGetTxSigner :: "'x bbn_lib \<Rightarrow> BabylonController \<Rightarrow> ('x world, string) prog" where
  "mustGetTxSigner L bc =
     bindP (GetKeyAddress L bc) (\<lambda>signer.
     liftP (MustBech32ifyAddressBytes L (AccountPrefix (cfg bc)) signer))"

text \<open>\<^verbatim>\<open>%v\<close> of an error of a call on the node.\<close>

definition wrap_v :: "string \<Rightarrow> ('w, 'a) prog \<Rightarrow> ('w, 'a) prog" where
  "wrap_v s m w =
     (case m w of
        (Err e, w') \<Rightarrow> (Err (errorf_v s e), w')
      | r \<Rightarrow> r)"

definition replace_err :: "error \<Rightarrow> 'a res \<Rightarrow> 'a res" where
  "replace_err e r = (case r of Err _ \<Rightarrow> Err e | _ \<Rightarrow> r)"

definition QueryStakingParams :: "'x bbn_lib \<Rightarrow> BabylonController \<Rightarrow> ('x world, StakingParams) prog" where
  "QueryStakingParams L bc =
     bindP (wrap_v ''failed to query params of the btccheckpoint module''
             (node_call BTCCheckpointParams_call (BTCCheckpointParams L))) (\<lambda>ckpt.
     bindP (wrap_v ''failed to query staking params''
             (node_call BTCStakingParams_call (BTCStakingParams L))) (\<lambda>sp.
     bindP (liftP (mapR (\<lambda>pk. replace_err (Error ''invalid covenant public key'') (ToBTCPK L pk))
                     (CovenantPks_res sp))) (\<lambda>covenantPks.
     bindP (liftP (DecodeAddress L (SlashingAddress_res sp) (btcParams bc))) (\<lambda>slashingAddress.
     returnP
       \<lparr>ComfirmationTimeBlocks = BtcConfirmationDepth ckpt,
        FinalizationTimeoutBlocks = CheckpointFinalizationTimeout ckpt,
        MinSlashingTxFeeSat = MinSlashingTxFeeSat_res sp,
        CovenantPks = covenantPks,
        SlashingAddress = slashingAddress,
        CovenantQuorum = CovenantQuorum_res sp,
        SlashingRate = SlashingRate_res sp,
        MinComissionRate = MinCommissionRate_res sp,
        MinUnbondingTime = MinUnbondingTime_res sp\<rparr>))))"

section \<open>retry_utils.go and sending\<close>

definition unrecoverableErrors :: "sdk_error list" where
  "unrecoverableErrors = [ErrInvalidCovenantPK, ErrInvalidCovenantSig]"

definition expectedErrors :: "sdk_error list" where
  "expectedErrors = []"

definition reliablySendMsgs :: "'x bbn_lib \<Rightarrow> sdk_Msg list \<Rightarrow> ('x world, RelayerTxResponse option) prog" where
  "reliablySendMsgs L msgs =
     node_call (ReliablySendMsgs_call msgs expectedErrors unrecoverableErrors)
       (ReliablySendMsgs L msgs expectedErrors unrecoverableErrors)"

definition reliablySendMsg :: "'x bbn_lib \<Rightarrow> sdk_Msg \<Rightarrow> ('x world, RelayerTxResponse option) prog" where
  "reliablySendMsg L msg = reliablySendMsgs L [msg]"

definition toMsgAddCovenantSigs :: "'x bbn_lib \<Rightarrow> string \<Rightarrow> CovenantSigs \<Rightarrow> sdk_Msg" where
  "toMsgAddCovenantSigs L signer covSig =
     AddCovenantSigs
       \<lparr>Signer = signer,
        Pk_msg = NewBIP340PubKeyFromBTCPK L (PublicKey_sigs covSig),
        StakingTxHash_msg = Hash_String L (StakingTxHash covSig),
        SlashingTxSigs = SlashingSigs covSig,
        UnbondingTxSig = NewBIP340SignatureFromBTCSig L (UnbondingSig covSig),
        SlashingUnbondingTxSigs = SlashingUnbondingSigs covSig\<rparr>"

definition buildMsg :: "'x bbn_lib \<Rightarrow> BabylonController \<Rightarrow> CovenantSigs \<Rightarrow> ('x world, sdk_Msg) prog" where
  "buildMsg L bc covSig =
     bindP (mustGetTxSigner L bc) (\<lambda>signer. returnP (toMsgAddCovenantSigs L signer covSig))"

text \<open>The response is read through a pointer: a nil response without an error is a panic.\<close>

definition SubmitCovenantSigs ::
    "'x bbn_lib \<Rightarrow> BabylonController \<Rightarrow> CovenantSigs list \<Rightarrow> ('x world, TxResponse) prog" where
  "SubmitCovenantSigs L bc covSigs =
     bindP (mapP (buildMsg L bc) covSigs) (\<lambda>msgs.
     bindP (reliablySendMsgs L msgs) (\<lambda>res.
     case res of
       None \<Rightarrow> panicP nil_deref
     | Some r \<Rightarrow> returnP \<lparr>TxHash_resp = TxHash_rel r, Events = Events_rel r\<rparr>))"

section \<open>Delegations as the chain reports them\<close>

text \<open>\<^verbatim>\<open>hex.EncodeToString\<close>: two lower-case digits per byte.\<close>

definition hex_digit :: "nat \<Rightarrow> char" where
  "hex_digit n = ''0123456789abcdef'' ! n"

definition hex_EncodeToString :: "bytes \<Rightarrow> string" where
  "hex_EncodeToString bs = concat (map (\<lambda>b. [hex_digit (unat b div 16), hex_digit (unat b mod 16)]) bs)"

definition ConvertAdaptorSigs ::
    "'x bbn_lib \<Rightarrow> CovenantAdaptorSignatures list \<Rightarrow> CovenantAdaptorSigInfo list res" where
  "ConvertAdaptorSigs L sigs =
     mapR (\<lambda>s. bindR (MustToBTCPK L (CovPk s)) (\<lambda>pk. Ok \<lparr>Pk = pk, Sigs = AdaptorSigs s\<rparr>)) sigs"

text \<open>An error of \<^verbatim>\<open>ToBTCSig\<close> is passed to \<^verbatim>\<open>panic\<close>.\<close>

definition panicR_on_err :: "'a res \<Rightarrow> 'a res" where
  "panicR_on_err r = (case r of Err e \<Rightarrow> Panic (err_text e) | _ \<Rightarrow> r)"

definition ConvertUndelegationType :: "'x bbn_lib \<Rightarrow> BTCUndelegation_pb \<Rightarrow> Undelegation res" where
  "ConvertUndelegationType L undel =
     (case UnbondingTx_pb undel of
        None \<Rightarrow> Panic ''staking tx should not be empty in undelegation''
      | Some unbondingTx \<Rightarrow>
     (case SlashingTx_undel_pb undel of
        None \<Rightarrow> Panic ''slashing tx should not be empty in undelegation''
      | Some slashingTx \<Rightarrow>
     bindR (mapR (\<lambda>unbondingSig.
              bindR (panicR_on_err (ToBTCSig L (Sig_info unbondingSig))) (\<lambda>sig.
              bindR (MustToBTCPK L (Pk_info unbondingSig)) (\<lambda>pk.
              Ok \<lparr>Pk_schnorr = pk, Sig = sig\<rparr>))) (CovenantUnbondingSigList undel)) (\<lambda>covenantUnbondingSigs.
     bindR (ConvertAdaptorSigs L (CovenantSlashingSigs_pb undel)) (\<lambda>covenantSlashingSigs.
     Ok \<lparr>UnbondingTxHex = hex_EncodeToString unbondingTx,
         SlashingTxHex_ud = ToHexStr L slashingTx,
         CovenantSlashingSigs = covenantSlashingSigs,
         CovenantUnbondingSigs = covenantUnbondingSigs,
         DelegatorUnbondingSig = DelegatorUnbondingSig_pb undel\<rparr>))))"

text \<open>The composite literal at the end does not set \<^verbatim>\<open>StakingOutputIdx\<close>, which is then zero.\<close>

definition ConvertDelegationType :: "'x bbn_lib \<Rightarrow> BTCDelegation_pb \<Rightarrow> Delegation res" where
  "ConvertDelegationType L del =
     (case StakingTx_pb del of
        None \<Rightarrow> Panic ''staking tx should not be empty in delegation''
      | Some stakingTx \<Rightarrow>
     (case SlashingTx_pb del of
        None \<Rightarrow> Panic ''slashing tx should not be empty in delegation''
      | Some slashingTx \<Rightarrow>
     bindR (ConvertAdaptorSigs L (CovenantSigs_pb del)) (\<lambda>covenantSigs.
     bindR (case BtcUndelegation_pb del of
              None \<Rightarrow> Ok None
            | Some u \<Rightarrow> bindR (ConvertUndelegationType L u) (\<lambda>ud. Ok (Some ud))) (\<lambda>undelegation.
     bindR (mapR (MustToBTCPK L) (FpBtcPkList_pb del)) (\<lambda>fpBtcPks.
     bindR (MustToBTCPK L (BtcPk_pb del)) (\<lambda>btcPk.
     Ok \<lparr>BtcPk = btcPk, FpBtcPks = fpBtcPks, StartHeight = StartHeight_pb del,
         EndHeight = EndHeight_pb del, TotalSat = TotalSat_pb del,
         StakingTxHex = hex_EncodeToString stakingTx, StakingOutputIdx = 0,
         SlashingTxHex = ToHexStr L slashingTx, UnbondingTime = UnbondingTime_pb del,
         CovenantSigs_del = covenantSigs, BtcUndelegation = undelegation\<rparr>))))))"

definition queryDelegationsWithStatus ::
    "'x bbn_lib \<Rightarrow> BTCDelegationStatus \<Rightarrow> u64 \<Rightarrow> ('x world, Delegation option list) prog" where
  "queryDelegationsWithStatus L status limit =
     bindP (wrap_v ''failed to query BTC delegations''
             (node_call (BTCDelegations_call status limit) (BTCDelegations L status limit))) (\<lambda>res.
     bindP (liftP (mapR (ConvertDelegationType L) res)) (\<lambda>dels.
     returnP (map Some dels)))"

definition QueryPendingDelegations :: "'x bbn_lib \<Rightarrow> u64 \<Rightarrow> ('x world, Delegation option list) prog" where
  "QueryPendingDelegations L limit = queryDelegationsWithStatus L PENDING limit"

definition QueryActiveDelegations :: "'x bbn_lib \<Rightarrow> u64 \<Rightarrow> ('x world, Delegation option list) prog" where
  "QueryActiveDelegations L limit = queryDelegationsWithStatus L ACTIVE limit"

definition Close :: "'x bbn_lib \<Rightarrow> ('x world, unit) prog" where
  "Close L w = (if \<not> IsRunning L (ext w) then (Ok (), w) else node_call Stop_call (client_Stop L) w)"

section \<open>Operations of the end-to-end tests\<close>

definition CreateBTCDelegation ::
    "'x bbn_lib \<Rightarrow> BabylonController \<Rightarrow> bytes \<Rightarrow> BIP340PubKey \<Rightarrow> PublicKey list \<Rightarrow> bytes \<Rightarrow> u32 \<Rightarrow> i64 \<Rightarrow>
       bytes \<Rightarrow> BTCSlashingTx \<Rightarrow> BIP340Signature \<Rightarrow> bytes \<Rightarrow> u32 \<Rightarrow> i64 \<Rightarrow> BTCSlashingTx \<Rightarrow>
       BIP340Signature \<Rightarrow> ('x world, TxResponse) prog" where
  "CreateBTCDelegation L bc delBabylonPk delBtcPk fpPks pop stakingTime stakingValue stakingTxInfo
       slashingTx delSlashingSig unbondingTx unbondingTime unbondingValue unbondingSlashingTx
       delUnbondingSlashingSig =
     bindP (mustGetTxSigner L bc) (\<lambda>signer.
     bindP (reliablySendMsg L (CreateBTCDelegation_msg
              \<lparr>Signer_del = signer, BabylonPk_del = delBabylonPk, Pop_del = pop, BtcPk_del = delBtcPk,
               FpBtcPkList_del = map (NewBIP340PubKeyFromBTCPK L) fpPks,
               StakingTime_del = stakingTime, StakingValue_del = stakingValue,
               StakingTx_del = stakingTxInfo, SlashingTx_del = slashingTx,
               DelegatorSlashingSig_del = delSlashingSig, UnbondingTx_del = unbondingTx,
               UnbondingTime_del = unbondingTime, UnbondingValue_del = unbondingValue,
               UnbondingSlashingTx_del = unbondingSlashingTx,
               DelegatorUnbondingSlashingSig_del = delUnbondingSlashingSig\<rparr>)) (\<lambda>res.
     case res of
       None \<Rightarrow> panicP nil_deref
     | Some r \<Rightarrow> returnP \<lparr>TxHash_resp = TxHash_rel r, Events = []\<rparr>))"

definition RegisterFinalityProvider ::
    "'x bbn_lib \<Rightarrow> BabylonController \<Rightarrow> bytes \<Rightarrow> BIP340PubKey \<Rightarrow> LegacyDec \<Rightarrow> string \<Rightarrow> bytes \<Rightarrow>
       ('x world, RelayerTxResponse option) prog" where
  "RegisterFinalityProvider L bc bbnPubKey btcPubKey commission description pop =
     bindP (mustGetTxSigner L bc) (\<lambda>signer.
     reliablySendMsgs L [CreateFinalityProvider_msg
       \<lparr>Signer_fp = signer, Commission_fp = commission, BabylonPk_fp = bbnPubKey,
        BtcPk_fp = btcPubKey, Description_fp = description, Pop_fp = pop\<rparr>])"

definition InsertBtcBlockHeaders ::
    "'x bbn_lib \<Rightarrow> BabylonController \<Rightarrow> bytes list \<Rightarrow> ('x world, RelayerTxResponse option) prog" where
  "InsertBtcBlockHeaders L bc headers =
     bindP (mustGetTxSigner L bc) (\<lambda>signer.
     reliablySendMsg L (InsertHeaders_msg \<lparr>Signer_hdr = signer, Headers_hdr = headers\<rparr>))"

text \<open>
  The pagination loop may go on as long as the server returns a next key: \<open>None\<close> is not returning.
\<close>

partial_function (option) finalityProviders_loop ::
    "'x bbn_lib \<Rightarrow> bytes option \<Rightarrow> FinalityProvider list \<Rightarrow> 'x world \<Rightarrow>
       (FinalityProvider list res \<times> 'x world) option" where
  "finalityProviders_loop L k fps w =
     (case wrap_v ''failed to query finality providers''
             (node_call (FinalityProviders_call k 100) (FinalityProviders L k 100)) w of
        (Err e, w') \<Rightarrow> Some (Err e, w')
      | (Panic p, w') \<Rightarrow> Some (Panic p, w')
      | (Ok res, w') \<Rightarrow>
          (case Pagination_page res of
             None \<Rightarrow> Some (Ok (fps @ FinalityProviders_page res), w')
           | Some None \<Rightarrow> Some (Ok (fps @ FinalityProviders_page res), w')
           | Some (Some nk) \<Rightarrow>
               finalityProviders_loop L (Some nk) (fps @ FinalityProviders_page res) w'))"

definition QueryFinalityProviders ::
    "'x bbn_lib \<Rightarrow> 'x world \<Rightarrow> (FinalityProvider list res \<times> 'x world) option" where
  "QueryFinalityProviders L w = finalityProviders_loop L None [] w"

definition QueryBtcLightClientTip :: "'x bbn_lib \<Rightarrow> ('x world, BTCHeaderInfo) prog" where
  "QueryBtcLightClientTip L = wrap_v ''failed to query BTC tip'' (node_call Tip_call (Tip L))"

section \<open>The interface value, and choosing it\<close>

definition babylon_cc :: "'x bbn_lib \<Rightarrow> BabylonController \<Rightarrow> 'x ClientController" where
  "babylon_cc L bc =
     \<lparr>SubmitCovenantSigs_cc = SubmitCovenantSigs L bc,
      QueryPendingDelegations_cc = QueryPendingDelegations L,
      QueryStakingParams_cc = QueryStakingParams L bc,
      Close_cc = Close L\<rparr>"

definition babylonConsumerChainName :: string where
  "babylonConsumerChainName = ''babylon''"

definition NewClientController ::
    "'x bbn_lib \<Rightarrow> string \<Rightarrow> BBNConfig \<Rightarrow> NetParams \<Rightarrow> ('x world, 'x ClientController) prog" where
  "NewClientController L chainName bbnConfig netParams =
     (if chainName = babylonConsumerChainName then
        bindP (wrapP ''failed to create Babylon rpc client''
                (NewBabylonController L bbnConfig netParams)) (\<lambda>bc.
        returnP (babylon_cc L bc))
      else throwP (Error ''unsupported consumer chain''))"

section \<open>What the emulator relies on\<close>

lemma keeps_panic_on_err [keeps_intros]: "keeps f m \<Longrightarrow> keeps f (panic_on_err s m)"
  by (auto simp: keeps_def panic_on_err_def split_beta split: res.splits)

lemma keeps_wrap_v [keeps_intros]: "keeps f m \<Longrightarrow> keeps f (wrap_v s m)"
  by (auto simp: keeps_def wrap_v_def split_beta split: res.splits)

lemma panic_on_err_Ok_iff [run_iffs]: "panic_on_err s m w = (Ok x, w') \<longleftrightarrow> m w = (Ok x, w')"
  by (auto simp: panic_on_err_def split: prod.splits res.splits)

lemma wrap_v_Ok_iff [run_iffs]: "wrap_v s m w = (Ok x, w') \<longleftrightarrow> m w = (Ok x, w')"
  by (auto simp: wrap_v_def split: prod.splits res.splits)

lemma replace_err_Ok_iff [run_iffs]: "replace_err e r = Ok x \<longleftrightarrow> r = Ok x"
  by (simp add: replace_err_def split: res.splits)

lemma mustGetTxSigner_frame [keeps_intros]:
  "keeps sent (mustGetTxSigner L bc)" "keeps trace (mustGetTxSigner L bc)"
  unfolding mustGetTxSigner_def GetKeyAddress_def by (intro keeps_intros)+

lemma QueryStakingParams_keeps_sent: "keeps sent (QueryStakingParams L bc)"
  unfolding QueryStakingParams_def by (intro keeps_intros) simp_all

lemma queryDelegationsWithStatus_keeps_sent: "keeps sent (queryDelegationsWithStatus L st n)"
  unfolding queryDelegationsWithStatus_def by (intro keeps_intros) simp_all

text \<open>
  The contract of a client controller: queries send no transaction; a submission sends one
  transaction at most, with one message per set of signatures, in order, and exactly one when it
  succeeds. \<open>delivers m s\<close> says that message \<open>m\<close> carries the signatures \<open>s\<close>.
\<close>

locale client_controller =
  fixes ctl :: "'x ClientController"
    and delivers :: "sdk_Msg \<Rightarrow> CovenantSigs \<Rightarrow> bool"
  assumes params_keep_sent: "keeps sent (QueryStakingParams_cc ctl)"
    and pending_keep_sent: "keeps sent (QueryPendingDelegations_cc ctl limit)"
    and submit_sends: "SubmitCovenantSigs_cc ctl sigs w = (r, w') \<Longrightarrow>
      sent w' = sent w \<or> (\<exists>ms. sent w' = sent w @ [ms] \<and> list_all2 delivers ms sigs)"
    and submit_Ok: "SubmitCovenantSigs_cc ctl sigs w = (Ok resp, w') \<Longrightarrow>
      \<exists>ms. sent w' = sent w @ [ms] \<and> list_all2 delivers ms sigs"
begin

lemma submit_at_most_one: "SubmitCovenantSigs_cc ctl sigs w = (r, w') \<Longrightarrow> length (sent w') \<le> Suc (length (sent w))"
  by (drule submit_sends) auto

lemma submit_length: "SubmitCovenantSigs_cc ctl sigs w = (Ok resp, w') \<Longrightarrow>
    length (last (sent w')) = length sigs"
  by (drule submit_Ok) (auto dest: list_all2_lengthD)

end

definition carries :: "'x bbn_lib \<Rightarrow> sdk_Msg \<Rightarrow> CovenantSigs \<Rightarrow> bool" where
  "carries L m s \<longleftrightarrow> (\<exists>signer. m = toMsgAddCovenantSigs L signer s)"

lemma buildMsg_Ok: "buildMsg L bc s w = (Ok m, w') \<Longrightarrow> carries L m s"
  by (auto simp: buildMsg_def carries_def run_iffs)

lemma buildMsg_keeps_sent [keeps_intros]: "keeps sent (buildMsg L bc s)"
  unfolding buildMsg_def by (intro keeps_intros)

lemma build_carries: "mapP (buildMsg L bc) sigs w = (Ok ms, w') \<Longrightarrow> list_all2 (carries L) ms sigs"
  by (induction sigs arbitrary: w ms) (auto simp: run_iffs dest: buildMsg_Ok)

lemma reliablySendMsgs_sent: "reliablySendMsgs L msgs w = (r, w') \<Longrightarrow> sent w' = sent w @ [msgs]"
  using node_call_sent [of "ReliablySendMsgs_call msgs expectedErrors unrecoverableErrors"
      "ReliablySendMsgs L msgs expectedErrors unrecoverableErrors" w]
  by (simp add: reliablySendMsgs_def)

lemma SubmitCovenantSigs_sends:
  assumes "SubmitCovenantSigs L bc sigs w = (r, w')"
  obtains (none) "sent w' = sent w" "\<And>x. r \<noteq> Ok x"
  | (one) ms where "sent w' = sent w @ [ms]" "list_all2 (carries L) ms sigs"
proof -
  obtain b w1 where b: "mapP (buildMsg L bc) sigs w = (b, w1)" by fastforce
  have "keeps sent (mapP (buildMsg L bc) sigs)" by (intro keeps_intros)
  then have w1: "sent w1 = sent w" using b by (rule keepsD)
  show thesis
  proof (cases b)
    case (Ok ms)
    obtain x w2 where x: "reliablySendMsgs L ms w1 = (x, w2)" by fastforce
    have "w' = w2"
      using assms x b Ok by (auto simp: SubmitCovenantSigs_def bindP_def split: res.splits option.splits)
    with x w1 have "sent w' = sent w @ [ms]" by (simp add: reliablySendMsgs_sent)
    then show thesis
      by (rule one) (use b Ok in \<open>auto dest: build_carries\<close>)
  next
    case (Err e)
    with assms b w1 show thesis
      by (intro none) (auto simp: SubmitCovenantSigs_def bindP_def)
  next
    case (Panic q)
    with assms b w1 show thesis
      by (intro none) (auto simp: SubmitCovenantSigs_def bindP_def)
  qed
qed

interpretation babylon: client_controller "babylon_cc L bc" "carries L" for L :: "'x bbn_lib" and bc
proof unfold_locales
  show "keeps sent (QueryStakingParams_cc (babylon_cc L bc))"
    by (simp add: babylon_cc_def QueryStakingParams_keeps_sent)
next
  fix limit
  show "keeps sent (QueryPendingDelegations_cc (babylon_cc L bc) limit)"
    by (simp add: babylon_cc_def QueryPendingDelegations_def queryDelegationsWithStatus_keeps_sent)
next
  fix sigs w r w'
  assume "SubmitCovenantSigs_cc (babylon_cc L bc) sigs w = (r, w')"
  then have "SubmitCovenantSigs L bc sigs w = (r, w')" by (simp add: babylon_cc_def)
  then show "sent w' = sent w \<or> (\<exists>ms. sent w' = sent w @ [ms] \<and> list_all2 (carries L) ms sigs)"
    by (cases rule: SubmitCovenantSigs_sends) auto
next
  fix sigs w resp w'
  assume "SubmitCovenantSigs_cc (babylon_cc L bc) sigs w = (Ok resp, w')"
  then have "SubmitCovenantSigs L bc sigs w = (Ok resp, w')" by (simp add: babylon_cc_def)
  then show "\<exists>ms. sent w' = sent w @ [ms] \<and> list_all2 (carries L) ms sigs"
    by (cases rule: SubmitCovenantSigs_sends) auto
qed

section \<open>A node that accepts transactions\<close>

text \<open>
  \<open>accepts L bc signer\<close>: the client's keyring holds the configured key, whose address is \<open>signer\<close>, and
  the node takes every transaction and answers with a response.
\<close>

definition accepts :: "'x bbn_lib \<Rightarrow> BabylonController \<Rightarrow> string \<Rightarrow> bool" where
  "accepts L bc signer \<longleftrightarrow>
     (\<forall>x. \<exists>rec addr x'. client_Key L (Key (cfg bc)) x = (Ok rec, x') \<and> GetAddress L rec = Ok addr \<and>
        MustBech32ifyAddressBytes L (AccountPrefix (cfg bc)) addr = Ok signer) \<and>
     (\<forall>ms x. \<exists>r x'. ReliablySendMsgs L ms expectedErrors unrecoverableErrors x = (Ok (Some r), x'))"

lemma accepts_signer:
  assumes "accepts L bc signer"
  obtains w' where "mustGetTxSigner L bc w = (Ok signer, w')" "sent w' = sent w"
proof -
  from assms obtain rec addr x' where
      "client_Key L (Key (cfg bc)) (ext w) = (Ok rec, x')" "GetAddress L rec = Ok addr"
      "MustBech32ifyAddressBytes L (AccountPrefix (cfg bc)) addr = Ok signer"
    unfolding accepts_def by blast
  then have "mustGetTxSigner L bc w = (Ok signer, w\<lparr>ext := x'\<rparr>)"
    by (simp add: mustGetTxSigner_def GetKeyAddress_def bindP_def panic_on_err_def ext_call_def)
  then show thesis by (rule that) (simp add: sent_def)
qed

lemma accepts_build:
  assumes "accepts L bc signer"
  shows "\<exists>w'. mapP (buildMsg L bc) sigs w = (Ok (map (toMsgAddCovenantSigs L signer) sigs), w') \<and> sent w' = sent w"
proof (induction sigs arbitrary: w)
  case Nil
  then show ?case by simp
next
  case (Cons s sigs)
  obtain w1 where w1: "mustGetTxSigner L bc w = (Ok signer, w1)" "sent w1 = sent w"
    using assms by (rule accepts_signer)
  obtain w2 where "mapP (buildMsg L bc) sigs w1 = (Ok (map (toMsgAddCovenantSigs L signer) sigs), w2)"
      "sent w2 = sent w1"
    using Cons.IH by blast
  moreover have "buildMsg L bc s w = (Ok (toMsgAddCovenantSigs L signer s), w1)"
    using w1 by (simp add: buildMsg_def bindP_run)
  ultimately show ?case using w1 by (simp add: bindP_run)
qed

lemma accepts_submit:
  assumes "accepts L bc signer"
  obtains resp w' where "SubmitCovenantSigs L bc sigs w = (Ok resp, w')"
    "sent w' = sent w @ [map (toMsgAddCovenantSigs L signer) sigs]"
proof -
  let ?ms = "map (toMsgAddCovenantSigs L signer) sigs"
  obtain w1 where w1: "mapP (buildMsg L bc) sigs w = (Ok ?ms, w1)" "sent w1 = sent w"
    using accepts_build [OF assms] by blast
  obtain r w2 where w2: "reliablySendMsgs L ?ms w1 = (r, w2)" by fastforce
  with assms obtain r' where "r = Ok (Some r')"
    unfolding accepts_def reliablySendMsgs_def node_call_def ext_call_def
    by (auto split: prod.splits) (metis prod.inject)
  with w1 w2 have "SubmitCovenantSigs L bc sigs w = (Ok \<lparr>TxHash_resp = TxHash_rel r', Events = Events_rel r'\<rparr>, w2)"
    by (simp add: SubmitCovenantSigs_def bindP_run)
  moreover have "sent w2 = sent w @ [?ms]" using reliablySendMsgs_sent [OF w2] w1(2) by simp
  ultimately show thesis by (rule that)
qed

definition sample_bbn :: "unit bbn_lib" where
  "sample_bbn =
     \<lparr>Validate_bbn = (\<lambda>_. Ok ()), bbnclient_New = (\<lambda>_ x. (Ok (), x)),
      client_Key = (\<lambda>_ x. (Ok (KeyRecord [6]), x)),
      GetAddress = (\<lambda>r. case r of KeyRecord b \<Rightarrow> Ok b),
      MustBech32ifyAddressBytes = (\<lambda>prefix _. Ok (prefix @ ''1signer'')),
      BTCCheckpointParams = (\<lambda>x. (Ok \<lparr>BtcConfirmationDepth = 10, CheckpointFinalizationTimeout = 100\<rparr>, x)),
      BTCStakingParams = (\<lambda>x.
        (Ok \<lparr>CovenantPks_res = [BIP340PubKey [5], BIP340PubKey [7]], SlashingAddress_res = ''addr'',
             MinSlashingTxFeeSat_res = 1000, CovenantQuorum_res = 2, SlashingRate_res = LegacyDec 1,
             MinCommissionRate_res = LegacyDec 0, MinUnbondingTime_res = 100\<rparr>, x)),
      BTCDelegations = (\<lambda>_ _ x. (Ok [], x)),
      ReliablySendMsgs = (\<lambda>_ _ _ x. (Ok (Some \<lparr>TxHash_rel = ''txhash'', Events_rel = []\<rparr>), x)),
      FinalityProviders = (\<lambda>k _ x.
        (Ok \<lparr>FinalityProviders_page = [FinalityProvider (case k of None \<Rightarrow> [1] | Some b \<Rightarrow> b)],
             Pagination_page = Some (if k = None then Some [2] else None)\<rparr>, x)),
      Tip = (\<lambda>x. (Ok (BTCHeaderInfo []), x)), IsRunning = (\<lambda>_. True), client_Stop = (\<lambda>x. (Ok (), x)),
      ToBTCPK = (\<lambda>k. case k of BIP340PubKey b \<Rightarrow> Ok (PublicKey b)),
      MustToBTCPK = (\<lambda>k. case k of BIP340PubKey b \<Rightarrow> Ok (PublicKey b)),
      ToBTCSig = (\<lambda>k. case k of BIP340Signature b \<Rightarrow> Ok (SchnorrSignature b)),
      NewBIP340PubKeyFromBTCPK = (\<lambda>k. case k of PublicKey b \<Rightarrow> BIP340PubKey b),
      NewBIP340SignatureFromBTCSig = (\<lambda>k. case k of SchnorrSignature b \<Rightarrow> BIP340Signature b),
      Hash_String = (\<lambda>h. case h of Hash b \<Rightarrow> hex_EncodeToString b),
      ToHexStr = (\<lambda>t. case t of BTCSlashingTx b \<Rightarrow> hex_EncodeToString b),
      DecodeAddress = (\<lambda>a _. Ok (Address a))\<rparr>"

definition sample_bbn_config :: BBNConfig where
  "sample_bbn_config =
     \<lparr>Key = ''covenant-key'', ChainID_cfg = ''chain'', RPCAddr = ''rpc'', GRPCAddr = ''grpc'',
      AccountPrefix = ''bbn'', KeyringBackend = ''test'', GasAdjustment = Float64 0, GasPrices = [],
      KeyDirectory = ''/keys'', Debug = False, Timeout = 0, BlockTimeout = 0, OutputFormat = ''json'',
      SignModeStr = ''direct''\<rparr>"

definition sample_bc :: BabylonController where
  "sample_bc = \<lparr>cfg = sample_bbn_config, btcParams = SimNetParams\<rparr>"

definition sample_params :: StakingParams where
  "sample_params =
     \<lparr>ComfirmationTimeBlocks = 10, FinalizationTimeoutBlocks = 100, MinSlashingTxFeeSat = 1000,
      CovenantPks = [PublicKey [5], PublicKey [7]], SlashingAddress = Address ''addr'', CovenantQuorum = 2,
      SlashingRate = LegacyDec 1, MinComissionRate = LegacyDec 0, MinUnbondingTime = 100\<rparr>"

lemma sample_accepts: "accepts sample_bbn sample_bc ''bbn1signer''"
  by (simp add: accepts_def sample_bbn_def sample_bc_def sample_bbn_config_def)

section \<open>Hexadecimal text\<close>

text \<open>The reference decoder: pairs of lower-case digits.\<close>

definition hex_value :: "char \<Rightarrow> nat option" where
  "hex_value c =
     (let n = of_char c in
      if 48 \<le> n \<and> n \<le> 57 then Some (n - 48) else if 97 \<le> n \<and> n \<le> 102 then Some (n - 87) else None)"

fun hex_DecodeString :: "string \<Rightarrow> bytes option" where
  "hex_DecodeString [] = Some []"
| "hex_DecodeString [c] = None"
| "hex_DecodeString (c # c' # cs) =
     (case (hex_value c, hex_value c', hex_DecodeString cs) of
        (Some hi, Some lo, Some bs) \<Rightarrow> Some (of_nat (16 * hi + lo) # bs)
      | _ \<Rightarrow> None)"

lemma hex_value_digit: "n < 16 \<Longrightarrow> hex_value (hex_digit n) = Some n"
proof -
  have "\<forall>n<16. hex_value (hex_digit n) = Some n" by code_simp
  then show "n < 16 \<Longrightarrow> hex_value (hex_digit n) = Some n" by blast
qed

lemma unat_byte_less: "unat (b :: byte) < 256"
proof -
  have "unat b < 2 ^ LENGTH(8)" by (rule unsigned_less)
  then show ?thesis by simp
qed

text \<open>
  The text that \<^verbatim>\<open>hex.EncodeToString\<close> makes of a staking or unbonding transaction has two digits
  per byte and decodes to the same bytes, so two transactions with the same text are the same.
\<close>

lemma hex_round_trip:
  "hex_DecodeString (hex_EncodeToString bs) = Some bs \<and> length (hex_EncodeToString bs) = 2 * length bs"
proof (induction bs)
  case Nil
  then show ?case by (simp add: hex_EncodeToString_def)
next
  case (Cons b bs)
  have "unat b div 16 < 16" using unat_byte_less [of b] by linarith
  then show ?case using Cons by (simp add: hex_EncodeToString_def hex_value_digit)
qed

lemma hex_decoded: "map_option hex_EncodeToString t = Some s \<Longrightarrow> hex_DecodeString s = t"
  using hex_round_trip by (cases t) auto

section \<open>Queries\<close>

text \<open>
  \<open>reported L pb d\<close>: the delegation \<open>d\<close> says what the record \<open>pb\<close> of the chain says. Transactions are in
  hexadecimal, keys and signatures parsed, lists in the order of the record; a record without a staking,
  slashing or unbonding transaction reports nothing. The staking output index is zero whatever it is on
  the chain.
\<close>

definition adaptor_reported :: "'x bbn_lib \<Rightarrow> CovenantAdaptorSignatures \<Rightarrow> CovenantAdaptorSigInfo \<Rightarrow> bool" where
  "adaptor_reported L s i \<longleftrightarrow> MustToBTCPK L (CovPk s) = Ok (Pk i) \<and> Sigs i = AdaptorSigs s"

definition undel_reported :: "'x bbn_lib \<Rightarrow> BTCUndelegation_pb \<Rightarrow> Undelegation \<Rightarrow> bool" where
  "undel_reported L u ud \<longleftrightarrow>
     map_option hex_EncodeToString (UnbondingTx_pb u) = Some (UnbondingTxHex ud) \<and>
     map_option (ToHexStr L) (SlashingTx_undel_pb u) = Some (SlashingTxHex_ud ud) \<and>
     list_all2 (\<lambda>s i. MustToBTCPK L (Pk_info s) = Ok (Pk_schnorr i) \<and> ToBTCSig L (Sig_info s) = Ok (Sig i))
       (CovenantUnbondingSigList u) (CovenantUnbondingSigs ud) \<and>
     list_all2 (adaptor_reported L) (CovenantSlashingSigs_pb u) (CovenantSlashingSigs ud) \<and>
     DelegatorUnbondingSig ud = DelegatorUnbondingSig_pb u"

definition reported :: "'x bbn_lib \<Rightarrow> BTCDelegation_pb \<Rightarrow> Delegation \<Rightarrow> bool" where
  "reported L pb d \<longleftrightarrow>
     map_option hex_EncodeToString (StakingTx_pb pb) = Some (StakingTxHex d) \<and>
     map_option (ToHexStr L) (SlashingTx_pb pb) = Some (SlashingTxHex d) \<and>
     MustToBTCPK L (BtcPk_pb pb) = Ok (BtcPk d) \<and>
     list_all2 (\<lambda>k pk. MustToBTCPK L k = Ok pk) (FpBtcPkList_pb pb) (FpBtcPks d) \<and>
     StartHeight d = StartHeight_pb pb \<and> EndHeight d = EndHeight_pb pb \<and> TotalSat d = TotalSat_pb pb \<and>
     UnbondingTime d = UnbondingTime_pb pb \<and> StakingOutputIdx d = 0 \<and>
     list_all2 (adaptor_reported L) (CovenantSigs_pb pb) (CovenantSigs_del d) \<and>
     rel_option (undel_reported L) (BtcUndelegation_pb pb) (BtcUndelegation d)"

lemma panicR_on_err_Ok_iff [run_iffs]: "panicR_on_err r = Ok x \<longleftrightarrow> r = Ok x"
  by (cases r) (simp_all add: panicR_on_err_def)

lemma ConvertAdaptorSigs_iff: "ConvertAdaptorSigs L sigs = Ok is \<longleftrightarrow> list_all2 (adaptor_reported L) sigs is"
proof -
  have "(\<exists>pk. MustToBTCPK L (CovPk s) = Ok pk \<and> \<lparr>Pk = pk, Sigs = AdaptorSigs s\<rparr> = i) \<longleftrightarrow> adaptor_reported L s i" for s i
    by (cases i) (auto simp: adaptor_reported_def)
  then show ?thesis by (simp add: ConvertAdaptorSigs_def run_iffs)
qed

lemma ConvertUndelegationType_iff: "ConvertUndelegationType L u = Ok ud \<longleftrightarrow> undel_reported L u ud"
proof -
  have sig: "(\<exists>x. ToBTCSig L (Sig_info s) = Ok x \<and> (\<exists>pk. MustToBTCPK L (Pk_info s) = Ok pk \<and> \<lparr>Pk_schnorr = pk, Sig = x\<rparr> = i)) \<longleftrightarrow>
      MustToBTCPK L (Pk_info s) = Ok (Pk_schnorr i) \<and> ToBTCSig L (Sig_info s) = Ok (Sig i)" for s i
    by (cases i) auto
  show ?thesis
    by (cases ud) (auto simp: ConvertUndelegationType_def undel_reported_def run_iffs ConvertAdaptorSigs_iff sig
        split: option.splits)
qed

lemma optional_undelegation_iff:
  "(case u of None \<Rightarrow> Ok None | Some u \<Rightarrow> bindR (ConvertUndelegationType L u) (\<lambda>ud. Ok (Some ud))) = Ok x \<longleftrightarrow>
     rel_option (undel_reported L) u x"
  by (cases u; cases x) (auto simp: run_iffs ConvertUndelegationType_iff)

lemma ConvertDelegationType_iff: "ConvertDelegationType L pb = Ok d \<longleftrightarrow> reported L pb d"
  by (cases d; cases "StakingTx_pb pb"; cases "SlashingTx_pb pb")
    (auto simp: ConvertDelegationType_def reported_def bindR_Ok_iff mapR_Ok_iff ConvertAdaptorSigs_iff
      optional_undelegation_iff)

lemma undel_reported_hex: "undel_reported L u ud \<Longrightarrow> hex_DecodeString (UnbondingTxHex ud) = UnbondingTx_pb u"
  unfolding undel_reported_def by (rule hex_decoded) blast

lemma reported_hex:
  assumes "reported L pb d"
  shows "hex_DecodeString (StakingTxHex d) = StakingTx_pb pb \<and> StakingOutputIdx d = 0 \<and>
    (\<forall>ud. BtcUndelegation d = Some ud \<longrightarrow>
       (\<exists>u. BtcUndelegation_pb pb = Some u \<and> hex_DecodeString (UnbondingTxHex ud) = UnbondingTx_pb u))"
proof -
  have "hex_DecodeString (StakingTxHex d) = StakingTx_pb pb"
    using assms unfolding reported_def by (intro hex_decoded) blast
  moreover have "rel_option (undel_reported L) (BtcUndelegation_pb pb) (BtcUndelegation d)" "StakingOutputIdx d = 0"
    using assms by (simp_all add: reported_def)
  ultimately show ?thesis by (auto simp: option_rel_Some2 undel_reported_hex)
qed

text \<open>
  C27: \<^verbatim>\<open>QueryPendingDelegations\<close> asks the node once, for pending delegations up to the limit. An error of
  the node comes back wrapped. An answer is turned into a list exactly when every record in it can be,
  and then into the delegations that say what the records say, undelegations with both kinds of
  signatures included, one for one and in order, none of them nil. The bytes of the staking and
  unbonding transactions can be read back; the staking output index is always zero.
\<close>

theorem QueryPendingDelegations_reports:
  assumes "BTCDelegations L PENDING limit (ext w) = (r, x)"
  shows "trace (snd (QueryPendingDelegations L limit w)) = trace w @ [BTCDelegations_call PENDING limit] \<and>
    (\<forall>e. r = Err e \<longrightarrow>
       fst (QueryPendingDelegations L limit w) = Err (errorf_v ''failed to query BTC delegations'' e)) \<and>
    (\<forall>res dels. r = Ok res \<longrightarrow>
       (fst (QueryPendingDelegations L limit w) = Ok dels \<longleftrightarrow> (\<exists>ds. dels = map Some ds \<and> list_all2 (reported L) res ds))) \<and>
    (\<forall>pb d. reported L pb d \<longrightarrow> hex_DecodeString (StakingTxHex d) = StakingTx_pb pb \<and> StakingOutputIdx d = 0 \<and>
       (\<forall>ud. BtcUndelegation d = Some ud \<longrightarrow>
          (\<exists>u. BtcUndelegation_pb pb = Some u \<and> hex_DecodeString (UnbondingTxHex ud) = UnbondingTx_pb u)))"
proof -
  have run: "QueryPendingDelegations L limit w =
      (case r of
         Ok res \<Rightarrow> bindR (mapR (ConvertDelegationType L) res) (\<lambda>ds. Ok (map Some ds))
       | Err e \<Rightarrow> Err (errorf_v ''failed to query BTC delegations'' e)
       | Panic q \<Rightarrow> Panic q, w\<lparr>trace := trace w @ [BTCDelegations_call PENDING limit], ext := x\<rparr>)"
    using assms
    by (auto simp: QueryPendingDelegations_def queryDelegationsWithStatus_def bindP_def bindR_def wrap_v_def node_call_def
        ext_call_def returnP_def split: res.splits)
  have "bindR (mapR (ConvertDelegationType L) res) (\<lambda>ds. Ok (map Some ds)) = Ok dels \<longleftrightarrow>
      (\<exists>ds. dels = map Some ds \<and> list_all2 (reported L) res ds)" for res dels
    by (auto simp: run_iffs ConvertDelegationType_iff)
  then show ?thesis unfolding run by (simp; blast dest: reported_hex)
qed

definition sample_pb :: BTCDelegation_pb where
  "sample_pb =
     \<lparr>BtcPk_pb = BIP340PubKey [1], FpBtcPkList_pb = [BIP340PubKey [2]], StartHeight_pb = 100,
      EndHeight_pb = 105, TotalSat_pb = 20000, StakingTx_pb = Some [10],
      SlashingTx_pb = Some (BTCSlashingTx [11]), CovenantSigs_pb = [], UnbondingTime_pb = 101,
      BtcUndelegation_pb = Some \<lparr>UnbondingTx_pb = Some [12], SlashingTx_undel_pb = Some (BTCSlashingTx [13]),
        CovenantUnbondingSigList = [], CovenantSlashingSigs_pb = [], DelegatorUnbondingSig_pb = None\<rparr>\<rparr>"

theorem QueryPendingDelegations_reports_witness:
  "\<exists>d. fst (QueryPendingDelegations (sample_bbn\<lparr>BTCDelegations := (\<lambda>_ _ x. (Ok [sample_pb], x))\<rparr>) 5 sample_world) = Ok [Some d] \<and>
     StakingTxHex d = ''0a'' \<and> BtcUndelegation d \<noteq> None"
proof -
  let ?L = "sample_bbn\<lparr>BTCDelegations := (\<lambda>_ _ x. (Ok [sample_pb], x))\<rparr>"
  have "ConvertDelegationType ?L sample_pb \<noteq> Err e" "ConvertDelegationType ?L sample_pb \<noteq> Panic q" for e q
    by (simp_all add: ConvertDelegationType_def ConvertUndelegationType_def ConvertAdaptorSigs_def sample_pb_def sample_bbn_def)
  then obtain d where d: "reported ?L sample_pb d" by (metis res.exhaust ConvertDelegationType_iff)
  have a: "BTCDelegations ?L PENDING 5 (ext sample_world) = (Ok [sample_pb], ())" by (simp add: sample_world_def)
  have "hex_EncodeToString [10] = ''0a''" by code_simp
  with d have "StakingTxHex d = ''0a''" "BtcUndelegation d \<noteq> None" by (auto simp: reported_def sample_pb_def option_rel_Some1)
  moreover have "fst (QueryPendingDelegations ?L 5 sample_world) = Ok [Some d]"
    using QueryPendingDelegations_reports [OF a] d by (auto intro: exI [of _ "[d]"])
  ultimately show ?thesis by blast
qed

text \<open>
  \<^verbatim>\<open>QueryStakingParams\<close> asks the node for the checkpoint parameters, then the staking parameters.
  It succeeds exactly when both calls do, every covenant key is valid and the slashing address
  decodes on the configured network; the result then holds the reported values, the keys in order.
\<close>

theorem QueryStakingParams_reports:
  assumes "BTCCheckpointParams L (ext w) = (Ok ckpt, x1)" and "BTCStakingParams L x1 = (Ok sp, x2)"
  shows "trace (snd (QueryStakingParams L bc w)) = trace w @ [BTCCheckpointParams_call, BTCStakingParams_call] \<and>
    (fst (QueryStakingParams L bc w) = Ok p \<longleftrightarrow>
      list_all2 (\<lambda>k pk. ToBTCPK L k = Ok pk) (CovenantPks_res sp) (CovenantPks p) \<and>
      DecodeAddress L (SlashingAddress_res sp) (btcParams bc) = Ok (SlashingAddress p) \<and>
      ComfirmationTimeBlocks p = BtcConfirmationDepth ckpt \<and>
      FinalizationTimeoutBlocks p = CheckpointFinalizationTimeout ckpt \<and>
      MinSlashingTxFeeSat p = MinSlashingTxFeeSat_res sp \<and> CovenantQuorum p = CovenantQuorum_res sp \<and>
      SlashingRate p = SlashingRate_res sp \<and> MinComissionRate p = MinCommissionRate_res sp \<and>
      MinUnbondingTime p = MinUnbondingTime_res sp)"
proof -
  let ?keys = "mapR (\<lambda>pk. replace_err (Error ''invalid covenant public key'') (ToBTCPK L pk)) (CovenantPks_res sp)"
  let ?w = "w\<lparr>trace := trace w @ [BTCCheckpointParams_call, BTCStakingParams_call], ext := x2\<rparr>"
  have run: "QueryStakingParams L bc w =
      (bindR ?keys (\<lambda>pks. bindR (DecodeAddress L (SlashingAddress_res sp) (btcParams bc)) (\<lambda>a.
         Ok \<lparr>ComfirmationTimeBlocks = BtcConfirmationDepth ckpt,
             FinalizationTimeoutBlocks = CheckpointFinalizationTimeout ckpt,
             MinSlashingTxFeeSat = MinSlashingTxFeeSat_res sp, CovenantPks = pks, SlashingAddress = a,
             CovenantQuorum = CovenantQuorum_res sp, SlashingRate = SlashingRate_res sp,
             MinComissionRate = MinCommissionRate_res sp, MinUnbondingTime = MinUnbondingTime_res sp\<rparr>)), ?w)"
    using assms
    by (auto simp: QueryStakingParams_def bindP_def wrap_v_def node_call_def ext_call_def split: res.splits)
  show ?thesis
    unfolding run by (cases p) (auto simp: run_iffs)
qed

theorem QueryStakingParams_reports_witness:
  "fst (QueryStakingParams sample_bbn sample_bc sample_world) = Ok sample_params"
  using QueryStakingParams_reports [of sample_bbn sample_world _ "()" _ "()" sample_bc sample_params]
  by (simp add: sample_bbn_def sample_bc_def sample_params_def)

text \<open>
  \<open>serves L k x pages\<close>: from key \<open>k\<close> on, the node returns these pages of finality providers, each but the
  last with a key for the next one.
\<close>

primrec serves :: "'x bbn_lib \<Rightarrow> bytes option \<Rightarrow> 'x \<Rightarrow> FinalityProvider list list \<Rightarrow> bool" where
  "serves L k x [] = False"
| "serves L k x (page # pages) =
     (case FinalityProviders L k 100 x of
        (Ok res, x') \<Rightarrow> FinalityProviders_page res = page \<and>
          (case Pagination_page res of Some (Some nk) \<Rightarrow> serves L (Some nk) x' pages | _ \<Rightarrow> pages = [])
      | _ \<Rightarrow> False)"

lemma finalityProviders_loop_collects:
  assumes "serves L k (ext w) pages"
  shows "\<exists>w'. finalityProviders_loop L k fps w = Some (Ok (fps @ concat pages), w') \<and>
    length (trace w') = length (trace w) + length pages"
  using assms
proof (induction pages arbitrary: L k w fps)
  case Nil
  then show ?case by simp
next
  case (Cons page pages)
  from Cons.prems obtain res x' where res: "FinalityProviders L k 100 (ext w) = (Ok res, x')"
      "FinalityProviders_page res = page"
      "case Pagination_page res of Some (Some nk) \<Rightarrow> serves L (Some nk) x' pages | _ \<Rightarrow> pages = []"
    by (auto split: prod.splits res.splits)
  let ?w = "w\<lparr>trace := trace w @ [FinalityProviders_call k 100], ext := x'\<rparr>"
  have "finalityProviders_loop L k fps w =
      (case Pagination_page res of
         Some (Some nk) \<Rightarrow> finalityProviders_loop L (Some nk) (fps @ page) ?w
       | _ \<Rightarrow> Some (Ok (fps @ page), ?w))"
    using res(1,2)
    by (subst finalityProviders_loop.simps)
      (auto simp: wrap_v_def node_call_def ext_call_def split: option.splits)
  then show ?case
    using res(3) Cons.IH [where w = ?w and fps = "fps @ page"]
    by (fastforce split: option.splits)
qed

text \<open>
  C28: As long as the node's pages end, \<^verbatim>\<open>QueryFinalityProviders\<close> returns, with the providers of every
  page in order, after one call per page.
\<close>

theorem QueryFinalityProviders_collects:
  assumes "serves L None (ext w) pages"
  shows "\<exists>w'. QueryFinalityProviders L w = Some (Ok (concat pages), w') \<and>
    length (trace w') = length (trace w) + length pages"
  using finalityProviders_loop_collects [OF assms, of "[]"] by (simp add: QueryFinalityProviders_def)

theorem QueryFinalityProviders_collects_witness:
  "\<exists>w'. QueryFinalityProviders sample_bbn sample_world =
     Some (Ok [FinalityProvider [1], FinalityProvider [2]], w') \<and> length (trace w') = 2"
proof -
  have "serves sample_bbn None (ext sample_world) [[FinalityProvider [1]], [FinalityProvider [2]]]"
    by (simp add: sample_bbn_def)
  from QueryFinalityProviders_collects [OF this] show ?thesis by (simp add: sample_world_def numeral_2_eq_2)
qed

end
