(* ===== verification/Signing.thy ===== *)
theory Signing
  imports Client_Controller
begin

text \<open>
  The first half of covenant.go: the emulator's state, \<^verbatim>\<open>NewCovenantEmulator\<close>, \<^verbatim>\<open>getPrivKey\<close> and
  \<^verbatim>\<open>AddCovenantSignatures\<close>, the handler that checks a batch of delegations, signs them and submits the
  signatures. Bitcoin transactions, staking scripts and signatures are the parameter \<open>signing_lib\<close>, a
  record of functions: they neither change the world nor depend on it. The steps of the handler's
  loop body are one definition each, numbered as in the source.
\<close>

section \<open>Libraries and state\<close>

datatype StakingInfo = StakingInfo bytes
datatype UnbondingInfo = UnbondingInfo bytes
datatype SpendInfo = SpendInfo bytes
datatype EncryptionKey = EncryptionKey bytes
datatype AdaptorSignature = AdaptorSignature bytes

record signing_lib =
  NewBTCTxFromHex :: "string \<Rightarrow> MsgTx res"
  NewBTCSlashingTxFromHex :: "string \<Rightarrow> BTCSlashingTx res"
  ToMsgTx :: "BTCSlashingTx \<Rightarrow> MsgTx res"
  CheckTransactions ::
    "MsgTx \<Rightarrow> MsgTx \<Rightarrow> u32 \<Rightarrow> i64 \<Rightarrow> LegacyDec \<Rightarrow> Address \<Rightarrow> PublicKey \<Rightarrow> u16 \<Rightarrow> NetParams \<Rightarrow> unit res"
  BuildStakingInfo ::
    "PublicKey \<Rightarrow> PublicKey list \<Rightarrow> PublicKey list \<Rightarrow> u32 \<Rightarrow> u16 \<Rightarrow> i64 \<Rightarrow> NetParams \<Rightarrow> StakingInfo res"
  BuildUnbondingInfo ::
    "PublicKey \<Rightarrow> PublicKey list \<Rightarrow> PublicKey list \<Rightarrow> u32 \<Rightarrow> u16 \<Rightarrow> i64 \<Rightarrow> NetParams \<Rightarrow> UnbondingInfo res"
  StakingSlashingPath :: "StakingInfo \<Rightarrow> SpendInfo res"
  StakingUnbondingPath :: "StakingInfo \<Rightarrow> SpendInfo res"
  UnbondingSlashingPath :: "UnbondingInfo \<Rightarrow> SpendInfo res"
  GetPkScriptPath :: "SpendInfo \<Rightarrow> bytes"
  NewEncryptionKeyFromBTCPK :: "PublicKey \<Rightarrow> EncryptionKey res"
  EncSign :: "BTCSlashingTx \<Rightarrow> MsgTx \<Rightarrow> u32 \<Rightarrow> bytes \<Rightarrow> PrivateKey \<Rightarrow> EncryptionKey \<Rightarrow> AdaptorSignature res"
  MustMarshal :: "AdaptorSignature \<Rightarrow> bytes res"
  SignTxWithOneScriptSpendInputStrict ::
    "MsgTx \<Rightarrow> MsgTx \<Rightarrow> u32 \<Rightarrow> bytes \<Rightarrow> PrivateKey \<Rightarrow> SchnorrSignature res"
  TxHash :: "MsgTx \<Rightarrow> Hash"
  SerializePubKey :: "PublicKey \<Rightarrow> bytes"

text \<open>
  The emulator. \<^verbatim>\<open>input\<close> is the reader that its keyring controller resets. Its life cycle
  (\<^verbatim>\<open>startOnce\<close>, \<^verbatim>\<open>stopOnce\<close>, \<^verbatim>\<open>wg\<close>, \<^verbatim>\<open>quit\<close>) is the state of theory \<open>Lifecycle\<close>.
\<close>

record 'x CovenantEmulator =
  pk :: PublicKey
  cc :: "'x ClientController"
  kc :: ChainKeyringController
  config :: Config
  params :: "StakingParams option"
  input_ce :: nat
  passphrase :: string

definition NewCovenantEmulator ::
    "'x keyring_lib \<Rightarrow> Config \<Rightarrow> 'x ClientController \<Rightarrow> string \<Rightarrow> ('x world, 'x CovenantEmulator) prog" where
  "NewCovenantEmulator K conf controller pass =
     (let bbn = BabylonConfig conf in
      bindP (NewReader []) (\<lambda>inp.
      bindP (wrapP ''failed to create keyring''
              (CreateKeyring K (KeyDirectory bbn) (ChainID_cfg bbn) (KeyringBackend bbn) inp)) (\<lambda>k.
      bindP (liftP (NewChainKeyringControllerWithKeyring k (Key bbn) inp)) (\<lambda>ctl.
      bindP (wrapP (''covenant key '' @ Key bbn @ '' is not found'') (GetChainPrivKey K ctl pass)) (\<lambda>sk.
      bindP (liftP (ParsePubKey K (PubKeyBytes K sk))) (\<lambda>pubkey.
      returnP \<lparr>pk = pubkey, cc = controller, kc = ctl, config = conf, params = None,
               input_ce = inp, passphrase = pass\<rparr>))))))"

definition getPrivKey :: "'x keyring_lib \<Rightarrow> 'x CovenantEmulator \<Rightarrow> ('x world, PrivateKey) prog" where
  "getPrivKey K ce =
     bindP (GetChainPrivKey K (kc ce) (passphrase ce)) (\<lambda>sdkPrivKey.
     returnP (fst (PrivKeyFromBytes K sdkPrivKey)))"

section \<open>The steps for one delegation\<close>

text \<open>3. check staking tx and slashing tx are valid\<close>

definition checkStakingTxs ::
    "signing_lib \<Rightarrow> NetParams \<Rightarrow> StakingParams \<Rightarrow> Delegation \<Rightarrow> (MsgTx \<times> BTCSlashingTx) res" where
  "checkStakingTxs S net p btcDel =
     bindR (NewBTCTxFromHex S (StakingTxHex btcDel)) (\<lambda>stakingMsgTx.
     bindR (NewBTCSlashingTxFromHex S (SlashingTxHex btcDel)) (\<lambda>slashingTx.
     bindR (ToMsgTx S slashingTx) (\<lambda>slashingMsgTx.
     bindR (wrapR ''invalid txs in the delegation''
             (CheckTransactions S slashingMsgTx stakingMsgTx (StakingOutputIdx btcDel)
                (MinSlashingTxFeeSat p) (SlashingRate p) (SlashingAddress p) (BtcPk btcDel)
                (ucast (UnbondingTime btcDel)) net)) (\<lambda>_.
     Ok (stakingMsgTx, slashingTx)))))"

text \<open>4. check unbonding transaction; reading output 0 of a transaction without outputs panics\<close>

definition firstOutputValue :: "MsgTx \<Rightarrow> i64 res" where
  "firstOutputValue tx = (case TxOuts tx of [] \<Rightarrow> Panic index_out_of_range | out # _ \<Rightarrow> Ok (Value out))"

definition checkUnbondingTxs ::
    "signing_lib \<Rightarrow> NetParams \<Rightarrow> StakingParams \<Rightarrow> Delegation \<Rightarrow> Undelegation \<Rightarrow> (MsgTx \<times> UnbondingInfo) res" where
  "checkUnbondingTxs S net p btcDel undel =
     bindR (NewBTCTxFromHex S (SlashingTxHex_ud undel)) (\<lambda>unbondingSlashingMsgTx.
     bindR (NewBTCTxFromHex S (UnbondingTxHex undel)) (\<lambda>unbondingMsgTx.
     bindR (firstOutputValue unbondingMsgTx) (\<lambda>value0.
     bindR (BuildUnbondingInfo S (BtcPk btcDel) (FpBtcPks btcDel) (CovenantPks p) (CovenantQuorum p)
              (ucast (UnbondingTime btcDel)) value0 net) (\<lambda>unbondingInfo.
     bindR (wrapR ''invalid txs in the undelegation''
             (CheckTransactions S unbondingSlashingMsgTx unbondingMsgTx 0
                (MinSlashingTxFeeSat p) (SlashingRate p) (SlashingAddress p) (BtcPk btcDel)
                (ucast (UnbondingTime btcDel)) net)) (\<lambda>_.
     Ok (unbondingMsgTx, unbondingInfo))))))"

text \<open>5. and 7. one adaptor signature on a slashing transaction per finality provider\<close>

definition encSignAll ::
    "signing_lib \<Rightarrow> BTCSlashingTx \<Rightarrow> MsgTx \<Rightarrow> u32 \<Rightarrow> bytes \<Rightarrow> PrivateKey \<Rightarrow> PublicKey list \<Rightarrow> bytes list res" where
  "encSignAll S slashingTx fundingTx outIdx script sk fpPks =
     mapR (\<lambda>fpPk.
       bindR (NewEncryptionKeyFromBTCPK S fpPk) (\<lambda>encKey.
       bindR (EncSign S slashingTx fundingTx outIdx script sk encKey) (\<lambda>covenantSig.
       MustMarshal S covenantSig))) fpPks"

text \<open>5. to 8.: sign, with the key already fetched\<close>

definition signTxs ::
    "signing_lib \<Rightarrow> NetParams \<Rightarrow> StakingParams \<Rightarrow> PublicKey \<Rightarrow> PrivateKey \<Rightarrow> Delegation \<Rightarrow> Undelegation \<Rightarrow>
       MsgTx \<times> BTCSlashingTx \<Rightarrow> MsgTx \<times> UnbondingInfo \<Rightarrow> CovenantSigs res" where
  "signTxs S net p covPk sk btcDel undel staking unbonding =
     (case staking of (stakingMsgTx, slashingTx) \<Rightarrow>
      case unbonding of (unbondingMsgTx, unbondingInfo) \<Rightarrow>
      bindR (GetStakingTime btcDel) (\<lambda>stakingTime.
      bindR (BuildStakingInfo S (BtcPk btcDel) (FpBtcPks btcDel) (CovenantPks p) (CovenantQuorum p)
               stakingTime (TotalSat btcDel) net) (\<lambda>stakingInfo.
      bindR (StakingSlashingPath S stakingInfo) (\<lambda>slashingPathInfo.
      bindR (encSignAll S slashingTx stakingMsgTx (StakingOutputIdx btcDel)
               (GetPkScriptPath S slashingPathInfo) sk (FpBtcPks btcDel)) (\<lambda>covSigs.
      bindR (StakingUnbondingPath S stakingInfo) (\<lambda>stakingTxUnbondingPathInfo.
      bindR (wrapR ''failed to sign unbonding tx''
              (SignTxWithOneScriptSpendInputStrict S unbondingMsgTx stakingMsgTx
                 (StakingOutputIdx btcDel) (GetPkScriptPath S stakingTxUnbondingPathInfo) sk)) (\<lambda>unbondingSig.
      bindR (NewBTCSlashingTxFromHex S (SlashingTxHex_ud undel)) (\<lambda>slashUnbondingTx.
      bindR (UnbondingSlashingPath S unbondingInfo) (\<lambda>unbondingTxSlashingPath.
      bindR (encSignAll S slashUnbondingTx unbondingMsgTx 0
               (GetPkScriptPath S unbondingTxSlashingPath) sk (FpBtcPks btcDel)) (\<lambda>covSlashingSigs.
      Ok \<lparr>PublicKey_sigs = covPk, StakingTxHash = TxHash S stakingMsgTx, SlashingSigs = covSigs,
          UnbondingSig = unbondingSig, SlashingUnbondingSigs = covSlashingSigs\<rparr>))))))))))"

definition unbonding_time_error :: "u32 \<Rightarrow> u32 \<Rightarrow> error" where
  "unbonding_time_error t m =
     Error (''unbonding time '' @ show_nat (unat t) @ '' must be larger than '' @ show_nat (unat m))"

text \<open>
  The loop body: \<open>None\<close> is the early \<^verbatim>\<open>return nil, nil\<close> of step 1. Reading the quorum from parameters
  that were never fetched dereferences nil.
\<close>

definition signDelegation ::
    "signing_lib \<Rightarrow> 'x keyring_lib \<Rightarrow> 'x CovenantEmulator \<Rightarrow> Delegation option \<Rightarrow>
       ('x world, CovenantSigs option) prog" where
  "signDelegation S K ce del =
     (case del of
        None \<Rightarrow> throwP (Error ''empty delegation'')
      | Some btcDel \<Rightarrow>
     (case BtcUndelegation btcDel of
        None \<Rightarrow> throwP (Error ''empty undelegation'')
      | Some undel \<Rightarrow>
     (case params ce of
        None \<Rightarrow> panicP nil_deref
      | Some p \<Rightarrow>
     bindP (liftP (HasCovenantQuorum btcDel (CovenantQuorum p))) (\<lambda>hasQuorum.
     if hasQuorum then returnP None
     else if UnbondingTime btcDel \<le> MinUnbondingTime p then
       throwP (unbonding_time_error (UnbondingTime btcDel) (MinUnbondingTime p))
     else
       (let net = BTCNetParams (config ce) in
        bindP (liftP (checkStakingTxs S net p btcDel)) (\<lambda>staking.
        bindP (liftP (checkUnbondingTxs S net p btcDel undel)) (\<lambda>unbonding.
        bindP (wrapP ''failed to get Covenant private key'' (getPrivKey K ce)) (\<lambda>covenantPrivKey.
        bindP (liftP (signTxs S net p (pk ce) covenantPrivKey btcDel undel staking unbonding)) (\<lambda>sigs.
        returnP (Some sigs))))))))))"

section \<open>AddCovenantSignatures\<close>

primrec collectSigs ::
    "signing_lib \<Rightarrow> 'x keyring_lib \<Rightarrow> 'x CovenantEmulator \<Rightarrow> CovenantSigs list \<Rightarrow> Delegation option list \<Rightarrow>
       ('x world, TxResponse option) prog" where
  "collectSigs S K ce covenantSigs [] =
     bindP (SubmitCovenantSigs_cc (cc ce) covenantSigs) (\<lambda>res. returnP (Some res))"
| "collectSigs S K ce covenantSigs (d # ds) =
     bindP (signDelegation S K ce d) (\<lambda>r.
     case r of
       None \<Rightarrow> returnP None
     | Some sigs \<Rightarrow> collectSigs S K ce (covenantSigs @ [sigs]) ds)"

definition AddCovenantSignatures ::
    "signing_lib \<Rightarrow> 'x keyring_lib \<Rightarrow> 'x CovenantEmulator \<Rightarrow> Delegation option list \<Rightarrow>
       ('x world, TxResponse option) prog" where
  "AddCovenantSignatures S K ce btcDels =
     (if length btcDels = 0 then throwP (Error ''no delegations'') else collectSigs S K ce [] btcDels)"

section \<open>What a signature vouches for\<close>

text \<open>
  \<open>approved S net p d\<close>: the conditions under which the covenant may sign for delegation \<open>d\<close> under the
  parameters \<open>p\<close>, in terms of the library's verdicts on the transactions themselves. The timelock the
  library is asked about is the unbonding time cut to 16 bits.
\<close>

definition checked_pair ::
    "signing_lib \<Rightarrow> NetParams \<Rightarrow> StakingParams \<Rightarrow> Delegation \<Rightarrow> MsgTx \<Rightarrow> MsgTx \<Rightarrow> u32 \<Rightarrow> bool" where
  "checked_pair S net p d slashing funding idx \<longleftrightarrow>
     CheckTransactions S slashing funding idx (MinSlashingTxFeeSat p) (SlashingRate p)
       (SlashingAddress p) (BtcPk d) (ucast (UnbondingTime d)) net = Ok ()"

definition approved :: "signing_lib \<Rightarrow> NetParams \<Rightarrow> StakingParams \<Rightarrow> Delegation \<Rightarrow> bool" where
  "approved S net p d \<longleftrightarrow>
     MinUnbondingTime p < UnbondingTime d \<and>
     HasCovenantQuorum d (CovenantQuorum p) = Ok False \<and>
     (\<exists>stakingTx slashingTx slashingMsgTx.
        NewBTCTxFromHex S (StakingTxHex d) = Ok stakingTx \<and>
        NewBTCSlashingTxFromHex S (SlashingTxHex d) = Ok slashingTx \<and>
        ToMsgTx S slashingTx = Ok slashingMsgTx \<and>
        checked_pair S net p d slashingMsgTx stakingTx (StakingOutputIdx d)) \<and>
     (\<exists>ud unbondingTx unbondingSlashingTx.
        BtcUndelegation d = Some ud \<and>
        NewBTCTxFromHex S (UnbondingTxHex ud) = Ok unbondingTx \<and>
        TxOuts unbondingTx \<noteq> [] \<and>
        NewBTCTxFromHex S (SlashingTxHex_ud ud) = Ok unbondingSlashingTx \<and>
        checked_pair S net p d unbondingSlashingTx unbondingTx 0)"

text \<open>
  \<open>adaptor_sigs\<close>: one adaptor signature by \<open>sk\<close> on a transaction per finality provider, each encrypted
  to that provider's key. \<open>answers S net p covPk sk d s\<close>: the signatures \<open>s\<close> are this covenant member's
  for delegation \<open>d\<close>: on the slashing transaction through the slashing path of the staking output, on
  the unbonding transaction through its unbonding path, and on the unbonding slashing transaction
  through the slashing path of the unbonding output, every script rebuilt from the delegation's keys
  and the parameters.
\<close>

definition adaptor_sigs ::
    "signing_lib \<Rightarrow> PrivateKey \<Rightarrow> BTCSlashingTx \<Rightarrow> MsgTx \<Rightarrow> u32 \<Rightarrow> bytes \<Rightarrow> PublicKey list \<Rightarrow> bytes list \<Rightarrow> bool" where
  "adaptor_sigs S sk tx funding idx script fps sigs \<longleftrightarrow>
     list_all2 (\<lambda>fp sig. \<exists>encKey a. NewEncryptionKeyFromBTCPK S fp = Ok encKey \<and>
       EncSign S tx funding idx script sk encKey = Ok a \<and> MustMarshal S a = Ok sig) fps sigs"

definition answers ::
    "signing_lib \<Rightarrow> NetParams \<Rightarrow> StakingParams \<Rightarrow> PublicKey \<Rightarrow> PrivateKey \<Rightarrow> Delegation \<Rightarrow> CovenantSigs \<Rightarrow> bool" where
  "answers S net p covPk sk d s \<longleftrightarrow>
     PublicKey_sigs s = covPk \<and>
     (\<exists>stakingTx slashingTx ud unbondingTx unbondingSlashingTx time stakingInfo unbondingInfo slash unbond uslash.
        NewBTCTxFromHex S (StakingTxHex d) = Ok stakingTx \<and>
        NewBTCSlashingTxFromHex S (SlashingTxHex d) = Ok slashingTx \<and>
        BtcUndelegation d = Some ud \<and>
        NewBTCTxFromHex S (UnbondingTxHex ud) = Ok unbondingTx \<and>
        NewBTCSlashingTxFromHex S (SlashingTxHex_ud ud) = Ok unbondingSlashingTx \<and>
        GetStakingTime d = Ok time \<and>
        BuildStakingInfo S (BtcPk d) (FpBtcPks d) (CovenantPks p) (CovenantQuorum p) time (TotalSat d) net
          = Ok stakingInfo \<and>
        BuildUnbondingInfo S (BtcPk d) (FpBtcPks d) (CovenantPks p) (CovenantQuorum p)
          (ucast (UnbondingTime d)) (Value (hd (TxOuts unbondingTx))) net = Ok unbondingInfo \<and>
        StakingSlashingPath S stakingInfo = Ok slash \<and>
        StakingUnbondingPath S stakingInfo = Ok unbond \<and>
        UnbondingSlashingPath S unbondingInfo = Ok uslash \<and>
        StakingTxHash s = TxHash S stakingTx \<and>
        adaptor_sigs S sk slashingTx stakingTx (StakingOutputIdx d) (GetPkScriptPath S slash)
          (FpBtcPks d) (SlashingSigs s) \<and>
        SignTxWithOneScriptSpendInputStrict S unbondingTx stakingTx (StakingOutputIdx d)
          (GetPkScriptPath S unbond) sk = Ok (UnbondingSig s) \<and>
        adaptor_sigs S sk unbondingSlashingTx unbondingTx 0 (GetPkScriptPath S uslash)
          (FpBtcPks d) (SlashingUnbondingSigs s))"

lemma checkStakingTxs_Ok_iff:
  "checkStakingTxs S net p d = Ok (stakingTx, slashingTx) \<longleftrightarrow>
     NewBTCTxFromHex S (StakingTxHex d) = Ok stakingTx \<and>
     NewBTCSlashingTxFromHex S (SlashingTxHex d) = Ok slashingTx \<and>
     (\<exists>slashingMsgTx. ToMsgTx S slashingTx = Ok slashingMsgTx \<and>
        checked_pair S net p d slashingMsgTx stakingTx (StakingOutputIdx d))"
  by (auto simp: checkStakingTxs_def checked_pair_def run_iffs)

lemma firstOutputValue_Ok_iff: "firstOutputValue tx = Ok v \<longleftrightarrow> (\<exists>out outs. TxOuts tx = out # outs \<and> v = Value out)"
  by (auto simp: firstOutputValue_def split: list.splits)

lemma checkUnbondingTxs_Ok_iff:
  "checkUnbondingTxs S net p d ud = Ok (unbondingTx, info) \<longleftrightarrow>
     NewBTCTxFromHex S (UnbondingTxHex ud) = Ok unbondingTx \<and> TxOuts unbondingTx \<noteq> [] \<and>
     (\<exists>tx. NewBTCTxFromHex S (SlashingTxHex_ud ud) = Ok tx \<and> checked_pair S net p d tx unbondingTx 0) \<and>
     BuildUnbondingInfo S (BtcPk d) (FpBtcPks d) (CovenantPks p) (CovenantQuorum p)
       (ucast (UnbondingTime d)) (Value (hd (TxOuts unbondingTx))) net = Ok info"
  by (cases "TxOuts unbondingTx")
    (auto simp: checkUnbondingTxs_def checked_pair_def firstOutputValue_Ok_iff run_iffs)

lemma encSignAll_Ok_iff:
  "encSignAll S tx funding idx script sk fps = Ok sigs \<longleftrightarrow> adaptor_sigs S sk tx funding idx script fps sigs"
  by (simp add: encSignAll_def adaptor_sigs_def run_iffs)

lemma signTxs_answers:
  assumes "BtcUndelegation d = Some ud"
    and "checkStakingTxs S net p d = Ok staking" and "checkUnbondingTxs S net p d ud = Ok unbonding"
    and "signTxs S net p covPk sk d ud staking unbonding = Ok s"
  shows "answers S net p covPk sk d s"
  using assms
  by (cases staking; cases unbonding)
    (auto simp: answers_def signTxs_def run_iffs checkStakingTxs_Ok_iff checkUnbondingTxs_Ok_iff
      encSignAll_Ok_iff)

lemma checks_approved:
  assumes "BtcUndelegation d = Some ud" and "HasCovenantQuorum d (CovenantQuorum p) = Ok False"
    and "\<not> UnbondingTime d \<le> MinUnbondingTime p"
    and "checkStakingTxs S net p d = Ok staking" and "checkUnbondingTxs S net p d ud = Ok unbonding"
  shows "approved S net p d"
  using assms
  by (cases staking; cases unbonding)
    (auto simp: approved_def checkStakingTxs_Ok_iff checkUnbondingTxs_Ok_iff not_le)

lemma getPrivKey_frame [keeps_intros]: "keeps trace (getPrivKey K ce)" "keeps sent (getPrivKey K ce)"
  unfolding getPrivKey_def by (intro keeps_intros)+

lemma signDelegation_frame [keeps_intros]:
  "keeps trace (signDelegation S K ce d)" "keeps sent (signDelegation S K ce d)"
  unfolding signDelegation_def Let_def by (intro keeps_intros)+

text \<open>Every set of signatures the loop body produces is for an approved delegation.\<close>

definition vouched :: "signing_lib \<Rightarrow> 'x CovenantEmulator \<Rightarrow> Delegation option \<Rightarrow> CovenantSigs \<Rightarrow> bool" where
  "vouched S ce del s \<longleftrightarrow>
     (\<exists>d p sk. del = Some d \<and> params ce = Some p \<and> approved S (BTCNetParams (config ce)) p d \<and>
        answers S (BTCNetParams (config ce)) p (pk ce) sk d s)"

lemma signDelegation_vouched:
  assumes "signDelegation S K ce del w = (Ok (Some s), w')"
  shows "vouched S ce del s"
  using assms
  by (auto simp: signDelegation_def vouched_def Let_def run_iffs split: option.splits if_splits
      intro: checks_approved signTxs_answers)

context client_controller
begin

lemma collectSigs_safe:
  assumes "collectSigs S K ce acc dels w = (r, w')" and "cc ce = ctl"
  shows "sent w' = sent w \<or>
    (\<exists>ms sigs. sent w' = sent w @ [ms] \<and> list_all2 delivers ms (acc @ sigs) \<and>
       list_all2 (vouched S ce) dels sigs)"
  using assms(1)
proof (induction dels arbitrary: acc w)
  case Nil
  then have "\<exists>x. SubmitCovenantSigs_cc ctl acc w = (x, w')"
    using assms(2) by (auto simp: bindP_def split: prod.splits res.splits)
  then show ?case by (auto dest: submit_sends)
next
  case (Cons d dels)
  obtain x w1 where x: "signDelegation S K ce d w = (x, w1)" by fastforce
  have w1: "sent w1 = sent w" using signDelegation_frame(2) x by (rule keepsD)
  show ?case
  proof (cases "\<exists>s. x = Ok (Some s)")
    case True
    then obtain s where s: "x = Ok (Some s)" by blast
    with Cons.prems x have "collectSigs S K ce (acc @ [s]) dels w1 = (r, w')"
      by (simp add: bindP_def)
    from Cons.IH [OF this] w1 signDelegation_vouched [of S K ce d w s w1] x s show ?thesis
      by (auto intro: exI [of _ "s # _"])
  next
    case False
    with Cons.prems x have "w' = w1"
      by (auto simp: bindP_def split: res.splits option.splits)
    with w1 show ?thesis by simp
  qed
qed

lemma AddCovenantSignatures_safe:
  assumes "AddCovenantSignatures S K ce dels w = (r, w')" and "cc ce = ctl"
  shows "sent w' = sent w \<or>
    (\<exists>ms sigs. sent w' = sent w @ [ms] \<and> list_all2 delivers ms sigs \<and>
       list_all2 (vouched S ce) dels sigs)"
proof (cases "dels = []")
  case True
  with assms show ?thesis by (simp add: AddCovenantSignatures_def)
next
  case False
  with assms have "collectSigs S K ce [] dels w = (r, w')"
    by (simp add: AddCovenantSignatures_def)
  from collectSigs_safe [OF this assms(2)] show ?thesis by simp
qed

end

section \<open>The handler as a decision followed by one submission\<close>

text \<open>
  \<open>decide\<close> is the loop body without its effects, for a known key; \<open>decideAll\<close> is the reference for the
  loop: the signatures of all delegations if each one can be signed, else the outcome of the first
  one that cannot.
\<close>

definition decide ::
    "signing_lib \<Rightarrow> NetParams \<Rightarrow> StakingParams \<Rightarrow> PublicKey \<Rightarrow> PrivateKey \<Rightarrow> Delegation option \<Rightarrow>
       CovenantSigs option res" where
  "decide S net p covPk sk del =
     (case del of
        None \<Rightarrow> Err (Error ''empty delegation'')
      | Some d \<Rightarrow>
     (case BtcUndelegation d of
        None \<Rightarrow> Err (Error ''empty undelegation'')
      | Some ud \<Rightarrow>
     bindR (HasCovenantQuorum d (CovenantQuorum p)) (\<lambda>hasQuorum.
     if hasQuorum then Ok None
     else if UnbondingTime d \<le> MinUnbondingTime p then
       Err (unbonding_time_error (UnbondingTime d) (MinUnbondingTime p))
     else
       bindR (checkStakingTxs S net p d) (\<lambda>staking.
       bindR (checkUnbondingTxs S net p d ud) (\<lambda>unbonding.
       bindR (signTxs S net p covPk sk d ud staking unbonding) (\<lambda>sigs. Ok (Some sigs)))))))"

definition is_signed :: "CovenantSigs option res \<Rightarrow> bool" where
  "is_signed r \<longleftrightarrow> (case r of Ok (Some s) \<Rightarrow> True | _ \<Rightarrow> False)"

definition sigs_of :: "CovenantSigs option res \<Rightarrow> CovenantSigs list" where
  "sigs_of r = (case r of Ok (Some s) \<Rightarrow> [s] | _ \<Rightarrow> [])"

definition decideAll :: "(Delegation option \<Rightarrow> CovenantSigs option res) \<Rightarrow> Delegation option list \<Rightarrow>
    CovenantSigs list option res" where
  "decideAll dec dels =
     (case dropWhile (\<lambda>d. is_signed (dec d)) dels of
        [] \<Rightarrow> Ok (Some (concat (map (\<lambda>d. sigs_of (dec d)) dels)))
      | d # _ \<Rightarrow> bindR (dec d) (\<lambda>_. Ok None))"

abbreviation decision :: "signing_lib \<Rightarrow> 'x CovenantEmulator \<Rightarrow> StakingParams \<Rightarrow> PrivateKey \<Rightarrow>
    Delegation option \<Rightarrow> CovenantSigs option res" where
  "decision S ce p sk \<equiv> decide S (BTCNetParams (config ce)) p (pk ce) sk"

text \<open>\<open>has_key K ce sk\<close>: the emulator's keyring opens, with its passphrase, to the key \<open>sk\<close>.\<close>

definition has_key :: "'x keyring_lib \<Rightarrow> 'x CovenantEmulator \<Rightarrow> PrivateKey \<Rightarrow> bool" where
  "has_key K ce sk \<longleftrightarrow>
     (\<exists>key. opens K (kr (kc ce)) (fpName (kc ce)) (passphrase ce) key \<and> sk = fst (PrivKeyFromBytes K key))"

lemma getPrivKey_run:
  assumes "has_key K ce sk" and "wired (kc ce) w"
  obtains w' where "getPrivKey K ce w = (Ok sk, w')" "sent w' = sent w" "wired (kc ce) w'"
proof -
  from assms(1) obtain key where key: "opens K (kr (kc ce)) (fpName (kc ce)) (passphrase ce) key"
      "sk = fst (PrivKeyFromBytes K key)"
    unfolding has_key_def by blast
  from assms(2) key(1) obtain w' where
      "GetChainPrivKey K (kc ce) (passphrase ce) w = (Ok key, w')" "sent w' = sent w" "wired (kc ce) w'"
    by (rule GetChainPrivKey_opens)
  with key(2) that show thesis by (simp add: getPrivKey_def bindP_run)
qed

lemma signDelegation_decide:
  assumes "params ce = Some p" and "has_key K ce sk" and "wired (kc ce) w"
  obtains w' where "signDelegation S K ce d w = (decision S ce p sk d, w')" "sent w' = sent w"
    "wired (kc ce) w'"
proof -
  obtain w' where w': "getPrivKey K ce w = (Ok sk, w')" "sent w' = sent w" "wired (kc ce) w'"
    using assms(2,3) by (rule getPrivKey_run)
  have "\<exists>w'. signDelegation S K ce d w = (decision S ce p sk d, w') \<and> sent w' = sent w \<and> wired (kc ce) w'"
    using assms w'
    by (auto simp: signDelegation_def decide_def Let_def bindP_def wrapP_def split: option.splits res.splits)
  with that show thesis by blast
qed

lemma decide_signed_iff:
  "decide S net p covPk sk (Some d) = Ok (Some s) \<longleftrightarrow> approved S net p d \<and> answers S net p covPk sk d s"
proof
  assume "decide S net p covPk sk (Some d) = Ok (Some s)"
  then show "approved S net p d \<and> answers S net p covPk sk d s"
    by (auto simp: decide_def run_iffs split: option.splits if_splits
        intro: checks_approved signTxs_answers)
next
  assume a: "approved S net p d \<and> answers S net p covPk sk d s"
  then obtain ud where ud: "BtcUndelegation d = Some ud" by (auto simp: approved_def)
  from a ud obtain stakingTx slashingTx unbondingTx info where
      checks: "checkStakingTxs S net p d = Ok (stakingTx, slashingTx)"
        "checkUnbondingTxs S net p d ud = Ok (unbondingTx, info)"
    by (auto simp: approved_def answers_def checkStakingTxs_Ok_iff checkUnbondingTxs_Ok_iff)
  from a ud checks have "signTxs S net p covPk sk d ud (stakingTx, slashingTx) (unbondingTx, info) = Ok s"
    by (cases s)
      (auto simp: signTxs_def answers_def checkStakingTxs_Ok_iff checkUnbondingTxs_Ok_iff run_iffs
        encSignAll_Ok_iff)
  with a ud checks show "decide S net p covPk sk (Some d) = Ok (Some s)"
    by (auto simp: decide_def approved_def not_le)
qed

lemma decideAll_Nil [simp]: "decideAll dec [] = Ok (Some [])"
  by (simp add: decideAll_def)

lemma signed_simps [simp]:
  "is_signed (Ok (Some s))" "\<not> is_signed (Ok None)" "\<not> is_signed (Err e)" "\<not> is_signed (Panic q)"
  "sigs_of (Ok (Some s)) = [s]"
  by (simp_all add: is_signed_def sigs_of_def)

lemma decideAll_Cons:
  "decideAll dec (d # ds) =
     (case dec d of
        Ok (Some s) \<Rightarrow> bindR (decideAll dec ds) (\<lambda>r. Ok (map_option ((#) s) r))
      | Ok None \<Rightarrow> Ok None | Err e \<Rightarrow> Err e | Panic q \<Rightarrow> Panic q)"
proof (cases "\<exists>s. dec d = Ok (Some s)")
  case True
  then obtain s where s: "dec d = Ok (Some s)" by blast
  show ?thesis
  proof (cases "dropWhile (\<lambda>d. is_signed (dec d)) ds")
    case Nil
    with s show ?thesis by (simp add: decideAll_def del: dropWhile_eq_Nil_conv)
  next
    case (Cons d' ds')
    with s show ?thesis by (cases "dec d'") (simp_all add: decideAll_def)
  qed
next
  case False
  then show ?thesis
    by (auto simp: decideAll_def split: res.splits option.splits)
qed

lemma decideAll_signed:
  "list_all2 (\<lambda>d s. dec d = Ok (Some s)) ds sigs \<Longrightarrow> decideAll dec ds = Ok (Some sigs)"
  by (induction rule: list_all2_induct) (simp_all add: decideAll_Cons)

text \<open>How a handler ends, given its decision and the world after the keys were read.\<close>

definition finish :: "'x CovenantEmulator \<Rightarrow> CovenantSigs list option res \<Rightarrow> ('x world, TxResponse option) prog" where
  "finish ce r =
     (case r of
        Ok (Some sigs) \<Rightarrow> bindP (SubmitCovenantSigs_cc (cc ce) sigs) (\<lambda>res. returnP (Some res))
      | Ok None \<Rightarrow> returnP None
      | Err e \<Rightarrow> throwP e
      | Panic q \<Rightarrow> panicP q)"

lemma collectSigs_decideAll:
  assumes "params ce = Some p" and "has_key K ce sk" and "wired (kc ce) w"
  shows "\<exists>w1. sent w1 = sent w \<and> wired (kc ce) w1 \<and>
    collectSigs S K ce acc dels w =
      finish ce (bindR (decideAll (decision S ce p sk) dels) (\<lambda>r. Ok (map_option ((@) acc) r))) w1"
  using assms(3)
proof (induction dels arbitrary: acc w)
  case Nil
  then show ?case by (auto simp: finish_def)
next
  case (Cons d dels)
  obtain w1 where w1: "signDelegation S K ce d w = (decision S ce p sk d, w1)" "sent w1 = sent w"
      "wired (kc ce) w1"
    using assms(1,2) Cons.prems by (rule signDelegation_decide)
  show ?case
  proof (cases "\<exists>s. decision S ce p sk d = Ok (Some s)")
    case True
    then obtain s where s: "decision S ce p sk d = Ok (Some s)" by blast
    have *: "bindR (bindR (decideAll f ds) (\<lambda>r. Ok (map_option ((#) s) r))) (\<lambda>r. Ok (map_option ((@) acc) r)) =
        bindR (decideAll f ds) (\<lambda>r. Ok (map_option (\<lambda>a. acc @ s # a) r))" for f ds
      by (cases "decideAll f ds") (auto simp: option.map_comp comp_def)
    show ?thesis
      using Cons.IH [OF w1(3), of "acc @ [s]"] w1 s
      by (auto simp: decideAll_Cons bindP_run *)
  next
    case False
    with w1 show ?thesis
      by (auto simp: decideAll_Cons bindP_def finish_def split: res.splits option.splits)
  qed
qed

section \<open>A concrete emulator\<close>

definition sample_tx :: "string \<Rightarrow> MsgTx" where
  "sample_tx h = \<lparr>TxOuts = [\<lparr>Value = 1000, PkScript = []\<rparr>], TxRest = map (\<lambda>c. of_nat (of_char c)) h\<rparr>"

definition sample_signing :: signing_lib where
  "sample_signing =
     \<lparr>NewBTCTxFromHex = (\<lambda>h. Ok (sample_tx h)),
      NewBTCSlashingTxFromHex = (\<lambda>h. Ok (BTCSlashingTx (map (\<lambda>c. of_nat (of_char c)) h))),
      ToMsgTx = (\<lambda>t. case t of BTCSlashingTx b \<Rightarrow> Ok \<lparr>TxOuts = [], TxRest = b\<rparr>),
      CheckTransactions = (\<lambda>_ _ _ _ _ _ _ t _. if t = 0 then Err (Error ''no timelock'') else Ok ()),
      BuildStakingInfo = (\<lambda>_ _ _ _ _ _ _. Ok (StakingInfo [1])),
      BuildUnbondingInfo = (\<lambda>_ _ _ _ _ _ _. Ok (UnbondingInfo [2])),
      StakingSlashingPath = (\<lambda>_. Ok (SpendInfo [3])), StakingUnbondingPath = (\<lambda>_. Ok (SpendInfo [4])),
      UnbondingSlashingPath = (\<lambda>_. Ok (SpendInfo [5])),
      GetPkScriptPath = (\<lambda>i. case i of SpendInfo b \<Rightarrow> b),
      NewEncryptionKeyFromBTCPK = (\<lambda>k. case k of PublicKey b \<Rightarrow> Ok (EncryptionKey b)),
      EncSign = (\<lambda>_ _ _ script _ k. case k of EncryptionKey b \<Rightarrow> Ok (AdaptorSignature (script @ b))),
      MustMarshal = (\<lambda>a. case a of AdaptorSignature b \<Rightarrow> Ok b),
      SignTxWithOneScriptSpendInputStrict = (\<lambda>_ _ _ script _. Ok (SchnorrSignature script)),
      TxHash = (\<lambda>tx. Hash (TxRest tx)), SerializePubKey = (\<lambda>k. case k of PublicKey b \<Rightarrow> b)\<rparr>"

definition sample_config :: Config where
  "sample_config =
     \<lparr>LogLevel = ''debug'', QueryInterval = 15, DelegationLimit = 100, SigsBatchSize = 20,
      BitcoinNetwork = ''simnet'', BTCNetParams = SimNetParams, BabylonConfig = sample_bbn_config\<rparr>"

definition sample_emulator :: "unit CovenantEmulator" where
  "sample_emulator =
     \<lparr>pk = PublicKey [5], cc = babylon_cc sample_bbn sample_bc, kc = sample_controller,
      config = sample_config, params = Some sample_params, input_ce = 0, passphrase = ''secret''\<rparr>"

definition sample_run :: "unit world" where
  "sample_run = sample_world\<lparr>readers := [[]]\<rparr>"

definition sample_sigs :: CovenantSigs where
  "sample_sigs =
     \<lparr>PublicKey_sigs = PublicKey [5], StakingTxHash = Hash [48, 97], SlashingSigs = [[3, 2], [3, 3]],
      UnbondingSig = SchnorrSignature [4], SlashingUnbondingSigs = [[5, 2], [5, 3]]\<rparr>"

lemmas sample_emulator_defs = sample_emulator_def sample_run_def sample_world_def sample_controller_def
  sample_config_def

lemma sample_has_key: "has_key sample_keyring sample_emulator (PrivateKey [5])"
  unfolding has_key_def
  by (rule exI [of _ "[5]"])
    (simp add: sample_emulator_def sample_controller_def sample_opens, simp add: sample_keyring_def)

lemma sample_wired: "wired (kc sample_emulator) sample_run"
  by (simp add: wired_def sample_emulator_defs)

lemma sample_decides:
  "decision sample_signing sample_emulator sample_params (PrivateKey [5]) (Some sample_delegation) =
     Ok (Some sample_sigs)"
  by (simp add: decide_def sample_delegation_def sample_undelegation_def sample_params_def
      HasCovenantQuorum_def HasAllSignatures_def HasCovenantQuorumOnSlashing_def
      HasCovenantQuorumOnUnbonding_def checkStakingTxs_def checkUnbondingTxs_def firstOutputValue_def
      signTxs_def GetStakingTime_def encSignAll_def sample_signing_def sample_tx_def sample_sigs_def
      sample_emulator_def)

lemma sample_vouch:
  "approved sample_signing SimNetParams sample_params sample_delegation \<and>
   answers sample_signing SimNetParams sample_params (PublicKey [5]) (PrivateKey [5]) sample_delegation sample_sigs"
  using sample_decides by (simp add: decide_signed_iff sample_emulator_def sample_config_def)

section \<open>Properties\<close>

text \<open>
  C3: Whatever the libraries do and however the call ends, \<^verbatim>\<open>AddCovenantSignatures\<close> on the Babylon
  controller either sends no transaction, or sends exactly one, whose messages correspond one to one
  and in order to the delegations of the batch, each message carrying signatures that answer its
  delegation, and every delegation approved: its unbonding time exceeds the minimum, it has no quorum
  yet, and the library accepts both its transaction pairs against the current parameters.
\<close>

theorem AddCovenantSignatures_safety:
  assumes "AddCovenantSignatures S K ce dels w = (r, w')" and "cc ce = babylon_cc L bc"
  shows "sent w' = sent w \<or>
    (\<exists>ms sigs. sent w' = sent w @ [ms] \<and> list_all2 (carries L) ms sigs \<and>
       list_all2 (\<lambda>del s. \<exists>d p sk. del = Some d \<and> params ce = Some p \<and>
         approved S (BTCNetParams (config ce)) p d \<and>
         answers S (BTCNetParams (config ce)) p (pk ce) sk d s) dels sigs)"
  using babylon.AddCovenantSignatures_safe [OF assms] by (simp add: vouched_def [abs_def])

theorem AddCovenantSignatures_safety_witness:
  "\<exists>r w'. AddCovenantSignatures sample_signing sample_keyring sample_emulator [Some sample_delegation] sample_run = (r, w') \<and>
     (sent w' = sent sample_run \<or> (\<exists>m. sent w' = sent sample_run @ [[m]]))"
proof -
  obtain r w' where w': "AddCovenantSignatures sample_signing sample_keyring sample_emulator
      [Some sample_delegation] sample_run = (r, w')"
    by fastforce
  have "cc sample_emulator = babylon_cc sample_bbn sample_bc" by (simp add: sample_emulator_def)
  from AddCovenantSignatures_safety [OF w' this] w' show ?thesis
    by (auto simp: list_all2_Cons1 list_all2_Cons2)
qed

text \<open>
  C4: The handler refines a pure decision followed by at most one submission: if the keyring opens
  with the emulator's passphrase, a run on a non-empty batch reads keys without sending anything and
  then submits the signatures of all delegations if each one can be signed, or else ends as the first
  one that cannot be signed decides: with its error, its panic, or silently if it has its quorum.
\<close>

theorem AddCovenantSignatures_refines:
  assumes "params ce = Some p" and "has_key K ce sk" and "wired (kc ce) w" and "dels \<noteq> []"
  shows "\<exists>w1. sent w1 = sent w \<and>
    AddCovenantSignatures S K ce dels w =
      (case decideAll (decide S (BTCNetParams (config ce)) p (pk ce) sk) dels of
         Ok (Some sigs) \<Rightarrow> bindP (SubmitCovenantSigs_cc (cc ce) sigs) (\<lambda>res. returnP (Some res)) w1
       | Ok None \<Rightarrow> (Ok None, w1)
       | Err e \<Rightarrow> (Err e, w1)
       | Panic q \<Rightarrow> (Panic q, w1))"
proof -
  obtain w1 where "sent w1 = sent w" "collectSigs S K ce [] dels w =
      finish ce (bindR (decideAll (decision S ce p sk) dels) (\<lambda>r. Ok (map_option ((@) []) r))) w1"
    using collectSigs_decideAll [OF assms(1-3)] by blast
  with assms(4) show ?thesis
    by (intro exI [of _ w1])
      (auto simp: AddCovenantSignatures_def finish_def option.map_ident split: res.splits option.splits)
qed

theorem AddCovenantSignatures_refines_witness:
  "\<exists>w1. sent w1 = sent sample_run \<and>
     AddCovenantSignatures sample_signing sample_keyring sample_emulator [Some sample_delegation, None] sample_run =
       (Err (Error ''empty delegation''), w1)"
proof -
  have p: "params sample_emulator = Some sample_params" by (simp add: sample_emulator_def)
  have d: "decideAll (decision sample_signing sample_emulator sample_params (PrivateKey [5]))
      [Some sample_delegation, None] = Err (Error ''empty delegation'')"
    using sample_decides by (simp add: decideAll_Cons) (simp add: decide_def)
  show ?thesis
    using AddCovenantSignatures_refines [OF p sample_has_key sample_wired,
        where dels = "[Some sample_delegation, None]" and S = sample_signing] d
    by simp
qed

text \<open>
  C10: A batch of delegations that are all approved and that the library can sign is signed: if the
  keyring opens and the node accepts transactions, the call succeeds after sending exactly one
  transaction, with one message per delegation, in order, from the configured account.
\<close>

theorem AddCovenantSignatures_complete:
  assumes "params ce = Some p" and "has_key K ce sk" and "wired (kc ce) w"
    and "cc ce = babylon_cc L bc" and "accepts L bc signer" and "ds \<noteq> []"
    and "list_all2 (\<lambda>d s. approved S (BTCNetParams (config ce)) p d \<and>
           answers S (BTCNetParams (config ce)) p (pk ce) sk d s) ds sigs"
  shows "\<exists>resp w'. AddCovenantSignatures S K ce (map Some ds) w = (Ok (Some resp), w') \<and>
    sent w' = sent w @ [map (toMsgAddCovenantSigs L signer) sigs]"
proof -
  have "list_all2 (\<lambda>d s. decision S ce p sk d = Ok (Some s)) (map Some ds) sigs"
    using assms(7) by (simp add: list_all2_map1 decide_signed_iff)
  then have all: "decideAll (decision S ce p sk) (map Some ds) = Ok (Some sigs)"
    by (rule decideAll_signed)
  obtain w1 where w1: "sent w1 = sent w"
      "collectSigs S K ce [] (map Some ds) w = finish ce (Ok (Some sigs)) w1"
    using collectSigs_decideAll [OF assms(1-3), of S "[]" "map Some ds"] all by auto
  obtain resp w2 where "SubmitCovenantSigs L bc sigs w1 = (Ok resp, w2)"
      "sent w2 = sent w1 @ [map (toMsgAddCovenantSigs L signer) sigs]"
    using assms(5) by (rule accepts_submit)
  with w1 assms(4,6) show ?thesis
    by (auto simp: AddCovenantSignatures_def finish_def babylon_cc_def bindP_run)
qed

theorem AddCovenantSignatures_complete_witness:
  "\<exists>resp w'. AddCovenantSignatures sample_signing sample_keyring sample_emulator
       [Some sample_delegation, Some sample_delegation] sample_run = (Ok (Some resp), w') \<and>
     sent w' = sent sample_run @
       [[toMsgAddCovenantSigs sample_bbn ''bbn1signer'' sample_sigs,
         toMsgAddCovenantSigs sample_bbn ''bbn1signer'' sample_sigs]]"
proof -
  have p: "params sample_emulator = Some sample_params"
      and c: "cc sample_emulator = babylon_cc sample_bbn sample_bc"
    by (simp_all add: sample_emulator_def)
  show ?thesis
    using AddCovenantSignatures_complete [OF p sample_has_key sample_wired c sample_accepts,
        where ds = "[sample_delegation, sample_delegation]" and sigs = "[sample_sigs, sample_sigs]"
          and S = sample_signing] sample_vouch
    by (simp add: sample_emulator_def sample_config_def)
qed

text \<open>
  C18: A delegation that already has its quorum ends the whole call: nothing is sent for the
  delegations before it, nor for those after it, whatever they are, and no error is reported.
  Conversely a call that returns neither an error nor a response has met such a delegation.
\<close>

theorem quorum_drops_batch:
  assumes "params ce = Some p" and "has_key K ce sk" and "wired (kc ce) w"
    and "list_all2 (\<lambda>d s. approved S (BTCNetParams (config ce)) p d \<and>
           answers S (BTCNetParams (config ce)) p (pk ce) sk d s) before sigs"
  shows "(HasCovenantQuorum d (CovenantQuorum p) = Ok True \<longrightarrow>
      (\<exists>w'. AddCovenantSignatures S K ce (map Some before @ Some d # after) w = (Ok None, w') \<and>
         sent w' = sent w)) \<and>
    (\<forall>dels w'. AddCovenantSignatures S K ce dels w = (Ok None, w') \<longrightarrow>
      (\<exists>d \<in> set dels. \<exists>btcDel. d = Some btcDel \<and> HasCovenantQuorum btcDel (CovenantQuorum p) = Ok True))"
proof (intro conjI allI impI)
  assume q: "HasCovenantQuorum d (CovenantQuorum p) = Ok True"
  then obtain ud where ud: "BtcUndelegation d = Some ud"
    by (auto simp: HasCovenantQuorum_def split: option.splits if_splits)
  have "list_all2 (\<lambda>d s. decision S ce p sk d = Ok (Some s)) (map Some before) sigs"
    using assms(4) by (simp add: list_all2_map1 decide_signed_iff)
  then have "decideAll (decision S ce p sk) (map Some before @ Some d # after) = Ok None"
  proof (induction rule: list_all2_induct)
    case Nil
    with q ud show ?case by (simp add: decideAll_Cons decide_def)
  next
    case (Cons x xs y ys)
    then show ?case by (simp add: decideAll_Cons)
  qed
  then show "\<exists>w'. AddCovenantSignatures S K ce (map Some before @ Some d # after) w = (Ok None, w') \<and>
      sent w' = sent w"
    using collectSigs_decideAll [OF assms(1-3), of S "[]" "map Some before @ Some d # after"]
    by (auto simp: AddCovenantSignatures_def finish_def)
next
  fix dels w'
  assume "AddCovenantSignatures S K ce dels w = (Ok None, w')"
  then have "\<exists>acc. collectSigs S K ce acc dels w = (Ok None, w')"
    by (auto simp: AddCovenantSignatures_def split: if_splits)
  then show "\<exists>d \<in> set dels. \<exists>btcDel. d = Some btcDel \<and> HasCovenantQuorum btcDel (CovenantQuorum p) = Ok True"
  proof (induction dels arbitrary: w)
    case Nil
    then show ?case by (auto simp: run_iffs)
  next
    case (Cons d dels)
    then show ?case
      using assms(1)
      by (fastforce simp: run_iffs signDelegation_def Let_def split: option.splits if_splits)
  qed
qed

definition sample_finished :: Delegation where
  "sample_finished = sample_delegation\<lparr>CovenantSigs_del := replicate 2 \<lparr>Pk = PublicKey [7], Sigs = []\<rparr>,
     BtcUndelegation := Some (sample_undelegation\<lparr>CovenantUnbondingSigs :=
     replicate 2 \<lparr>Pk_schnorr = PublicKey [7], Sig = SchnorrSignature [8]\<rparr>\<rparr>)\<rparr>"

theorem quorum_drops_batch_witness:
  "\<exists>w'. AddCovenantSignatures sample_signing sample_keyring sample_emulator
      [Some sample_delegation, Some sample_finished, Some sample_delegation] sample_run = (Ok None, w') \<and>
    sent w' = sent sample_run"
proof -
  have p: "params sample_emulator = Some sample_params" by (simp add: sample_emulator_def)
  have "HasCovenantQuorum sample_finished (CovenantQuorum sample_params) = Ok True"
    by (simp add: sample_finished_def sample_params_def HasCovenantQuorum_def HasAllSignatures_def
        HasCovenantQuorumOnSlashing_def HasCovenantQuorumOnUnbonding_def)
  then show ?thesis
    using quorum_drops_batch [OF p sample_has_key sample_wired, where S = sample_signing
        and before = "[sample_delegation]" and sigs = "[sample_sigs]" and d = sample_finished
        and after = "[Some sample_delegation]"] sample_vouch
    by (simp add: sample_emulator_def sample_config_def)
qed

text \<open>
  \<open>at_timelock t S\<close>: the Bitcoin libraries, made to panic when they are asked about any other unbonding
  timelock than \<open>t\<close>.
\<close>

definition at_timelock :: "u16 \<Rightarrow> signing_lib \<Rightarrow> signing_lib" where
  "at_timelock t S = S\<lparr>
     CheckTransactions := (\<lambda>a b c d e f g u net.
       if u = t then CheckTransactions S a b c d e f g u net else Panic ''other timelock''),
     BuildUnbondingInfo := (\<lambda>a b c d u e net.
       if u = t then BuildUnbondingInfo S a b c d u e net else Panic ''other timelock'')\<rparr>"

lemma at_timelock_steps:
  assumes "ucast (UnbondingTime d) = t"
  shows "checkStakingTxs (at_timelock t S) net p d = checkStakingTxs S net p d"
    "checkUnbondingTxs (at_timelock t S) net p d ud = checkUnbondingTxs S net p d ud"
    "signTxs (at_timelock t S) net p covPk sk d ud staking unbonding = signTxs S net p covPk sk d ud staking unbonding"
  using assms
  by (simp_all add: checkStakingTxs_def checkUnbondingTxs_def signTxs_def encSignAll_def at_timelock_def)

text \<open>
  C19: The unbonding time of a delegation is compared with the minimum at its full 32 bits, but everything
  that is checked and rebuilt on its transactions uses its remainder modulo 65536 as the timelock \<open>t\<close>: the
  libraries are asked about no other timelock, whatever the parameters are; and when the delegation is
  signed, both of its transaction pairs were accepted and its unbonding output was built for \<open>t\<close>. A delegation that
  declares 65536 + t blocks is signed as one with a timelock of t, which may be below the minimum.
\<close>

theorem timelock_truncated:
  assumes "unat (t :: u16) = unat (UnbondingTime d) mod 65536"
  shows "signDelegation (at_timelock t S) K ce (Some d) = signDelegation S K ce (Some d) \<and>
    (\<forall>p w sigs w'. params ce = Some p \<and> signDelegation S K ce (Some d) w = (Ok (Some sigs), w') \<longrightarrow>
       MinUnbondingTime p < UnbondingTime d \<and>
       (\<exists>slashing staking unbondingSlashing unbonding value info.
          CheckTransactions S slashing staking (StakingOutputIdx d) (MinSlashingTxFeeSat p) (SlashingRate p)
            (SlashingAddress p) (BtcPk d) t (BTCNetParams (config ce)) = Ok () \<and>
          CheckTransactions S unbondingSlashing unbonding 0 (MinSlashingTxFeeSat p) (SlashingRate p)
            (SlashingAddress p) (BtcPk d) t (BTCNetParams (config ce)) = Ok () \<and>
          BuildUnbondingInfo S (BtcPk d) (FpBtcPks d) (CovenantPks p) (CovenantQuorum p) t value
            (BTCNetParams (config ce)) = Ok info))"
proof -
  have "unat (ucast (UnbondingTime d) :: u16) = unat t" using assms by (simp add: unat_ucast_mod)
  then have t: "ucast (UnbondingTime d) = t" by (simp only: word_unat_eq_iff)
  have "MinUnbondingTime p < UnbondingTime d \<and>
       (\<exists>slashing staking unbondingSlashing unbonding value info.
          CheckTransactions S slashing staking (StakingOutputIdx d) (MinSlashingTxFeeSat p) (SlashingRate p)
            (SlashingAddress p) (BtcPk d) t (BTCNetParams (config ce)) = Ok () \<and>
          CheckTransactions S unbondingSlashing unbonding 0 (MinSlashingTxFeeSat p) (SlashingRate p)
            (SlashingAddress p) (BtcPk d) t (BTCNetParams (config ce)) = Ok () \<and>
          BuildUnbondingInfo S (BtcPk d) (FpBtcPks d) (CovenantPks p) (CovenantQuorum p) t value
            (BTCNetParams (config ce)) = Ok info)"
    if "params ce = Some p" "signDelegation S K ce (Some d) w = (Ok (Some sigs), w')" for p w sigs w'
    using signDelegation_vouched [OF that(2)] that(1)
    by (auto simp: vouched_def approved_def checked_pair_def answers_def t)
  moreover have "signDelegation (at_timelock t S) K ce (Some d) = signDelegation S K ce (Some d)"
    unfolding signDelegation_def option.case at_timelock_steps [OF t] ..
  ultimately show ?thesis by blast
qed

theorem timelock_truncated_witness:
  "\<exists>w'. signDelegation sample_signing sample_keyring sample_emulator (Some (sample_delegation\<lparr>UnbondingTime := 65537\<rparr>)) sample_run =
       (Ok (Some sample_sigs), w') \<and>
     signDelegation (at_timelock 1 sample_signing) sample_keyring sample_emulator
       (Some (sample_delegation\<lparr>UnbondingTime := 65537\<rparr>)) sample_run = (Ok (Some sample_sigs), w') \<and>
     unat (MinUnbondingTime sample_params) = 100"
proof -
  let ?d = "sample_delegation\<lparr>UnbondingTime := 65537\<rparr>"
  have "decision sample_signing sample_emulator sample_params (PrivateKey [5]) (Some ?d) = Ok (Some sample_sigs)"
    by (simp add: decide_def sample_delegation_def sample_undelegation_def sample_params_def
        HasCovenantQuorum_def HasAllSignatures_def HasCovenantQuorumOnSlashing_def
        HasCovenantQuorumOnUnbonding_def checkStakingTxs_def checkUnbondingTxs_def firstOutputValue_def
        signTxs_def GetStakingTime_def encSignAll_def sample_signing_def sample_tx_def sample_sigs_def
        sample_emulator_def)
  moreover have "params sample_emulator = Some sample_params" by (simp add: sample_emulator_def)
  ultimately obtain w' where "signDelegation sample_signing sample_keyring sample_emulator (Some ?d) sample_run =
      (Ok (Some sample_sigs), w')"
    using signDelegation_decide [OF _ sample_has_key sample_wired, of sample_params sample_signing "Some ?d"] by metis
  moreover have "unat (1 :: u16) = unat (UnbondingTime ?d) mod 65536" by simp
  ultimately show ?thesis
    using timelock_truncated [of 1 ?d sample_signing sample_keyring sample_emulator]
    by (simp add: sample_params_def)
qed

text \<open>\<open>quiet S\<close>: no function of the Bitcoin libraries panics.\<close>

definition quiet :: "signing_lib \<Rightarrow> bool" where
  "quiet S \<longleftrightarrow>
     (\<forall>h q. NewBTCTxFromHex S h \<noteq> Panic q) \<and> (\<forall>h q. NewBTCSlashingTxFromHex S h \<noteq> Panic q) \<and>
     (\<forall>t q. ToMsgTx S t \<noteq> Panic q) \<and>
     (\<forall>a b c d e f g h i q. CheckTransactions S a b c d e f g h i \<noteq> Panic q) \<and>
     (\<forall>a b c d e f g q. BuildStakingInfo S a b c d e f g \<noteq> Panic q) \<and>
     (\<forall>a b c d e f g q. BuildUnbondingInfo S a b c d e f g \<noteq> Panic q) \<and>
     (\<forall>i q. StakingSlashingPath S i \<noteq> Panic q) \<and> (\<forall>i q. StakingUnbondingPath S i \<noteq> Panic q) \<and>
     (\<forall>i q. UnbondingSlashingPath S i \<noteq> Panic q) \<and>
     (\<forall>k q. NewEncryptionKeyFromBTCPK S k \<noteq> Panic q) \<and>
     (\<forall>a b c d e f q. EncSign S a b c d e f \<noteq> Panic q) \<and> (\<forall>a q. MustMarshal S a \<noteq> Panic q) \<and>
     (\<forall>a b c d e q. SignTxWithOneScriptSpendInputStrict S a b c d e \<noteq> Panic q)"

lemma case_CachedKey_Ok_iff:
  "(case c of Secp256k1PrivKey key \<Rightarrow> Ok key | OtherPrivKey \<Rightarrow> Err e) = Ok k \<longleftrightarrow> c = Secp256k1PrivKey k"
  by (cases c) auto

lemma quiet_checkStakingTxs: "quiet S \<Longrightarrow> checkStakingTxs S net p d \<noteq> Panic q"
  by (simp add: checkStakingTxs_def quiet_def bindR_Panic_iff)

lemma firstOutputValue_Panic_iff: "firstOutputValue tx = Panic q \<longleftrightarrow> TxOuts tx = [] \<and> q = index_out_of_range"
  by (cases "TxOuts tx") (auto simp: firstOutputValue_def)

lemma quiet_checkUnbondingTxs:
  "quiet S \<Longrightarrow> checkUnbondingTxs S net p d ud = Panic q \<Longrightarrow>
     q = index_out_of_range \<and> (\<exists>tx. NewBTCTxFromHex S (UnbondingTxHex ud) = Ok tx \<and> TxOuts tx = [])"
  by (auto simp: checkUnbondingTxs_def quiet_def bindR_Panic_iff firstOutputValue_Panic_iff)

lemma quiet_encSignAll: "quiet S \<Longrightarrow> encSignAll S tx f i script sk fps \<noteq> Panic q"
  unfolding encSignAll_def by (rule mapR_no_panic) (simp add: quiet_def bindR_Panic_iff)

lemma quiet_signTxs:
  "quiet S \<Longrightarrow> signTxs S net p covPk sk d ud staking unbonding = Panic q \<Longrightarrow> GetStakingTime d = Panic q"
  using quiet_encSignAll [of S]
  by (auto simp: signTxs_def quiet_def bindR_Panic_iff split: prod.splits)

lemma quorum_no_panic: "BtcUndelegation d = Some ud \<Longrightarrow> HasCovenantQuorum d n \<noteq> Panic q"
  by (simp add: HasCovenantQuorum_def)

text \<open>
  C16: With parameters fetched, a key available and libraries that do not panic, handling a delegation
  panics in two cases only: its unbonding transaction has no output, or its heights are more than
  65535 blocks apart. A nil delegation or a nil undelegation is an error, not a panic.
\<close>

theorem signDelegation_panics_only:
  assumes "quiet S" and "params ce = Some p" and "has_key K ce sk" and "wired (kc ce) w"
    and "signDelegation S K ce del w = (Panic q, w')"
  shows "\<exists>d ud. del = Some d \<and> BtcUndelegation d = Some ud \<and>
    (q = index_out_of_range \<and> (\<exists>tx. NewBTCTxFromHex S (UnbondingTxHex ud) = Ok tx \<and> TxOuts tx = []) \<or>
     GetStakingTime d = Panic q)"
proof -
  obtain w1 where "signDelegation S K ce del w = (decision S ce p sk del, w1)"
    using assms(2-4) by (rule signDelegation_decide)
  with assms(5) have "decision S ce p sk del = Panic q" by simp
  then show ?thesis
    using quiet_checkStakingTxs [OF assms(1)] quorum_no_panic
    by (auto simp: decide_def bindR_Panic_iff split: option.splits if_splits
        dest: quiet_checkUnbondingTxs [OF assms(1)] quiet_signTxs [OF assms(1)])
qed

definition sample_signing_no_outputs :: signing_lib where
  "sample_signing_no_outputs = sample_signing\<lparr>NewBTCTxFromHex := (\<lambda>h. Ok \<lparr>TxOuts = [], TxRest = []\<rparr>)\<rparr>"

theorem signDelegation_panics_only_witness:
  "\<exists>q w'. signDelegation sample_signing_no_outputs sample_keyring sample_emulator (Some sample_delegation) sample_run
       = (Panic q, w') \<and> (q = index_out_of_range \<or> GetStakingTime sample_delegation = Panic q)"
proof -
  have q: "quiet sample_signing_no_outputs"
    by (simp add: quiet_def sample_signing_no_outputs_def sample_signing_def
        split: BTCSlashingTx.split EncryptionKey.split AdaptorSignature.split PublicKey.split)
  have p: "params sample_emulator = Some sample_params" by (simp add: sample_emulator_def)
  have "\<exists>q w'. signDelegation sample_signing_no_outputs sample_keyring sample_emulator
      (Some sample_delegation) sample_run = (Panic q, w')"
    by (simp add: signDelegation_def sample_delegation_def sample_undelegation_def sample_params_def
        sample_emulator_def HasCovenantQuorum_def HasAllSignatures_def HasCovenantQuorumOnSlashing_def
        HasCovenantQuorumOnUnbonding_def checkStakingTxs_def checkUnbondingTxs_def firstOutputValue_def
        sample_signing_no_outputs_def sample_signing_def)
  then obtain q w' where r: "signDelegation sample_signing_no_outputs sample_keyring sample_emulator
      (Some sample_delegation) sample_run = (Panic q, w')" by blast
  from signDelegation_panics_only [OF q p sample_has_key sample_wired r] r show ?thesis by auto
qed

lemma NewCovenantEmulator_run:
  assumes "NewCovenantEmulator K conf ctl pass w = (Ok ce, w')"
  shows "wired (kc ce) w' \<and> fpName (kc ce) = Key (BabylonConfig conf) \<and> passphrase ce = pass \<and>
    cc ce = ctl \<and> config ce = conf \<and> params ce = None \<and> sent w' = sent w \<and>
    (\<exists>rec rest x x' key.
       keyring_Key K (kr_handle (kr (kc ce))) (Key (BabylonConfig conf)) pass x = ((Ok rec, rest), x') \<and>
       GetCachedPrivKey K rec = Ok (Secp256k1PrivKey key) \<and>
       ParsePubKey K (PubKeyBytes K key) = Ok (pk ce))"
proof -
  from assms obtain inp w1 k w2 ctr key where
      r: "NewReader [] w = (Ok inp, w1)"
         "CreateKeyring K (KeyDirectory (BabylonConfig conf)) (ChainID_cfg (BabylonConfig conf))
            (KeyringBackend (BabylonConfig conf)) inp w1 = (Ok k, w2)"
         "NewChainKeyringControllerWithKeyring k (Key (BabylonConfig conf)) inp = Ok ctr"
         "GetChainPrivKey K ctr pass w2 = (Ok key, w')"
         "ParsePubKey K (PubKeyBytes K key) = Ok (pk ce)"
    and ce: "kc ce = ctr" "passphrase ce = pass" "cc ce = ctl" "config ce = conf" "params ce = None"
    by (auto simp: NewCovenantEmulator_def Let_def run_iffs)
  have k: "kr_input k = inp" "length (readers w2) = length (readers w1)" "sent w2 = sent w1"
    using CreateKeyring_input [OF r(2)] keepsD [OF CreateKeyring_frame(3) r(2)]
      keepsD [OF CreateKeyring_frame(1) r(2)]
    by simp_all
  have w1: "inp < length (readers w1)" "sent w1 = sent w"
    using r(1) by (auto simp: NewReader_def sent_def)
  have ctr: "kr ctr = k" "input ctr = inp" "fpName ctr = Key (BabylonConfig conf)"
    using r(3) by (auto simp: NewChainKeyringControllerWithKeyring_def split: if_splits)
  have w: "wired ctr w2" using k w1 ctr by (simp add: wired_def)
  obtain x rest x' where x: "keyring_Key K (kr_handle k) (Key (BabylonConfig conf)) pass (ext w2) = ((x, rest), x')"
    by (metis prod.collapse)
  with GetChainPrivKey_run [OF w, of K pass x rest x'] r(4) ctr
  have "bindR (wrapR ''failed to get private key'' x) (\<lambda>rec. bindR (GetCachedPrivKey K rec)
      (\<lambda>c. case c of Secp256k1PrivKey key \<Rightarrow> Ok key | OtherPrivKey \<Rightarrow> Err unsupported_key)) = Ok key"
    by simp
  then obtain rec where "x = Ok rec" "GetCachedPrivKey K rec = Ok (Secp256k1PrivKey key)"
    by (auto simp: run_iffs case_CachedKey_Ok_iff)
  moreover have "wired ctr w'" "sent w' = sent w2"
    using keepsD [OF GetChainPrivKey_frame(5) r(4)] keepsD [OF GetChainPrivKey_frame(2) r(4)] w
    by (simp_all add: wired_def)
  ultimately show ?thesis using ce ctr x r(5) k w1 by auto
qed

text \<open>
  C20: An emulator that \<^verbatim>\<open>NewCovenantEmulator\<close> returns can reach its key: its controller resets the
  very reader its keyring reads from, its passphrase is the given one, and its public key is that of
  the secp256k1 key which the keyring gave out, under the configured name, for that passphrase. No
  transaction is sent, and the parameters are not fetched yet.
\<close>

theorem NewCovenantEmulator_ready:
  assumes "NewCovenantEmulator K conf ctl pass w = (Ok ce, w')"
  shows "wired (kc ce) w' \<and> fpName (kc ce) = Key (BabylonConfig conf) \<and> passphrase ce = pass \<and>
    cc ce = ctl \<and> config ce = conf \<and> params ce = None \<and> sent w' = sent w \<and>
    (\<exists>rec rest x x' key.
       keyring_Key K (kr_handle (kr (kc ce))) (Key (BabylonConfig conf)) pass x = ((Ok rec, rest), x') \<and>
       GetCachedPrivKey K rec = Ok (Secp256k1PrivKey key) \<and>
       ParsePubKey K (PubKeyBytes K key) = Ok (pk ce))"
  using assms by (rule NewCovenantEmulator_run)

theorem NewCovenantEmulator_ready_witness:
  "\<exists>ce w'. NewCovenantEmulator sample_keyring sample_config (cc sample_emulator) ''secret'' sample_world = (Ok ce, w') \<and>
     wired (kc ce) w' \<and> params ce = None"
proof -
  have "\<exists>ce w'. NewCovenantEmulator sample_keyring sample_config (cc sample_emulator) ''secret'' sample_world = (Ok ce, w')"
    by (simp add: NewCovenantEmulator_def CreateKeyring_def CreateClientCtx_def
        NewChainKeyringControllerWithKeyring_def GetChainPrivKey_def sample_keyring_def sample_config_def
        sample_bbn_config_def sample_world_def bindP_def wrapP_def NewReader_def Reset_def reading_call_def
        ext_call_def)
  then obtain ce w' where ce: "NewCovenantEmulator sample_keyring sample_config (cc sample_emulator)
      ''secret'' sample_world = (Ok ce, w')" by blast
  from NewCovenantEmulator_ready [OF ce] ce show ?thesis by blast
qed

end
