(* ===== verification/Emulator.thy ===== *)
theory Emulator
  imports Signing "HOL-Library.Sublist"
begin

text \<open>
  The second half of covenant.go: refreshing the staking parameters with retries, filtering and
  batching the pending delegations, and one round of \<^verbatim>\<open>covenantSigSubmissionLoop\<close>, from the tick of
  its timer to the next select. The state of a round is the emulator, whose parameters change, and
  the world. Starting and stopping the loop is theory \<open>Lifecycle\<close>.
\<close>

section \<open>getParamsWithRetry, UpdateParams\<close>

definition RtyAttNum :: nat where "RtyAttNum = 5"
definition RtyDel :: i64 where "RtyDel = 400 * 1000000"
definition RtyErr :: bool where "RtyErr = True"

text \<open>
  The parameter \<open>R\<close> is \<^verbatim>\<open>retry.Do\<close> with its options: the number of attempts, the delay, and whether
  only the last error is returned. It runs a closure over the variables it captures.
\<close>

type_synonym 's retrier = "nat \<Rightarrow> i64 \<Rightarrow> bool \<Rightarrow> ('s, unit) prog \<Rightarrow> ('s, unit) prog"

definition queryParams :: "'x CovenantEmulator \<Rightarrow> (StakingParams option \<times> 'x world, unit) prog" where
  "queryParams ce s =
     (case s of (old, w) \<Rightarrow>
      case QueryStakingParams_cc (cc ce) w of
        (Ok p, w') \<Rightarrow> (Ok (), (Some p, w'))
      | (Err e, w') \<Rightarrow> (Err e, (None, w'))
      | (Panic q, w') \<Rightarrow> (Panic q, (old, w')))"

definition getParamsWithRetry ::
    "(StakingParams option \<times> 'x world) retrier \<Rightarrow> 'x CovenantEmulator \<Rightarrow> ('x world, StakingParams option) prog" where
  "getParamsWithRetry R ce w =
     (case R RtyAttNum RtyDel RtyErr (queryParams ce) (None, w) of
        (Ok _, (p, w')) \<Rightarrow> (Ok p, w')
      | (Err e, (_, w')) \<Rightarrow> (Err e, w')
      | (Panic q, (_, w')) \<Rightarrow> (Panic q, w'))"

definition UpdateParams ::
    "(StakingParams option \<times> 'x world) retrier \<Rightarrow> ('x CovenantEmulator \<times> 'x world, unit) prog" where
  "UpdateParams R s =
     (case s of (ce, w) \<Rightarrow>
      case getParamsWithRetry R ce w of
        (Ok p, w') \<Rightarrow> (Ok (), (ce\<lparr>params := p\<rparr>, w'))
      | (Err e, w') \<Rightarrow> (Err e, (ce, w'))
      | (Panic q, w') \<Rightarrow> (Panic q, (ce, w')))"

section \<open>delegationsToBatches, removeAlreadySigned\<close>

text \<open>\<^verbatim>\<open>dels[i:end]\<close>, and the loop over a 64-bit index that may wrap around: \<open>None\<close> is not returning.\<close>

definition slice :: "'a list \<Rightarrow> u64 \<Rightarrow> u64 \<Rightarrow> 'a list res" where
  "slice xs i e =
     (if i \<le> e \<and> unat e \<le> length xs then Ok (take (unat e - unat i) (drop (unat i) xs))
      else Panic ''slice bounds out of range'')"

partial_function (option) batches_loop ::
    "u64 \<Rightarrow> 'a list \<Rightarrow> u64 \<Rightarrow> 'a list list \<Rightarrow> 'a list list res option" where
  "batches_loop batchSize dels i batches =
     (if \<not> i < of_nat (length dels) then Some (Ok batches)
      else
        (case slice dels i (if of_nat (length dels) < i + batchSize then of_nat (length dels) else i + batchSize) of
           Ok b \<Rightarrow> batches_loop batchSize dels (i + batchSize) (batches @ [b])
         | Err e \<Rightarrow> Some (Err e)
         | Panic q \<Rightarrow> Some (Panic q)))"

definition delegationsToBatches ::
    "'x CovenantEmulator \<Rightarrow> Delegation option list \<Rightarrow> Delegation option list list res option" where
  "delegationsToBatches ce dels = batches_loop (SigsBatchSize (config ce)) dels 0 []"

primrec alreadySigned :: "signing_lib \<Rightarrow> PublicKey \<Rightarrow> CovenantAdaptorSigInfo list \<Rightarrow> bool" where
  "alreadySigned S covPk [] = False"
| "alreadySigned S covPk (covSig # sigs) =
     (if SerializePubKey S (Pk covSig) = SerializePubKey S covPk then True else alreadySigned S covPk sigs)"

text \<open>Reading the signatures of a nil delegation panics.\<close>

primrec sanitize ::
    "signing_lib \<Rightarrow> PublicKey \<Rightarrow> Delegation option list \<Rightarrow> Delegation option list \<Rightarrow> Delegation option list res" where
  "sanitize S covPk sanitized [] = Ok sanitized"
| "sanitize S covPk sanitized (del # dels) =
     (case del of
        None \<Rightarrow> Panic nil_deref
      | Some d \<Rightarrow>
          if alreadySigned S covPk (CovenantSigs_del d) then sanitize S covPk sanitized dels
          else sanitize S covPk (sanitized @ [del]) dels)"

definition removeAlreadySigned ::
    "signing_lib \<Rightarrow> 'x CovenantEmulator \<Rightarrow> Delegation option list \<Rightarrow> Delegation option list res" where
  "removeAlreadySigned S ce dels = sanitize S (pk ce) [] dels"

section \<open>One round of the submission loop\<close>

text \<open>An error of a batch is logged and the next batch is handled; a panic ends the daemon.\<close>

primrec submitBatches ::
    "signing_lib \<Rightarrow> 'x keyring_lib \<Rightarrow> 'x CovenantEmulator \<Rightarrow> Delegation option list list \<Rightarrow> ('x world, unit) prog" where
  "submitBatches S K ce [] = returnP ()"
| "submitBatches S K ce (delBatch # batches) = (\<lambda>w.
     case AddCovenantSignatures S K ce delBatch w of
       (Panic q, w') \<Rightarrow> (Panic q, w')
     | (_, w') \<Rightarrow> submitBatches S K ce batches w')"

definition tick ::
    "signing_lib \<Rightarrow> 'x keyring_lib \<Rightarrow> (StakingParams option \<times> 'x world) retrier \<Rightarrow>
       'x CovenantEmulator \<times> 'x world \<Rightarrow> (unit res \<times> ('x CovenantEmulator \<times> 'x world)) option" where
  "tick S K R s =
     (case UpdateParams R s of
        (Err e, s1) \<Rightarrow> Some (Ok (), s1)
      | (Panic q, s1) \<Rightarrow> Some (Panic q, s1)
      | (Ok _, (ce, w)) \<Rightarrow>
     (case QueryPendingDelegations_cc (cc ce) (DelegationLimit (config ce)) w of
        (Err e, w') \<Rightarrow> Some (Ok (), (ce, w'))
      | (Panic q, w') \<Rightarrow> Some (Panic q, (ce, w'))
      | (Ok dels, w') \<Rightarrow>
     (case removeAlreadySigned S ce dels of
        Err e \<Rightarrow> Some (Err e, (ce, w'))
      | Panic q \<Rightarrow> Some (Panic q, (ce, w'))
      | Ok sanitizedDels \<Rightarrow>
     (case delegationsToBatches ce sanitizedDels of
        None \<Rightarrow> None
      | Some (Err e) \<Rightarrow> Some (Err e, (ce, w'))
      | Some (Panic q) \<Rightarrow> Some (Panic q, (ce, w'))
      | Some (Ok batches) \<Rightarrow>
          (case submitBatches S K ce batches w' of (r, w'') \<Rightarrow> Some (r, (ce, w'')))))))"

section \<open>Retrying\<close>

text \<open>
  What \<^verbatim>\<open>retry.Do\<close> documents: the closure runs until it succeeds, at most the given number of times;
  with \<^verbatim>\<open>LastErrorOnly\<close> the error is that of the last attempt. \<open>attempts n\<close> allows \<open>n\<close> further attempts.
\<close>

primrec attempts :: "nat \<Rightarrow> ('s, unit) prog \<Rightarrow> ('s, unit) prog" where
  "attempts 0 f s = f s"
| "attempts (Suc n) f s = (case f s of (Err e, s') \<Rightarrow> attempts n f s' | r \<Rightarrow> r)"

definition retries :: "'s retrier \<Rightarrow> bool" where
  "retries R \<longleftrightarrow> (\<forall>n delay f s. R (Suc n) delay True f s = attempts n f s)"

text \<open>\<open>failing ce n w w'\<close>: \<open>n\<close> queries of the parameters in a row fail, and lead from \<open>w\<close> to \<open>w'\<close>.\<close>

primrec failing :: "'x CovenantEmulator \<Rightarrow> nat \<Rightarrow> 'x world \<Rightarrow> 'x world \<Rightarrow> bool" where
  "failing ce 0 w w' \<longleftrightarrow> w' = w"
| "failing ce (Suc n) w w' \<longleftrightarrow> (\<exists>e w1. QueryStakingParams_cc (cc ce) w = (Err e, w1) \<and> failing ce n w1 w')"

lemma queryParams_run:
  "queryParams ce (old, w) =
     (case QueryStakingParams_cc (cc ce) w of
        (Ok p, w') \<Rightarrow> (Ok (), (Some p, w'))
      | (Err e, w') \<Rightarrow> (Err e, (None, w'))
      | (Panic q, w') \<Rightarrow> (Panic q, (old, w')))"
  by (simp add: queryParams_def)

text \<open>The last query, from \<open>w1\<close>, settles the result; it may fail only if no attempt is left.\<close>

definition settles ::
    "'x CovenantEmulator \<Rightarrow> bool \<Rightarrow> 'x world \<Rightarrow> unit res \<Rightarrow> StakingParams option \<Rightarrow> 'x world \<Rightarrow> bool" where
  "settles ce final w1 r p w' \<longleftrightarrow>
     (case QueryStakingParams_cc (cc ce) w1 of
        (Ok p', w2) \<Rightarrow> r = Ok () \<and> p = Some p' \<and> w' = w2
      | (Err e, w2) \<Rightarrow> final \<and> r = Err e \<and> w' = w2
      | (Panic q, w2) \<Rightarrow> r = Panic q \<and> w' = w2)"

lemma attempts_queryParams:
  assumes "attempts n (queryParams ce) (old, w) = (r, (p, w'))"
  shows "\<exists>k w1. k \<le> n \<and> failing ce k w w1 \<and> settles ce (k = n) w1 r p w'"
  using assms
proof (induction n arbitrary: old w)
  case 0
  then have "settles ce True w r p w'"
    by (auto simp: settles_def queryParams_run split: prod.splits res.splits)
  then show ?case by simp
next
  case (Suc n)
  obtain x w1 where x: "QueryStakingParams_cc (cc ce) w = (x, w1)" by fastforce
  show ?case
  proof (cases "\<exists>e. x = Err e")
    case True
    then obtain e where e: "x = Err e" by blast
    with x Suc.prems have "attempts n (queryParams ce) (None, w1) = (r, (p, w'))"
      by (simp add: queryParams_run)
    from Suc.IH [OF this] obtain k w2 where
        "k \<le> n" "failing ce k w1 w2" "settles ce (k = n) w2 r p w'"
      by blast
    with x e have "Suc k \<le> Suc n \<and> failing ce (Suc k) w w2 \<and> settles ce (Suc k = Suc n) w2 r p w'"
      by simp
    then show ?thesis by blast
  next
    case False
    with x Suc.prems have "settles ce False w r p w'"
      by (cases x) (simp_all add: settles_def queryParams_run)
    then have "0 \<le> Suc n \<and> failing ce 0 w w \<and> settles ce (0 = Suc n) w r p w'" by simp
    then show ?thesis by blast
  qed
qed

lemma UpdateParams_run:
  assumes "retries R"
  shows "\<exists>k < 5. \<exists>w1. failing ce k w w1 \<and>
    (case QueryStakingParams_cc (cc ce) w1 of
       (Ok p, w2) \<Rightarrow> UpdateParams R (ce, w) = (Ok (), (ce\<lparr>params := Some p\<rparr>, w2))
     | (Err e, w2) \<Rightarrow> k = 4 \<and> UpdateParams R (ce, w) = (Err e, (ce, w2))
     | (Panic q, w2) \<Rightarrow> UpdateParams R (ce, w) = (Panic q, (ce, w2)))"
proof -
  obtain r p w' where run: "attempts 4 (queryParams ce) (None, w) = (r, (p, w'))"
    by (metis prod.collapse)
  have five: "RtyAttNum = Suc 4" by (simp add: RtyAttNum_def)
  have "R (Suc 4) RtyDel True (queryParams ce) (None, w) = attempts 4 (queryParams ce) (None, w)"
    using assms unfolding retries_def by blast
  then have "R RtyAttNum RtyDel RtyErr (queryParams ce) (None, w) = (r, (p, w'))"
    unfolding RtyErr_def five run by (simp only: simp_thms)
  then have upd: "UpdateParams R (ce, w) =
      (case r of Ok _ \<Rightarrow> (Ok (), (ce\<lparr>params := p\<rparr>, w')) | Err e \<Rightarrow> (Err e, (ce, w')) | Panic q \<Rightarrow> (Panic q, (ce, w')))"
    by (simp add: UpdateParams_def getParamsWithRetry_def split: res.split)
  from attempts_queryParams [OF run] obtain k w1 where
      k: "k \<le> 4" "failing ce k w w1" "settles ce (k = 4) w1 r p w'"
    by blast
  obtain x w2 where x: "QueryStakingParams_cc (cc ce) w1 = (x, w2)" by fastforce
  show ?thesis
  proof (intro exI [of _ k] exI [of _ w1] conjI)
    show "k < 5" using k(1) by simp
    show "failing ce k w w1" by (rule k(2))
    show "case QueryStakingParams_cc (cc ce) w1 of
         (Ok p, w2) \<Rightarrow> UpdateParams R (ce, w) = (Ok (), (ce\<lparr>params := Some p\<rparr>, w2))
       | (Err e, w2) \<Rightarrow> k = 4 \<and> UpdateParams R (ce, w) = (Err e, (ce, w2))
       | (Panic q, w2) \<Rightarrow> UpdateParams R (ce, w) = (Panic q, (ce, w2))"
      using k(3) upd x by (cases x) (simp_all add: settles_def)
  qed
qed

text \<open>
  C17: \<^verbatim>\<open>UpdateParams\<close> queries the chain at most five times. It succeeds as soon as one query does, and
  the emulator then holds the parameters of that query; if all five fail it returns the error of the
  fifth and the emulator keeps the parameters it had.
\<close>

theorem UpdateParams_outcome:
  assumes "retries R"
  shows "\<exists>k < 5. \<exists>w1. failing ce k w w1 \<and>
    (case QueryStakingParams_cc (cc ce) w1 of
       (Ok p, w2) \<Rightarrow> UpdateParams R (ce, w) = (Ok (), (ce\<lparr>params := Some p\<rparr>, w2))
     | (Err e, w2) \<Rightarrow> k = 4 \<and> UpdateParams R (ce, w) = (Err e, (ce, w2))
     | (Panic q, w2) \<Rightarrow> UpdateParams R (ce, w) = (Panic q, (ce, w2)))"
  using assms by (rule UpdateParams_run)

text \<open>\<^verbatim>\<open>retry.Do\<close> as documented, for a positive number of attempts.\<close>

definition sample_retry :: "'s retrier" where
  "sample_retry n delay lastErrorOnly f = attempts (n - 1) f"

lemma sample_retries: "retries sample_retry"
  by (simp add: retries_def sample_retry_def)

theorem UpdateParams_outcome_witness:
  "\<exists>w1. failing (sample_emulator\<lparr>params := None\<rparr>) 0 sample_run w1 \<and>
     UpdateParams sample_retry (sample_emulator\<lparr>params := None\<rparr>, sample_run) =
       (Ok (), (sample_emulator, snd (QueryStakingParams sample_bbn sample_bc w1)))"
proof -
  let ?ce = "sample_emulator\<lparr>params := None\<rparr>"
  have q: "fst (QueryStakingParams sample_bbn sample_bc w) = Ok sample_params" for w
    by (simp add: QueryStakingParams_def bindP_def wrap_v_def node_call_def ext_call_def sample_bbn_def
        sample_bc_def sample_params_def replace_err_def)
  have c: "QueryStakingParams_cc (cc sample_emulator) = QueryStakingParams sample_bbn sample_bc"
    by (simp add: sample_emulator_def babylon_cc_def)
  obtain k w1 where k: "failing ?ce k sample_run w1"
      "case QueryStakingParams_cc (cc ?ce) w1 of
         (Ok p, w2) \<Rightarrow> UpdateParams sample_retry (?ce, sample_run) = (Ok (), (?ce\<lparr>params := Some p\<rparr>, w2))
       | (Err e, w2) \<Rightarrow> k = 4 \<and> UpdateParams sample_retry (?ce, sample_run) = (Err e, (?ce, w2))
       | (Panic q, w2) \<Rightarrow> UpdateParams sample_retry (?ce, sample_run) = (Panic q, (?ce, w2))"
    using UpdateParams_outcome [OF sample_retries, of ?ce sample_run] by (elim exE conjE)
  have "k = 0"
    using k(1) q [of sample_run] by (cases k) (auto simp: c)
  moreover obtain w2 where "QueryStakingParams sample_bbn sample_bc w1 = (Ok sample_params, w2)"
    using q [of w1] by (metis prod.collapse)
  moreover have "sample_emulator\<lparr>params := Some sample_params\<rparr> = sample_emulator"
    by (simp add: sample_emulator_def)
  ultimately show ?thesis using k by (auto simp: c)
qed

section \<open>Batches\<close>

text \<open>The reference: pieces of \<open>n\<close> elements, the last one possibly shorter.\<close>

function chunks :: "nat \<Rightarrow> 'a list \<Rightarrow> 'a list list" where
  "chunks n xs = (if n = 0 \<or> xs = [] then [] else take n xs # chunks n (drop n xs))"
  by pat_completeness auto
termination
  by (relation "measure (\<lambda>(n, xs). length xs)") auto

declare chunks.simps [simp del]

lemma chunks_Nil [simp]: "chunks n [] = []"
  by (simp add: chunks.simps)

lemma chunks_step: "0 < n \<Longrightarrow> xs \<noteq> [] \<Longrightarrow> chunks n xs = take n xs # chunks n (drop n xs)"
  by (subst chunks.simps) simp

text \<open>
  The contract of a batcher: the batches are the elements in their order, none lost and none in two
  batches, and every batch has between one and \<open>n\<close> of them.
\<close>

locale batcher =
  fixes split :: "'a list \<Rightarrow> 'a list list" and n :: nat
  assumes joined: "concat (split xs) = xs"
    and sized: "b \<in> set (split xs) \<Longrightarrow> b \<noteq> [] \<and> length b \<le> n"
begin

lemma members: "(\<exists>b \<in> set (split xs). x \<in> set b) \<longleftrightarrow> x \<in> set xs"
  by (metis UN_iff joined set_concat)

lemma few: "length (split xs) \<le> length xs"
proof -
  have "length bs \<le> length (concat bs)" if "\<forall>b \<in> set bs. b \<noteq> []" for bs :: "'a list list"
    using that
  proof (induction bs)
    case (Cons a bs)
    then show ?case by (cases a) auto
  qed simp
  from this [of "split xs"] show ?thesis using sized joined by metis
qed

lemma empty_iff: "split xs = [] \<longleftrightarrow> xs = []"
  by (metis concat.simps(1) few joined le_zero_eq length_0_conv)

end

lemma chunks_joined: "0 < n \<Longrightarrow> concat (chunks n xs) = xs"
proof (induction n xs rule: chunks.induct)
  case (1 n xs)
  then show ?case by (cases "xs = []") (simp_all add: chunks_step)
qed

lemma chunks_sized: "b \<in> set (chunks n xs) \<Longrightarrow> b \<noteq> [] \<and> length b \<le> n"
proof (induction n xs rule: chunks.induct)
  case (1 n xs)
  then show ?case by (cases "n = 0 \<or> xs = []") (auto simp: chunks.simps [of n xs])
qed

interpretation pieces: batcher "chunks (Suc m)" "Suc m" for m
  by unfold_locales (simp add: chunks_joined, rule chunks_sized)

lemma unat_of_nat_u64: "k < 2 ^ 64 \<Longrightarrow> unat (of_nat k :: u64) = k"
  by (simp add: unat_of_nat)

lemma u64_add_no_wrap: "unat (i :: u64) + unat b < 2 ^ 64 \<Longrightarrow> unat (i + b) = unat i + unat b"
  by (simp add: unat_word_ariths)

lemma unat_u64_less: "unat (x :: u64) < 2 ^ 64"
proof -
  have "unat x < 2 ^ LENGTH(64)" by (rule unsigned_less)
  then show ?thesis by simp
qed

text \<open>The index is zero or at least one batch long, so it cannot wrap around below half the range.\<close>

lemma batches_loop_chunks:
  assumes "bs \<noteq> 0" and "length dels < 2 ^ 63" and "i = 0 \<or> bs \<le> i"
  shows "batches_loop bs dels i acc = Some (Ok (acc @ chunks (unat bs) (drop (unat i) dels)))"
  using assms(3)
proof (induction "length dels - unat i" arbitrary: i acc rule: less_induct)
  case less
  have len: "unat (of_nat (length dels) :: u64) = length dels"
    using assms(2) by (simp add: unat_of_nat_u64)
  have pos: "0 < unat bs" using assms(1) by (simp add: unat_gt_0)
  show ?case
  proof (cases "unat i < length dels")
    case False
    then show ?thesis
      by (subst batches_loop.simps) (simp add: word_less_nat_alt len)
  next
    case True
    have nowrap: "unat (i + bs) = unat i + unat bs"
    proof (rule u64_add_no_wrap)
      show "unat i + unat bs < 2 ^ 64"
        using less.prems True assms(2) unat_u64_less [of bs] by (auto simp: word_le_nat_alt)
    qed
    let ?e = "if of_nat (length dels) < i + bs then of_nat (length dels) else i + bs"
    have "slice dels i ?e = Ok (take (unat bs) (drop (unat i) dels))"
      using True by (auto simp: slice_def word_less_nat_alt word_le_nat_alt len nowrap)
    moreover have "batches_loop bs dels (i + bs) (acc @ [b]) =
        Some (Ok ((acc @ [b]) @ chunks (unat bs) (drop (unat (i + bs)) dels)))" for b
      by (rule less.hyps) (use True pos nowrap in \<open>auto simp: word_le_nat_alt\<close>)
    moreover have "drop (unat (i + bs)) dels = drop (unat bs) (drop (unat i) dels)"
      unfolding nowrap by (simp add: add.commute)
    moreover have "i < of_nat (length dels)" using True by (simp add: word_less_nat_alt len)
    ultimately show ?thesis
      using True pos
      by (subst batches_loop.simps)
        (simp add: chunks_step [of _ "drop (unat i) dels"] del: drop_drop)
  qed
qed

text \<open>
  C11: With a batch size other than zero \<^verbatim>\<open>delegationsToBatches\<close> returns, without an index out of
  range or a wrapped index, for every list Go can hold: the batches are consecutive pieces of the list
  of exactly the batch size, but for the last one, and together they are the list.
\<close>

theorem delegationsToBatches_chunks:
  assumes "SigsBatchSize (config ce) \<noteq> 0" and "length dels < 2 ^ 63"
  shows "delegationsToBatches ce dels = Some (Ok (chunks (unat (SigsBatchSize (config ce))) dels)) \<and>
    concat (chunks (unat (SigsBatchSize (config ce))) dels) = dels \<and>
    (\<forall>b \<in> set (chunks (unat (SigsBatchSize (config ce))) dels).
       b \<noteq> [] \<and> length b \<le> unat (SigsBatchSize (config ce)))"
proof -
  obtain k where k: "unat (SigsBatchSize (config ce)) = Suc k"
    using assms(1) by (metis not0_implies_Suc unsigned_eq_0_iff)
  show ?thesis
    unfolding delegationsToBatches_def
    using batches_loop_chunks [OF assms, of 0 "[]"] pieces.joined [of k dels] pieces.sized [of _ k dels] k
    by simp
qed

theorem delegationsToBatches_chunks_witness:
  "delegationsToBatches (sample_emulator\<lparr>config := sample_config\<lparr>SigsBatchSize := 2\<rparr>\<rparr>) [None, None, None] =
     Some (Ok [[None, None], [None]])"
  using delegationsToBatches_chunks [of "sample_emulator\<lparr>config := sample_config\<lparr>SigsBatchSize := 2\<rparr>\<rparr>" "[None, None, None]"]
  by (simp add: chunks.simps)

lemma batches_loop_stuck:
  assumes "batches_loop bs dels i acc = Some r"
  shows "\<not> (bs = 0 \<and> unat i < length dels \<and> length dels < 2 ^ 63)"
  using _ assms
proof (rule batches_loop.raw_induct [where P = "\<lambda>bs dels i acc r. \<not> (bs = 0 \<and> unat i < length dels \<and> length dels < 2 ^ 63)"])
  fix loop :: "u64 \<Rightarrow> 'a list \<Rightarrow> u64 \<Rightarrow> 'a list list \<Rightarrow> 'a list list res option" and bs dels i acc r
  assume IH: "\<And>bs dels i acc r. loop bs dels i acc = Some r \<Longrightarrow>
      \<not> (bs = 0 \<and> unat i < length dels \<and> length dels < 2 ^ 63)"
    and run: "(if \<not> i < of_nat (length dels) then Some (Ok acc)
      else case slice dels i (if of_nat (length dels) < i + bs then of_nat (length dels) else i + bs) of
             Ok b \<Rightarrow> loop bs dels (i + bs) (acc @ [b])
           | Err e \<Rightarrow> Some (Err e) | Panic q \<Rightarrow> Some (Panic q)) = Some r"
  show "\<not> (bs = 0 \<and> unat i < length dels \<and> length dels < 2 ^ 63)"
  proof
    assume z: "bs = 0 \<and> unat i < length dels \<and> length dels < 2 ^ 63"
    then have i: "i < of_nat (length dels)" by (simp add: word_less_nat_alt unat_of_nat_u64)
    from z have "slice dels i i = Ok []" by (simp add: slice_def)
    moreover have "bs = 0" "\<not> of_nat (length dels) < i" using z i by auto
    ultimately have "loop 0 dels i (acc @ [[]]) = Some r" using run i by simp
    from IH [OF this] z show False by simp
  qed
qed

text \<open>
  C29: With a batch size of zero, which \<^verbatim>\<open>Validate\<close> lets through, \<^verbatim>\<open>delegationsToBatches\<close> never returns on
  a list that is not empty.
\<close>

theorem delegationsToBatches_zero_diverges:
  assumes "SigsBatchSize (config ce) = 0" and "dels \<noteq> []" and "length dels < 2 ^ 63"
  shows "delegationsToBatches ce dels = None"
proof (rule ccontr)
  assume "delegationsToBatches ce dels \<noteq> None"
  then obtain r where "batches_loop 0 dels 0 [] = Some r"
    using assms(1) by (auto simp: delegationsToBatches_def)
  then show False
    using assms(2,3) batches_loop_stuck [of 0 dels 0 "[]" r] by simp
qed

theorem delegationsToBatches_zero_diverges_witness:
  "delegationsToBatches (sample_emulator\<lparr>config := sample_config\<lparr>SigsBatchSize := 0\<rparr>\<rparr>) [Some sample_delegation] = None"
  by (rule delegationsToBatches_zero_diverges) simp_all

section \<open>Delegations that still need a signature\<close>

text \<open>\<open>needs_sig S ce d\<close>: no covenant signature on \<open>d\<close> is under the emulator's own key.\<close>

definition needs_sig :: "signing_lib \<Rightarrow> 'x CovenantEmulator \<Rightarrow> Delegation \<Rightarrow> bool" where
  "needs_sig S ce d \<longleftrightarrow>
     SerializePubKey S (pk ce) \<notin> (\<lambda>i. SerializePubKey S (Pk i)) ` set (CovenantSigs_del d)"

lemma alreadySigned_iff:
  "alreadySigned S covPk sigs \<longleftrightarrow> SerializePubKey S covPk \<in> (\<lambda>i. SerializePubKey S (Pk i)) ` set sigs"
  by (induction sigs) auto

lemma sanitize_filter:
  "sanitize S (pk ce) acc (map Some ds) = Ok (acc @ map Some (filter (needs_sig S ce) ds))"
  by (induction ds arbitrary: acc) (simp_all add: alreadySigned_iff needs_sig_def)

lemma sanitize_nil: "None \<in> set dels \<Longrightarrow> sanitize S covPk acc dels = Panic nil_deref"
  by (induction dels arbitrary: acc) (auto split: option.splits)

lemma all_Some: "None \<notin> set dels \<Longrightarrow> \<exists>ds. dels = map Some ds"
proof (induction dels)
  case (Cons d dels)
  then obtain x ds where "d = Some x" "dels = map Some ds" by (cases d) auto
  then have "d # dels = map Some (x # ds)" by simp
  then show ?case by (rule exI)
qed simp

text \<open>
  C15: \<^verbatim>\<open>removeAlreadySigned\<close> keeps exactly the delegations on which no covenant signature is under the
  emulator's own key, in their order; it panics exactly when the list holds a nil delegation.
\<close>

theorem removeAlreadySigned_filter:
  "(\<forall>ds. dels = map Some ds \<longrightarrow> removeAlreadySigned S ce dels = Ok (map Some (filter (needs_sig S ce) ds))) \<and>
   (None \<in> set dels \<longleftrightarrow> removeAlreadySigned S ce dels = Panic nil_deref)"
proof (cases "None \<in> set dels")
  case True
  then show ?thesis by (auto simp: removeAlreadySigned_def sanitize_nil)
next
  case False
  then obtain ds where "dels = map Some ds" using all_Some by blast
  with False show ?thesis
    by (auto simp: removeAlreadySigned_def sanitize_filter)
qed

theorem removeAlreadySigned_filter_witness:
  "removeAlreadySigned sample_signing sample_emulator [Some sample_delegation] = Ok [Some sample_delegation] \<and>
   removeAlreadySigned sample_signing (sample_emulator\<lparr>pk := PublicKey [7]\<rparr>) [Some sample_delegation] = Ok []"
proof -
  have "needs_sig sample_signing sample_emulator sample_delegation"
      "\<not> needs_sig sample_signing (sample_emulator\<lparr>pk := PublicKey [7]\<rparr>) sample_delegation"
    by (simp_all add: needs_sig_def sample_signing_def sample_emulator_def sample_delegation_def)
  then show ?thesis
    using removeAlreadySigned_filter [of "[Some sample_delegation]" sample_signing sample_emulator]
      removeAlreadySigned_filter [of "[Some sample_delegation]" sample_signing "sample_emulator\<lparr>pk := PublicKey [7]\<rparr>"]
    by (auto dest!: spec [where x = "[sample_delegation]"])
qed

section \<open>Safety of a round\<close>

text \<open>Go slices have fewer than 2 to the 63 elements.\<close>

definition go_sized :: "'x ClientController \<Rightarrow> bool" where
  "go_sized ctl \<longleftrightarrow> (\<forall>limit w dels w'. QueryPendingDelegations_cc ctl limit w = (Ok dels, w') \<longrightarrow> length dels < 2 ^ 63)"

lemma delegationsToBatches_concat:
  assumes "delegationsToBatches ce dels = Some (Ok batches)" and "length dels < 2 ^ 63"
  shows "concat batches = dels"
proof (cases "SigsBatchSize (config ce) = 0")
  case True
  with assms batches_loop_stuck [of 0 dels 0 "[]" "Ok batches"] have "dels = []"
    by (simp add: delegationsToBatches_def)
  with assms show ?thesis by (simp add: delegationsToBatches_def batches_loop.simps)
next
  case False
  then obtain k where "unat (SigsBatchSize (config ce)) = Suc k"
    by (metis not0_implies_Suc unsigned_eq_0_iff)
  with batches_loop_chunks [OF False assms(2), of 0 "[]"] assms(1) show ?thesis
    by (auto simp: delegationsToBatches_def pieces.joined)
qed

text \<open>\<open>covers\<close>: a transaction carries signatures that vouch for the delegations of a batch, one to one.\<close>

definition covers :: "(sdk_Msg \<Rightarrow> CovenantSigs \<Rightarrow> bool) \<Rightarrow> signing_lib \<Rightarrow> 'x CovenantEmulator \<Rightarrow> sdk_Msg list \<Rightarrow>
    Delegation option list \<Rightarrow> bool" where
  "covers delivers S ce ms b \<longleftrightarrow> (\<exists>sigs. list_all2 delivers ms sigs \<and> list_all2 (vouched S ce) b sigs)"

lemma subseq_concat: "subseq xss yss \<Longrightarrow> subseq (concat xss) (concat yss)"
  by (induction rule: list_emb.induct) (auto intro: list_emb_append_mono)

context client_controller
begin

lemma failing_sent:
  assumes "cc ce = ctl"
  shows "failing ce k w w' \<Longrightarrow> sent w' = sent w"
  by (induction k arbitrary: w) (auto simp: assms dest: keepsD [OF params_keep_sent])

lemma UpdateParams_safe:
  assumes "retries R" and "cc ce = ctl" and "UpdateParams R (ce, w) = (r, (ce', w'))"
  shows "sent w' = sent w \<and>
    (r = Ok () \<longrightarrow> (\<exists>p w1. ce' = ce\<lparr>params := Some p\<rparr> \<and> QueryStakingParams_cc ctl w1 = (Ok p, w')))"
proof -
  obtain k w1 where k: "failing ce k w w1"
      "case QueryStakingParams_cc (cc ce) w1 of
         (Ok p, w2) \<Rightarrow> UpdateParams R (ce, w) = (Ok (), (ce\<lparr>params := Some p\<rparr>, w2))
       | (Err e, w2) \<Rightarrow> k = 4 \<and> UpdateParams R (ce, w) = (Err e, (ce, w2))
       | (Panic q, w2) \<Rightarrow> UpdateParams R (ce, w) = (Panic q, (ce, w2))"
    using UpdateParams_run [OF assms(1), of ce w] by (elim exE conjE)
  obtain x w2 where x: "QueryStakingParams_cc ctl w1 = (x, w2)" by fastforce
  have "sent w2 = sent w"
    using keepsD [OF params_keep_sent x] failing_sent [OF assms(2) k(1)] by simp
  with k(2) x assms(2,3) show ?thesis by (cases x) auto
qed

text \<open>The transactions of a list of batches belong to some of the batches, in order.\<close>

lemma submitBatches_safe:
  assumes "submitBatches S K ce batches w = (r, w')" and "cc ce = ctl"
  shows "\<exists>txs some. sent w' = sent w @ txs \<and> list_all2 (covers delivers S ce) txs some \<and> subseq some batches"
  using assms(1)
proof (induction batches arbitrary: w)
  case Nil
  then show ?case by (intro exI [of _ "[]"]) simp
next
  case (Cons b batches)
  obtain x w1 where x: "AddCovenantSignatures S K ce b w = (x, w1)" by fastforce
  from AddCovenantSignatures_safe [OF this assms(2)]
  have first: "sent w1 = sent w \<or> (\<exists>ms. sent w1 = sent w @ [ms] \<and> covers delivers S ce ms b)"
    by (auto simp: covers_def)
  have "\<exists>txs some. sent w' = sent w1 @ txs \<and> list_all2 (covers delivers S ce) txs some \<and> subseq some batches"
  proof (cases "\<exists>q. x = Panic q")
    case True
    with x Cons.prems show ?thesis by (intro exI [of _ "[]"]) auto
  next
    case False
    with x Cons.prems have "submitBatches S K ce batches w1 = (r, w')"
      by (auto split: res.splits)
    then show ?thesis by (rule Cons.IH)
  qed
  then obtain txs "some" where rest: "sent w' = sent w1 @ txs" "list_all2 (covers delivers S ce) txs some"
      "subseq some batches"
    by blast
  from first show ?case
  proof
    assume "sent w1 = sent w"
    with rest show ?thesis by (intro exI [of _ txs] exI [of _ "some"]) auto
  next
    assume "\<exists>ms. sent w1 = sent w @ [ms] \<and> covers delivers S ce ms b"
    then obtain ms where "sent w1 = sent w @ [ms]" "covers delivers S ce ms b" by blast
    with rest show ?thesis by (intro exI [of _ "ms # txs"] exI [of _ "b # some"]) auto
  qed
qed

lemma tick_safe:
  assumes "retries R" and "cc ce = ctl" and "go_sized ctl" and "tick S K R (ce, w) = Some (r, (ce', w'))"
  shows "\<exists>txs some. sent w' = sent w @ txs \<and> list_all2 (covers delivers S ce') txs some \<and>
    (txs = [] \<or> (\<exists>p w1 w2 w3 dels. UpdateParams R (ce, w) = (Ok (), (ce', w2)) \<and>
       QueryStakingParams_cc ctl w1 = (Ok p, w2) \<and> ce' = ce\<lparr>params := Some p\<rparr> \<and>
       QueryPendingDelegations_cc ctl (DelegationLimit (config ce)) w2 = (Ok (map Some dels), w3) \<and>
       subseq (concat some) (map Some (filter (needs_sig S ce) dels))))"
proof -
  obtain u ce1 w1 where u: "UpdateParams R (ce, w) = (u, (ce1, w1))" by (metis prod.collapse)
  note upd = UpdateParams_safe [OF assms(1,2) u]
  have ?thesis if "sent w' = sent w"
    using that by (intro exI [of _ "[]"]) simp
  moreover have ?thesis if "u = Ok ()"
      and d: "QueryPendingDelegations_cc (cc ce1) (DelegationLimit (config ce1)) w1 = (Ok dels, w2)"
      and s: "removeAlreadySigned S ce1 dels = Ok san" and b: "delegationsToBatches ce1 san = Some (Ok batches)"
      and sub: "submitBatches S K ce1 batches w2 = (r, w')" and ce': "ce' = ce1"
    for dels w2 san batches
  proof -
    obtain p w0 where p: "ce1 = ce\<lparr>params := Some p\<rparr>" "QueryStakingParams_cc ctl w0 = (Ok p, w1)"
      using upd \<open>u = Ok ()\<close> by blast
    have c: "cc ce1 = ctl" using p assms(2) by simp
    have w2: "sent w2 = sent w" using keepsD [OF pending_keep_sent d [unfolded c]] upd by simp
    have "None \<notin> set dels" using s by (auto simp: removeAlreadySigned_def sanitize_nil)
    then obtain ds where ds: "dels = map Some ds" using all_Some by blast
    have san: "san = map Some (filter (needs_sig S ce) ds)"
      using s ds p(1) sanitize_filter [of S ce "[]" ds] by (simp add: removeAlreadySigned_def)
    have "length san < 2 ^ 63"
      using assms(3) d c length_filter_le [of "needs_sig S ce" ds] unfolding go_sized_def san ds
      by (metis length_map order.strict_trans1)
    then have "concat batches = san" using b by (intro delegationsToBatches_concat)
    moreover obtain txs "some" where t: "sent w' = sent w2 @ txs" "list_all2 (covers delivers S ce1) txs some"
        "subseq some batches"
      using submitBatches_safe [OF sub c] by blast
    moreover have "subseq (concat some) (concat batches)" using t(3) by (rule subseq_concat)
    ultimately have "subseq (concat some) (map Some (filter (needs_sig S ce) ds))"
      using san by simp
    with t w2 p d c ds ce' u \<open>u = Ok ()\<close> show ?thesis
      by (intro exI [of _ txs] exI [of _ "some"]) auto
  qed
  moreover have "sent w' = sent w \<or> (u = Ok () \<and> (\<exists>dels w2 san batches.
      QueryPendingDelegations_cc (cc ce1) (DelegationLimit (config ce1)) w1 = (Ok dels, w2) \<and>
      removeAlreadySigned S ce1 dels = Ok san \<and> delegationsToBatches ce1 san = Some (Ok batches) \<and>
      submitBatches S K ce1 batches w2 = (r, w') \<and> ce' = ce1))"
  proof (cases "u = Ok ()")
    case False
    with assms(4) u upd show ?thesis by (auto simp: tick_def split: res.splits)
  next
    case True
    then have c: "cc ce1 = ctl" using upd assms(2) by auto
    obtain x w2 where x: "QueryPendingDelegations_cc (cc ce1) (DelegationLimit (config ce1)) w1 = (x, w2)"
      by fastforce
    have "sent w2 = sent w" using keepsD [OF pending_keep_sent x [unfolded c]] upd by simp
    with assms(4) u x True show ?thesis
      by (auto simp: tick_def split: res.splits option.splits prod.splits)
  qed
  ultimately show ?thesis by blast
qed

end

text \<open>
  C7: Whatever the libraries and the node do, the transactions sent in a round of the submission loop
  belong one to one and in order to batches of delegations that the node reported as pending in this
  round and that the emulator's key had not signed, no delegation in two of them; each message carries
  signatures for its delegation, approved under the parameters that were fetched in this same round.
\<close>

theorem tick_safety:
  assumes "retries R" and "cc ce = babylon_cc L bc" and "go_sized (babylon_cc L bc)"
    and "tick S K R (ce, w) = Some (r, (ce', w'))"
  shows "\<exists>txs some. sent w' = sent w @ txs \<and>
    list_all2 (\<lambda>ms b. \<exists>sigs. list_all2 (carries L) ms sigs \<and> list_all2 (vouched S ce') b sigs) txs some \<and>
    (txs = [] \<or> (\<exists>p w1 w2 w3 dels. QueryStakingParams L bc w1 = (Ok p, w2) \<and> ce' = ce\<lparr>params := Some p\<rparr> \<and>
       QueryPendingDelegations L (DelegationLimit (config ce)) w2 = (Ok (map Some dels), w3) \<and>
       subseq (concat some) (map Some (filter (needs_sig S ce) dels))))"
  using babylon.tick_safe [OF assms] by (simp add: covers_def [abs_def] babylon_cc_def) blast

section \<open>The outcome of a round\<close>

text \<open>The transaction that a batch gives rise to, if any.\<close>

definition batch_tx :: "'x bbn_lib \<Rightarrow> string \<Rightarrow> (Delegation option \<Rightarrow> CovenantSigs option res) \<Rightarrow>
    Delegation option list \<Rightarrow> sdk_Msg list list" where
  "batch_tx L signer dec b =
     (case decideAll dec b of Ok (Some sigs) \<Rightarrow> [map (toMsgAddCovenantSigs L signer) sigs] | _ \<Rightarrow> [])"

lemma decideAll_no_panic: "(\<And>d q. d \<in> set b \<Longrightarrow> dec d \<noteq> Panic q) \<Longrightarrow> decideAll dec b \<noteq> Panic q"
  by (induction b) (auto simp: decideAll_Cons bindR_Panic_iff split: res.splits option.splits)

lemma SubmitCovenantSigs_readers: "keeps (\<lambda>w. length (readers w)) (SubmitCovenantSigs L bc sigs)"
  unfolding SubmitCovenantSigs_def buildMsg_def mustGetTxSigner_def GetKeyAddress_def reliablySendMsgs_def
  by (intro keeps_intros)

lemma AddCovenantSignatures_outcome:
  assumes "params ce = Some p" and "has_key K ce sk" and "wired (kc ce) w"
    and "cc ce = babylon_cc L bc" and "accepts L bc signer" and "b \<noteq> []"
    and "\<And>d q. d \<in> set b \<Longrightarrow> decision S ce p sk d \<noteq> Panic q"
  shows "\<exists>r w'. AddCovenantSignatures S K ce b w = (r, w') \<and> (\<forall>q. r \<noteq> Panic q) \<and>
    sent w' = sent w @ batch_tx L signer (decision S ce p sk) b \<and> wired (kc ce) w'"
proof -
  let ?r = "decideAll (decision S ce p sk) b"
  obtain w1 where w1: "sent w1 = sent w" "wired (kc ce) w1"
      "AddCovenantSignatures S K ce b w = finish ce (bindR ?r (\<lambda>r. Ok (map_option ((@) []) r))) w1"
    using collectSigs_decideAll [OF assms(1-3), of S "[]" b] assms(6)
    by (auto simp: AddCovenantSignatures_def)
  show ?thesis
  proof (cases "\<exists>sigs. ?r = Ok (Some sigs)")
    case True
    then obtain sigs where sigs: "?r = Ok (Some sigs)" by blast
    obtain resp w2 where w2: "SubmitCovenantSigs L bc sigs w1 = (Ok resp, w2)"
        "sent w2 = sent w1 @ [map (toMsgAddCovenantSigs L signer) sigs]"
      using assms(5) by (rule accepts_submit)
    moreover have "wired (kc ce) w2"
      using keepsD [OF SubmitCovenantSigs_readers w2(1)] w1(2) by (simp add: wired_def)
    ultimately show ?thesis
      using w1 sigs assms(4) by (simp add: finish_def babylon_cc_def bindP_run batch_tx_def)
  next
    case False
    moreover have "?r \<noteq> Panic q" for q using assms(7) by (rule decideAll_no_panic)
    ultimately show ?thesis
      using w1 by (cases ?r) (auto simp: finish_def batch_tx_def split: option.splits)
  qed
qed

lemma submitBatches_outcome:
  assumes "params ce = Some p" and "has_key K ce sk" and "wired (kc ce) w"
    and "cc ce = babylon_cc L bc" and "accepts L bc signer"
    and "\<And>b. b \<in> set batches \<Longrightarrow> b \<noteq> []"
    and "\<And>b d q. b \<in> set batches \<Longrightarrow> d \<in> set b \<Longrightarrow> decision S ce p sk d \<noteq> Panic q"
  shows "\<exists>w'. submitBatches S K ce batches w = (Ok (), w') \<and>
    sent w' = sent w @ concat (map (batch_tx L signer (decision S ce p sk)) batches)"
  using assms(3,6,7)
proof (induction batches arbitrary: w)
  case Nil
  then show ?case by simp
next
  case (Cons b batches)
  have "\<exists>r w1. AddCovenantSignatures S K ce b w = (r, w1) \<and> (\<forall>q. r \<noteq> Panic q) \<and>
      sent w1 = sent w @ batch_tx L signer (decision S ce p sk) b \<and> wired (kc ce) w1"
    by (rule AddCovenantSignatures_outcome [OF assms(1,2) Cons.prems(1) assms(4,5)])
      (use Cons.prems(2,3) in auto)
  then obtain r w1 where r: "AddCovenantSignatures S K ce b w = (r, w1)" "\<forall>q. r \<noteq> Panic q"
      "sent w1 = sent w @ batch_tx L signer (decision S ce p sk) b" "wired (kc ce) w1"
    by blast
  have "\<exists>w'. submitBatches S K ce batches w1 = (Ok (), w') \<and>
      sent w' = sent w1 @ concat (map (batch_tx L signer (decision S ce p sk)) batches)"
    by (rule Cons.IH [OF r(4)]) (use Cons.prems(2,3) in auto)
  with r show ?case by (auto split: res.splits)
qed

lemma UpdateParams_first:
  assumes "retries R" and "QueryStakingParams_cc (cc ce) w = (Ok p, w1)"
  shows "UpdateParams R (ce, w) = (Ok (), (ce\<lparr>params := Some p\<rparr>, w1))"
proof -
  obtain k w0 where k: "failing ce k w w0"
      "case QueryStakingParams_cc (cc ce) w0 of
         (Ok p, w2) \<Rightarrow> UpdateParams R (ce, w) = (Ok (), (ce\<lparr>params := Some p\<rparr>, w2))
       | (Err e, w2) \<Rightarrow> k = 4 \<and> UpdateParams R (ce, w) = (Err e, (ce, w2))
       | (Panic q, w2) \<Rightarrow> UpdateParams R (ce, w) = (Panic q, (ce, w2))"
    using UpdateParams_run [OF assms(1), of ce w] by (elim exE conjE)
  have "w0 = w" using k(1) assms(2) by (cases k) auto
  with k(2) assms(2) show ?thesis by simp
qed

lemma tick_run:
  assumes "retries R" and "cc ce = babylon_cc L bc" and "accepts L bc signer" and "has_key K ce sk"
    and "QueryStakingParams L bc w = (Ok p, w1)"
    and "QueryPendingDelegations L (DelegationLimit (config ce)) w1 = (Ok (map Some ds), w2)"
    and "wired (kc ce) w2" and "SigsBatchSize (config ce) \<noteq> 0" and "length ds < 2 ^ 63"
    and "\<And>d q. d \<in> set ds \<Longrightarrow> decide S (BTCNetParams (config ce)) p (pk ce) sk (Some d) \<noteq> Panic q"
  shows "\<exists>w'. tick S K R (ce, w) = Some (Ok (), (ce\<lparr>params := Some p\<rparr>, w')) \<and>
    sent w' = sent w @ concat (map (batch_tx L signer (decide S (BTCNetParams (config ce)) p (pk ce) sk))
      (chunks (unat (SigsBatchSize (config ce))) (map Some (filter (needs_sig S ce) ds))))"
proof -
  let ?ce = "ce\<lparr>params := Some p\<rparr>" and ?n = "unat (SigsBatchSize (config ce))"
  let ?san = "map Some (filter (needs_sig S ce) ds)"
  obtain k where k: "?n = Suc k" using assms(8) by (metis not0_implies_Suc unsigned_eq_0_iff)
  have q: "QueryStakingParams_cc (cc ce) w = (Ok p, w1)" using assms(2,5) by (simp add: babylon_cc_def)
  have d: "QueryPendingDelegations_cc (cc ?ce) (DelegationLimit (config ?ce)) w1 = (Ok (map Some ds), w2)"
    using assms(2,6) by (simp add: babylon_cc_def)
  have sent2: "sent w2 = sent w"
    using keepsD [OF QueryStakingParams_keeps_sent assms(5)]
      keepsD [OF queryDelegationsWithStatus_keeps_sent assms(6) [unfolded QueryPendingDelegations_def]]
    by simp
  have s: "removeAlreadySigned S ?ce (map Some ds) = Ok ?san"
    using sanitize_filter [of S ce "[]" ds] by (simp add: removeAlreadySigned_def)
  have "length ?san < 2 ^ 63" using le_less_trans [OF length_filter_le assms(9)] by simp
  then have b: "delegationsToBatches ?ce ?san = Some (Ok (chunks ?n ?san))"
    using batches_loop_chunks [OF assms(8), of ?san 0 "[]"] by (simp add: delegationsToBatches_def)
  have "has_key K ?ce sk" using assms(4) by (simp add: has_key_def)
  then have "\<exists>w'. submitBatches S K ?ce (chunks ?n ?san) w2 = (Ok (), w') \<and>
      sent w' = sent w2 @ concat (map (batch_tx L signer (decision S ?ce p sk)) (chunks ?n ?san))"
  proof (rule submitBatches_outcome [rotated])
    fix c e q
    assume "c \<in> set (chunks ?n ?san)" "e \<in> set c"
    then have "e \<in> set ?san" using pieces.members [of k ?san e] k by auto
    then show "decision S ?ce p sk e \<noteq> Panic q" using assms(10) by auto
  qed (use assms(2,3,7) k pieces.sized [of _ k ?san] in auto)
  with UpdateParams_first [OF assms(1) q] d s b sent2 show ?thesis
    by (auto simp: tick_def)
qed

text \<open>
  C5: What a round does when the chain answers: it stores the fetched parameters, takes the pending
  delegations its key has not signed, cuts them into batches, and sends exactly one transaction for
  each batch whose delegations can all be signed and none for any other batch, in order. A batch that
  fails does not keep the later ones from being sent.
\<close>

theorem tick_outcome:
  assumes "retries R" and "cc ce = babylon_cc L bc" and "accepts L bc signer" and "has_key K ce sk"
    and "QueryStakingParams L bc w = (Ok p, w1)"
    and "QueryPendingDelegations L (DelegationLimit (config ce)) w1 = (Ok (map Some ds), w2)"
    and "wired (kc ce) w2" and "SigsBatchSize (config ce) \<noteq> 0" and "length ds < 2 ^ 63"
    and "\<And>d q. d \<in> set ds \<Longrightarrow> decide S (BTCNetParams (config ce)) p (pk ce) sk (Some d) \<noteq> Panic q"
  shows "\<exists>w'. tick S K R (ce, w) = Some (Ok (), (ce\<lparr>params := Some p\<rparr>, w')) \<and>
    sent w' = sent w @ concat (map (batch_tx L signer (decide S (BTCNetParams (config ce)) p (pk ce) sk))
      (chunks (unat (SigsBatchSize (config ce))) (map Some (filter (needs_sig S ce) ds))))"
  using assms by (rule tick_run)

text \<open>A node with one pending delegation, and the emulator that talks to it.\<close>

definition sample_pending :: BTCDelegation_pb where
  "sample_pending =
     \<lparr>BtcPk_pb = BIP340PubKey [1], FpBtcPkList_pb = [BIP340PubKey [2], BIP340PubKey [3]],
      StartHeight_pb = 100, EndHeight_pb = 105, TotalSat_pb = 20000, StakingTx_pb = Some [10],
      SlashingTx_pb = Some (BTCSlashingTx [11]),
      CovenantSigs_pb = [\<lparr>CovPk = BIP340PubKey [7], AdaptorSigs = []\<rparr>], UnbondingTime_pb = 101,
      BtcUndelegation_pb = Some
        \<lparr>UnbondingTx_pb = Some [1], SlashingTx_undel_pb = Some (BTCSlashingTx [2]),
         CovenantUnbondingSigList = [\<lparr>Pk_info = BIP340PubKey [7], Sig_info = BIP340Signature [8]\<rparr>],
         CovenantSlashingSigs_pb = [], DelegatorUnbondingSig_pb = None\<rparr>\<rparr>"

definition sample_node :: "unit bbn_lib" where
  "sample_node = sample_bbn\<lparr>BTCDelegations := (\<lambda>_ _ x. (Ok [sample_pending], x))\<rparr>"

definition sample_live :: "unit CovenantEmulator" where
  "sample_live = sample_emulator\<lparr>cc := babylon_cc sample_node sample_bc, params := None\<rparr>"

lemma sample_hex:
  "hex_EncodeToString [10] = ''0a''" "hex_EncodeToString [11] = ''0b''"
  "hex_EncodeToString [1] = ''01''" "hex_EncodeToString [2] = ''02''"
  by code_simp+

lemma sample_converts: "ConvertDelegationType sample_node sample_pending = Ok sample_delegation"
  by (simp add: ConvertDelegationType_def ConvertAdaptorSigs_def ConvertUndelegationType_def
      panicR_on_err_def sample_pending_def sample_node_def sample_bbn_def sample_hex
      sample_delegation_def sample_undelegation_def)

lemma unit_ext: "w\<lparr>trace := x, ext := ()\<rparr> = w\<lparr>trace := x\<rparr>"
  by (cases w) simp

lemma sample_node_params: "\<exists>x. QueryStakingParams sample_node sample_bc w = (Ok sample_params, w\<lparr>trace := x\<rparr>)"
  by (simp add: QueryStakingParams_def bindP_def wrap_v_def node_call_def ext_call_def sample_node_def
      sample_bbn_def sample_bc_def sample_params_def replace_err_def unit_ext) blast

lemma sample_node_pending:
  "\<exists>x. QueryPendingDelegations sample_node n w = (Ok [Some sample_delegation], w\<lparr>trace := x\<rparr>)"
  using sample_converts
  by (simp add: QueryPendingDelegations_def queryDelegationsWithStatus_def bindP_def wrap_v_def
      node_call_def ext_call_def) (simp add: sample_node_def unit_ext, blast)

lemma sample_node_accepts: "accepts sample_node sample_bc ''bbn1signer''"
  using sample_accepts by (simp add: accepts_def sample_node_def)

lemma sample_node_sized: "go_sized (babylon_cc sample_node sample_bc)"
  unfolding go_sized_def
proof (intro allI impI)
  fix limit w dels w'
  assume "QueryPendingDelegations_cc (babylon_cc sample_node sample_bc) limit w = (Ok dels, w')"
  then have "dels = [Some sample_delegation]"
    using sample_node_pending [of limit w] by (auto simp: babylon_cc_def)
  then show "length dels < 2 ^ 63" by simp
qed

lemma sample_live_facts:
  "cc sample_live = babylon_cc sample_node sample_bc" "wired (kc sample_live) (sample_run\<lparr>trace := x\<rparr>)"
  "SigsBatchSize (config sample_live) = 20" "sent sample_run = []"
  using sample_wired
  by (simp_all add: sample_live_def wired_def sample_emulator_def sample_config_def sample_run_def
      sample_world_def sent_def)

lemma sample_chunks: "0 < n \<Longrightarrow> chunks n [d] = [[d]]"
  by (simp add: chunks_step)

text \<open>What the emulators of the witnesses share: the node, the key and the network.\<close>

definition sample_like :: "unit CovenantEmulator \<Rightarrow> unit world \<Rightarrow> bool" where
  "sample_like ce w \<longleftrightarrow> cc ce = babylon_cc sample_node sample_bc \<and> pk ce = PublicKey [5] \<and>
     BTCNetParams (config ce) = SimNetParams \<and> has_key sample_keyring ce (PrivateKey [5]) \<and> wired (kc ce) w \<and>
     SigsBatchSize (config ce) \<noteq> 0"

lemma sample_live_like: "sample_like sample_live sample_run"
  using sample_has_key sample_wired
  by (simp add: sample_like_def has_key_def sample_live_def sample_emulator_def sample_config_def)

lemma sample_tick_facts:
  assumes "sample_like ce w"
  obtains w1 w2 where "cc ce = babylon_cc sample_node sample_bc" "has_key sample_keyring ce (PrivateKey [5])"
    "QueryStakingParams sample_node sample_bc w = (Ok sample_params, w1)"
    "QueryPendingDelegations sample_node (DelegationLimit (config ce)) w1 = (Ok (map Some [sample_delegation]), w2)"
    "wired (kc ce) w2" "SigsBatchSize (config ce) \<noteq> 0"
    "decide sample_signing (BTCNetParams (config ce)) sample_params (pk ce) (PrivateKey [5]) (Some sample_delegation)
       = Ok (Some sample_sigs)"
    "needs_sig sample_signing ce sample_delegation"
proof -
  obtain x1 where x1: "QueryStakingParams sample_node sample_bc w = (Ok sample_params, w\<lparr>trace := x1\<rparr>)"
    using sample_node_params [of w] by blast
  obtain x2 where x2: "QueryPendingDelegations sample_node (DelegationLimit (config ce)) (w\<lparr>trace := x1\<rparr>) =
      (Ok [Some sample_delegation], w\<lparr>trace := x1, trace := x2\<rparr>)"
    using sample_node_pending [of _ "w\<lparr>trace := x1\<rparr>"] by blast
  show thesis
  proof (rule that)
    show "decide sample_signing (BTCNetParams (config ce)) sample_params (pk ce) (PrivateKey [5]) (Some sample_delegation)
        = Ok (Some sample_sigs)"
      using assms sample_decides by (simp add: sample_like_def sample_emulator_def sample_config_def)
    show "needs_sig sample_signing ce sample_delegation"
      using assms by (simp add: sample_like_def needs_sig_def sample_signing_def sample_delegation_def)
    show "wired (kc ce) (w\<lparr>trace := x2\<rparr>)" using assms by (auto simp: sample_like_def wired_def)
  qed (use assms x1 x2 in \<open>simp_all add: sample_like_def\<close>)
qed

lemma sample_tx:
  assumes "needs_sig sample_signing ce sample_delegation" and "0 < n"
    and "decide sample_signing net sample_params covPk sk (Some sample_delegation) = Ok (Some sample_sigs)"
  shows "concat (map (batch_tx L signer (decide sample_signing net sample_params covPk sk))
      (chunks n (map Some (filter (needs_sig sample_signing ce) [sample_delegation])))) =
    [[toMsgAddCovenantSigs L signer sample_sigs]]"
  using assms by (simp add: sample_chunks batch_tx_def decideAll_Cons)

lemma sample_tick:
  assumes "sample_like ce w"
  shows "\<exists>w'. tick sample_signing sample_keyring sample_retry (ce, w) =
       Some (Ok (), (ce\<lparr>params := Some sample_params\<rparr>, w')) \<and>
     sent w' = sent w @ [[toMsgAddCovenantSigs sample_node ''bbn1signer'' sample_sigs]]"
proof (rule sample_tick_facts [OF assms])
  fix w1 w2
  assume f: "cc ce = babylon_cc sample_node sample_bc" "has_key sample_keyring ce (PrivateKey [5])"
    "QueryStakingParams sample_node sample_bc w = (Ok sample_params, w1)"
    "QueryPendingDelegations sample_node (DelegationLimit (config ce)) w1 = (Ok (map Some [sample_delegation]), w2)"
    "wired (kc ce) w2" "SigsBatchSize (config ce) \<noteq> 0"
    and d: "decide sample_signing (BTCNetParams (config ce)) sample_params (pk ce) (PrivateKey [5]) (Some sample_delegation)
      = Ok (Some sample_sigs)" "needs_sig sample_signing ce sample_delegation"
  have "0 < unat (SigsBatchSize (config ce))" using f(6) by (simp add: unat_gt_0)
  note tx = sample_tx [OF d(2) this d(1)]
  have quiet: "x \<in> set [sample_delegation] \<Longrightarrow> decide sample_signing (BTCNetParams (config ce)) sample_params (pk ce)
      (PrivateKey [5]) (Some x) \<noteq> Panic q" for x q
    using d(1) by simp
  show ?thesis
    using tick_run [OF sample_retries f(1) sample_node_accepts f(2-6) _ quiet] by (simp only: tx) simp
qed

theorem tick_outcome_witness:
  "\<exists>w'. tick sample_signing sample_keyring sample_retry (sample_live, sample_run) =
       Some (Ok (), (sample_live\<lparr>params := Some sample_params\<rparr>, w')) \<and>
     sent w' = [[toMsgAddCovenantSigs sample_node ''bbn1signer'' sample_sigs]]"
proof (rule sample_tick_facts [OF sample_live_like])
  fix w1 w2
  assume f: "cc sample_live = babylon_cc sample_node sample_bc" "has_key sample_keyring sample_live (PrivateKey [5])"
    "QueryStakingParams sample_node sample_bc sample_run = (Ok sample_params, w1)"
    "QueryPendingDelegations sample_node (DelegationLimit (config sample_live)) w1 = (Ok (map Some [sample_delegation]), w2)"
    "wired (kc sample_live) w2" "SigsBatchSize (config sample_live) \<noteq> 0"
    and d: "decide sample_signing (BTCNetParams (config sample_live)) sample_params (pk sample_live) (PrivateKey [5])
      (Some sample_delegation) = Ok (Some sample_sigs)" "needs_sig sample_signing sample_live sample_delegation"
  have "0 < unat (SigsBatchSize (config sample_live))" using f(6) by (simp add: unat_gt_0)
  note tx = sample_tx [OF d(2) this d(1)]
  have quiet: "x \<in> set [sample_delegation] \<Longrightarrow> decide sample_signing (BTCNetParams (config sample_live)) sample_params (pk sample_live)
      (PrivateKey [5]) (Some x) \<noteq> Panic q" for x q
    using d(1) by simp
  show ?thesis
    using tick_outcome [OF sample_retries f(1) sample_node_accepts f(2-6) _ quiet] sample_live_facts(4) by (simp only: tx) simp
qed

lemmas sample_round = sample_tick [OF sample_live_like]

theorem tick_safety_witness:
  "\<exists>r ce' w' txs. tick sample_signing sample_keyring sample_retry (sample_live, sample_run) = Some (r, (ce', w')) \<and>
     sent w' = sent sample_run @ txs \<and> txs \<noteq> [] \<and> (\<exists>p. ce' = sample_live\<lparr>params := Some p\<rparr>)"
proof -
  obtain w' where w': "tick sample_signing sample_keyring sample_retry (sample_live, sample_run) =
      Some (Ok (), (sample_live\<lparr>params := Some sample_params\<rparr>, w'))"
      "sent w' = sent sample_run @ [[toMsgAddCovenantSigs sample_node ''bbn1signer'' sample_sigs]]"
    using sample_round by blast
  from tick_safety [OF sample_retries sample_live_facts(1) sample_node_sized w'(1)] w' show ?thesis by auto
qed

end
