(* ===== verification/Lifecycle.thy ===== *)
theory Lifecycle
  imports Emulator
begin

text \<open>
  The life of an emulator: \<^verbatim>\<open>Start\<close>, \<^verbatim>\<open>Stop\<close> and the goroutine \<^verbatim>\<open>covenantSigSubmissionLoop\<close> of
  covenant.go, interleaved. The bodies that \<^verbatim>\<open>startOnce\<close> and \<^verbatim>\<open>stopOnce\<close> run at most once, and the loop,
  advance by atomic steps, in any order; a round of the loop is the operation \<open>tick\<close> of theory
  \<open>Emulator\<close>. A call of \<^verbatim>\<open>Start\<close> or \<^verbatim>\<open>Stop\<close> returns once the body of its \<^verbatim>\<open>sync.Once\<close> has ended. A panic in
  any goroutine ends the process.
\<close>

section \<open>State and atomic steps\<close>

datatype start_pc = S_Idle | S_Add | S_Spawn | S_Done
datatype stop_pc = P_Idle | P_Close | P_Wait | P_Done
datatype crash = Close_of_closed_channel | Negative_WaitGroup | Nonpositive_interval | Round_panic string
datatype loop_pc = L_None | L_Begin | L_Select | L_Round | L_Exit | L_Exited

record 'x machine =
  startOnce :: start_pc
  stopOnce :: stop_pc
  wg :: int
  quit :: bool
  loop :: loop_pc
  crashed :: "crash option"
  emulator :: "'x CovenantEmulator \<times> 'x world"

definition Start_step :: "'x machine \<Rightarrow> 'x machine option" where
  "Start_step s =
     (case startOnce s of
        S_Idle \<Rightarrow> Some (s\<lparr>startOnce := S_Add\<rparr>)
      | S_Add \<Rightarrow> Some (s\<lparr>wg := wg s + 1, startOnce := S_Spawn\<rparr>)
      | S_Spawn \<Rightarrow> Some (s\<lparr>loop := L_Begin, startOnce := S_Done\<rparr>)
      | S_Done \<Rightarrow> None)"

text \<open>Closing a closed channel panics; \<^verbatim>\<open>wg.Wait\<close> goes on only when the counter is zero.\<close>

definition Stop_step :: "'x machine \<Rightarrow> 'x machine option" where
  "Stop_step s =
     (case stopOnce s of
        P_Idle \<Rightarrow> Some (s\<lparr>stopOnce := P_Close\<rparr>)
      | P_Close \<Rightarrow>
          Some (if quit s then s\<lparr>crashed := Some Close_of_closed_channel\<rparr>
                else s\<lparr>quit := True, stopOnce := P_Wait\<rparr>)
      | P_Wait \<Rightarrow> (if wg s = 0 then Some (s\<lparr>stopOnce := P_Done\<rparr>) else None)
      | P_Done \<Rightarrow> None)"

text \<open>
  The loop: it first makes its ticker, and \<^verbatim>\<open>time.NewTicker\<close> panics unless the interval is positive; the ticker or the closed channel \<^verbatim>\<open>quit\<close> wakes the select, and either may if both can; a
  round; the deferred \<^verbatim>\<open>wg.Done\<close>, which panics below zero.
\<close>

definition Loop_begin :: "'x machine \<Rightarrow> 'x machine option" where
  "Loop_begin s =
     (if loop s = L_Begin then
        Some (if sint (QueryInterval (config (fst (emulator s)))) \<le> 0 then s\<lparr>crashed := Some Nonpositive_interval\<rparr>
              else s\<lparr>loop := L_Select\<rparr>)
      else None)"

definition Loop_wake :: "'x machine \<Rightarrow> 'x machine option" where
  "Loop_wake s = (if loop s = L_Select then Some (s\<lparr>loop := L_Round\<rparr>) else None)"

definition Loop_round :: "signing_lib \<Rightarrow> 'x keyring_lib \<Rightarrow> (StakingParams option \<times> 'x world) retrier \<Rightarrow>
    'x machine \<Rightarrow> 'x machine option" where
  "Loop_round S K R s =
     (if loop s = L_Round then
        (case tick S K R (emulator s) of
           None \<Rightarrow> None
         | Some (Panic q, e) \<Rightarrow> Some (s\<lparr>emulator := e, crashed := Some (Round_panic q)\<rparr>)
         | Some (_, e) \<Rightarrow> Some (s\<lparr>emulator := e, loop := L_Select\<rparr>))
      else None)"

definition Loop_quit :: "'x machine \<Rightarrow> 'x machine option" where
  "Loop_quit s = (if loop s = L_Select \<and> quit s then Some (s\<lparr>loop := L_Exit\<rparr>) else None)"

definition Loop_done :: "'x machine \<Rightarrow> 'x machine option" where
  "Loop_done s =
     (if loop s = L_Exit then
        Some (if wg s - 1 < 0 then s\<lparr>crashed := Some Negative_WaitGroup\<rparr>
              else s\<lparr>wg := wg s - 1, loop := L_Exited\<rparr>)
      else None)"

text \<open>Who moves: the body of \<^verbatim>\<open>Start\<close>, the body of \<^verbatim>\<open>Stop\<close>, or the loop.\<close>

datatype actor = Starter | Stopper | Looper

inductive lstep :: "signing_lib \<Rightarrow> 'x keyring_lib \<Rightarrow> (StakingParams option \<times> 'x world) retrier \<Rightarrow>
    actor \<Rightarrow> 'x machine \<Rightarrow> 'x machine \<Rightarrow> bool"
  for S K R where
  start: "crashed s = None \<Longrightarrow> Start_step s = Some s' \<Longrightarrow> lstep S K R Starter s s'"
| stop: "crashed s = None \<Longrightarrow> Stop_step s = Some s' \<Longrightarrow> lstep S K R Stopper s s'"
| wake: "crashed s = None \<Longrightarrow> Loop_wake s = Some s' \<Longrightarrow> lstep S K R Looper s s'"
| round: "crashed s = None \<Longrightarrow> Loop_round S K R s = Some s' \<Longrightarrow> lstep S K R Looper s s'"
| quit: "crashed s = None \<Longrightarrow> Loop_quit s = Some s' \<Longrightarrow> lstep S K R Looper s s'"
| leave: "crashed s = None \<Longrightarrow> Loop_done s = Some s' \<Longrightarrow> lstep S K R Looper s s'"
| ticker: "crashed s = None \<Longrightarrow> Loop_begin s = Some s' \<Longrightarrow> lstep S K R Looper s s'"

inductive_cases lstepE: "lstep S K R a s s'"

lemmas step_defs = Start_step_def Stop_step_def Loop_wake_def Loop_quit_def Loop_done_def Loop_begin_def

definition move where
  "move S K R s s' \<longleftrightarrow> (\<exists>a. lstep S K R a s s')"

definition fresh :: "'x CovenantEmulator \<times> 'x world \<Rightarrow> 'x machine" where
  "fresh e = \<lparr>startOnce = S_Idle, stopOnce = P_Idle, wg = 0, quit = False, loop = L_None,
     crashed = None, emulator = e\<rparr>"

section \<open>Invariants of a transition system\<close>

locale inductive_invariant =
  fixes step :: "'s \<Rightarrow> 's \<Rightarrow> bool" and init :: "'s \<Rightarrow> bool" and inv :: "'s \<Rightarrow> bool"
  assumes init_inv: "init s \<Longrightarrow> inv s"
    and step_inv: "inv s \<Longrightarrow> step s s' \<Longrightarrow> inv s'"
begin

lemma steps_inv: "step\<^sup>*\<^sup>* s s' \<Longrightarrow> inv s \<Longrightarrow> inv s'"
  by (induction rule: rtranclp_induct) (auto intro: step_inv)

lemma reachable_inv: "init s \<Longrightarrow> step\<^sup>*\<^sup>* s s' \<Longrightarrow> inv s'"
  by (blast intro: steps_inv init_inv)

end

text \<open>
  Tracing back: where every step only adds to a log, and what it adds has a cause in the state it
  starts from, each entry of the log goes back to the step of the run that added it.
\<close>

locale traceback = inductive_invariant step init inv
  for step :: "'s \<Rightarrow> 's \<Rightarrow> bool" and init :: "'s \<Rightarrow> bool" and inv :: "'s \<Rightarrow> bool" +
  fixes log :: "'s \<Rightarrow> 'e list" and cause :: "'s \<Rightarrow> 'e list \<Rightarrow> bool"
  assumes logged: "inv s \<Longrightarrow> step s s' \<Longrightarrow> \<exists>xs. log s' = log s @ xs \<and> (xs = [] \<or> cause s xs)"
begin

lemma traced:
  assumes "step\<^sup>*\<^sup>* s t" and "inv s" and "log s = []"
  shows "x \<in> set (log t) \<Longrightarrow> \<exists>s0 s1 xs. step\<^sup>*\<^sup>* s s0 \<and> step s0 s1 \<and> step\<^sup>*\<^sup>* s1 t \<and> log s1 = log s0 @ xs \<and>
    x \<in> set xs \<and> cause s0 xs"
  using assms(1)
proof (induction rule: rtranclp_induct)
  case (step u t)
  obtain xs where xs: "log t = log u @ xs" "xs = [] \<or> cause u xs"
    using logged [OF steps_inv [OF step(1) assms(2)] step(2)] by blast
  show ?case
  proof (cases "x \<in> set (log u)")
    case True
    from step.IH [OF this] step(2) show ?thesis by (meson rtranclp.rtrancl_into_rtrancl)
  next
    case False
    with step.prems xs have "x \<in> set xs" "cause u xs" by auto
    with xs(1) step(1,2) show ?thesis by blast
  qed
qed (use assms(3) in simp)

end

text \<open>
  The loop runs exactly while the wait group counts one, quit is closed exactly from the close in
  \<^verbatim>\<open>Stop\<close> on, and the loop leaves only after that.
\<close>

definition lc_inv :: "'x machine \<Rightarrow> bool" where
  "lc_inv s \<longleftrightarrow>
     (loop s = L_None \<longleftrightarrow> startOnce s \<noteq> S_Done) \<and>
     wg s = (if startOnce s = S_Spawn \<or> loop s \<in> {L_Begin, L_Select, L_Round, L_Exit} then 1 else 0) \<and>
     (quit s \<longleftrightarrow> stopOnce s \<in> {P_Wait, P_Done}) \<and>
     (loop s \<in> {L_Exit, L_Exited} \<longrightarrow> quit s) \<and>
     crashed s \<noteq> Some Close_of_closed_channel \<and>
     crashed s \<noteq> Some Negative_WaitGroup"

lemma Start_inv: "Start_step s = Some s' \<Longrightarrow> lc_inv s \<Longrightarrow> lc_inv s'"
  by (cases "startOnce s"; simp add: Start_step_def; hypsubst; simp add: lc_inv_def)

lemma Stop_inv: "Stop_step s = Some s' \<Longrightarrow> lc_inv s \<Longrightarrow> lc_inv s'"
  by (cases "stopOnce s"; simp add: Stop_step_def split: if_splits; hypsubst; simp add: lc_inv_def; blast)

lemma Loop_wake_inv: "Loop_wake s = Some s' \<Longrightarrow> lc_inv s \<Longrightarrow> lc_inv s'"
  by (auto simp: Loop_wake_def lc_inv_def split: if_splits)

lemma Loop_round_cases:
  assumes "Loop_round S K R s = Some s'"
  obtains (go) r e where "loop s = L_Round" "tick S K R (emulator s) = Some (r, e)"
      "s' = s\<lparr>emulator := e, loop := L_Select\<rparr>"
  | (panic) q e where "loop s = L_Round" "tick S K R (emulator s) = Some (Panic q, e)"
      "s' = s\<lparr>emulator := e, crashed := Some (Round_panic q)\<rparr>"
  using assms by (auto simp: Loop_round_def split: if_splits option.splits prod.splits res.splits)

lemma Loop_round_inv: "Loop_round S K R s = Some s' \<Longrightarrow> lc_inv s \<Longrightarrow> lc_inv s'"
  by (erule Loop_round_cases) (auto simp: lc_inv_def)

lemma Loop_quit_inv: "Loop_quit s = Some s' \<Longrightarrow> lc_inv s \<Longrightarrow> lc_inv s'"
  by (auto simp: Loop_quit_def lc_inv_def split: if_splits)

lemma Loop_done_inv: "Loop_done s = Some s' \<Longrightarrow> lc_inv s \<Longrightarrow> lc_inv s'"
  by (auto simp: Loop_done_def lc_inv_def split: if_splits)

lemma Loop_begin_inv: "Loop_begin s = Some s' \<Longrightarrow> lc_inv s \<Longrightarrow> lc_inv s'"
  by (auto simp: Loop_begin_def lc_inv_def split: if_splits)

lemmas op_inv = Start_inv Stop_inv Loop_wake_inv Loop_round_inv Loop_quit_inv Loop_done_inv Loop_begin_inv

lemma lc_inv_step: "lc_inv s \<Longrightarrow> lstep S K R a s s' \<Longrightarrow> lc_inv s'"
  by (erule lstepE; erule (1) op_inv)

lemma lc_inv_wg:
  "lc_inv s \<Longrightarrow> wg s = (if startOnce s = S_Spawn \<or> loop s \<in> {L_Begin, L_Select, L_Round, L_Exit} then 1 else 0)"
  by (simp add: lc_inv_def)

lemma lc_inv_fresh: "lc_inv (fresh e)"
  by (simp add: lc_inv_def fresh_def)

interpretation lifecycle: inductive_invariant "move S K R" "\<lambda>s. \<exists>e. s = fresh e" lc_inv for S K R
  by unfold_locales (auto simp: lc_inv_fresh move_def dest: lc_inv_step)

text \<open>
  C9: In every state an emulator can reach, however \<^verbatim>\<open>Start\<close>, \<^verbatim>\<open>Stop\<close> and the loop interleave: the wait
  group counts one exactly while the loop is about to be spawned or has not left, and never goes
  below zero; the channel \<^verbatim>\<open>quit\<close> is closed once, by \<^verbatim>\<open>Stop\<close>; and the loop leaves only after that.
\<close>

theorem lifecycle_invariant:
  assumes "(move S K R)\<^sup>*\<^sup>* (fresh e) s"
  shows "wg s = (if startOnce s = S_Spawn \<or> loop s \<in> {L_Begin, L_Select, L_Round, L_Exit} then 1 else 0) \<and>
    (loop s = L_None \<longleftrightarrow> startOnce s \<noteq> S_Done) \<and>
    (quit s \<longleftrightarrow> stopOnce s \<in> {P_Wait, P_Done}) \<and>
    (loop s \<in> {L_Exit, L_Exited} \<longrightarrow> quit s) \<and>
    crashed s \<notin> {Some Close_of_closed_channel, Some Negative_WaitGroup}"
proof -
  have "lc_inv s" using lifecycle.reachable_inv assms by blast
  then show ?thesis by (simp add: lc_inv_def) blast
qed

section \<open>What a step leaves alone\<close>

lemma UpdateParams_emulator: "UpdateParams R (ce, w) = (r, (ce', w')) \<Longrightarrow> \<exists>p. ce' = ce\<lparr>params := p\<rparr>"
  by (auto simp: UpdateParams_def split: prod.splits res.splits intro: exI [of _ "params ce"])

lemma tick_emulator: "tick S K R (ce, w) = Some (r, (ce', w')) \<Longrightarrow> \<exists>p. ce' = ce\<lparr>params := p\<rparr>"
  by (auto simp: tick_def split: prod.splits res.splits option.splits dest: UpdateParams_emulator)

lemma emulator_unchanged:
  "Start_step s = Some s' \<Longrightarrow> emulator s' = emulator s"
  "Stop_step s = Some s' \<Longrightarrow> emulator s' = emulator s"
  "Loop_wake s = Some s' \<Longrightarrow> emulator s' = emulator s"
  "Loop_quit s = Some s' \<Longrightarrow> emulator s' = emulator s"
  "Loop_done s = Some s' \<Longrightarrow> emulator s' = emulator s"
  "Loop_begin s = Some s' \<Longrightarrow> emulator s' = emulator s"
  by (auto simp: step_defs split: start_pc.splits stop_pc.splits if_splits)

text \<open>The configuration stays what it is.\<close>

lemma config_step:
  assumes "lstep S K R a s s'"
  shows "config (fst (emulator s')) = config (fst (emulator s))"
  using assms
proof (cases rule: lstep.cases)
  case round
  have "config (fst e) = config (fst (emulator s))" if "tick S K R (emulator s) = Some (r, e)" for r e
    using tick_emulator [of S K R "fst (emulator s)" "snd (emulator s)" r "fst e" "snd e"] that by auto
  with round(3) show ?thesis by (cases rule: Loop_round_cases) auto
qed (simp_all add: emulator_unchanged)

interpretation steady: inductive_invariant "move S K R" "\<lambda>s. \<exists>w. s = fresh (ce, w)" "\<lambda>s. config (fst (emulator s)) = config ce"
  for S :: signing_lib and K :: "'x keyring_lib" and R and ce :: "'x CovenantEmulator"
  by unfold_locales (auto simp: fresh_def move_def dest: config_step)

section \<open>After Stop\<close>

definition stops_inv :: "'x machine \<Rightarrow> bool" where
  "stops_inv s \<longleftrightarrow> lc_inv s \<and> startOnce s = S_Done \<and> (stopOnce s = P_Done \<longrightarrow> loop s = L_Exited)"

lemma started_stays: "lstep S K R a s s' \<Longrightarrow> startOnce s = S_Done \<Longrightarrow> startOnce s' = S_Done"
  by (erule lstepE)
    (auto simp: step_defs elim!: Loop_round_cases split: stop_pc.splits if_splits)

lemma lc_inv_left: "lc_inv s \<Longrightarrow> startOnce s = S_Done \<Longrightarrow> wg s = 0 \<Longrightarrow> loop s = L_Exited"
  by (cases "loop s") (simp_all add: lc_inv_def)

lemma stops_inv_step:
  assumes "stops_inv s" and "lstep S K R a s s'"
  shows "stops_inv s'"
proof -
  have inv: "lc_inv s" "startOnce s = S_Done" using assms(1) by (simp_all add: stops_inv_def)
  from assms(2) have "stopOnce s' = P_Done \<longrightarrow> loop s' = L_Exited"
  proof (cases rule: lstep.cases)
    case stop
    with inv assms(1) show ?thesis
      by (cases "stopOnce s"; simp add: Stop_step_def split: if_splits; hypsubst)
        (simp_all add: lc_inv_left)
  next
    case round
    with assms(1) show ?thesis by (elim Loop_round_cases) (auto simp: stops_inv_def)
  qed (use assms(1) inv in \<open>auto simp: stops_inv_def step_defs split: if_splits\<close>)
  with inv assms(2) show ?thesis by (simp add: stops_inv_def lc_inv_step started_stays)
qed

interpretation stopping: inductive_invariant "move S K R"
    "\<lambda>s. lc_inv s \<and> startOnce s = S_Done \<and> stopOnce s \<noteq> P_Done" stops_inv
  for S :: signing_lib and K :: "'x keyring_lib" and R
proof unfold_locales
  fix s s' :: "'x machine"
  show "lc_inv s \<and> startOnce s = S_Done \<and> stopOnce s \<noteq> P_Done \<Longrightarrow> stops_inv s"
    by (simp add: stops_inv_def)
  show "stops_inv s \<Longrightarrow> move S K R s s' \<Longrightarrow> stops_inv s'"
    unfolding move_def by (blast dest: stops_inv_step)
qed

text \<open>Once the loop has left, nothing touches the emulator any more.\<close>

definition left_inv :: "'x CovenantEmulator \<times> 'x world \<Rightarrow> 'x machine \<Rightarrow> bool" where
  "left_inv e s \<longleftrightarrow> startOnce s = S_Done \<and> loop s = L_Exited \<and> emulator s = e"

lemma left_inv_step: "left_inv e s \<Longrightarrow> lstep S K R a s s' \<Longrightarrow> left_inv e s'"
  by (erule lstepE)
    (auto simp: left_inv_def step_defs elim!: Loop_round_cases split: stop_pc.splits if_splits)

interpretation leaving: inductive_invariant "move S K R" "left_inv e" "left_inv e" for S K R e
  by unfold_locales (auto simp: move_def dest: left_inv_step)

text \<open>
  C12: If \<^verbatim>\<open>Start\<close> has returned before \<^verbatim>\<open>Stop\<close> is called, then when \<^verbatim>\<open>Stop\<close> returns the submission loop has
  left, and from then on nothing changes the emulator or the world: no round runs, nothing is sent.
\<close>

theorem Stop_ends_submission:
  assumes "(move S K R)\<^sup>*\<^sup>* (fresh e) s" and "startOnce s = S_Done" and "stopOnce s = P_Idle"
    and "(move S K R)\<^sup>*\<^sup>* s s'" and "stopOnce s' = P_Done" and "(move S K R)\<^sup>*\<^sup>* s' s''"
  shows "loop s' = L_Exited \<and> loop s'' = L_Exited \<and> emulator s'' = emulator s'"
proof -
  have "lc_inv s" using lifecycle.reachable_inv assms(1) by blast
  with assms(2-4) have "stops_inv s'"
    by (intro stopping.reachable_inv [of s S K R s']) auto
  with assms(5) have "left_inv (emulator s') s'" by (simp add: stops_inv_def left_inv_def)
  from leaving.reachable_inv [OF this assms(6)] \<open>left_inv (emulator s') s'\<close> show ?thesis
    by (simp add: left_inv_def)
qed

section \<open>Concrete runs\<close>

lemma moves:
  "crashed s = None \<Longrightarrow> Start_step s = Some s' \<Longrightarrow> move S K R s s'"
  "crashed s = None \<Longrightarrow> Stop_step s = Some s' \<Longrightarrow> move S K R s s'"
  "crashed s = None \<Longrightarrow> Loop_wake s = Some s' \<Longrightarrow> move S K R s s'"
  "crashed s = None \<Longrightarrow> Loop_round S K R s = Some s' \<Longrightarrow> move S K R s s'"
  "crashed s = None \<Longrightarrow> Loop_quit s = Some s' \<Longrightarrow> move S K R s s'"
  "crashed s = None \<Longrightarrow> Loop_done s = Some s' \<Longrightarrow> move S K R s s'"
  "crashed s = None \<Longrightarrow> Loop_begin s = Some s' \<Longrightarrow> move S K R s s'"
  unfolding move_def by (blast intro: lstep.intros)+

text \<open>The emulator between \<^verbatim>\<open>Start\<close> and \<^verbatim>\<open>Stop\<close>, and after both.\<close>

definition running :: "'x CovenantEmulator \<times> 'x world \<Rightarrow> 'x machine" where
  "running e = (fresh e)\<lparr>startOnce := S_Done, wg := 1, loop := L_Select\<rparr>"

definition stopped :: "'x CovenantEmulator \<times> 'x world \<Rightarrow> 'x machine" where
  "stopped e = (fresh e)\<lparr>startOnce := S_Done, stopOnce := P_Done, quit := True, loop := L_Exited\<rparr>"

abbreviation ticks :: "'x CovenantEmulator \<times> 'x world \<Rightarrow> bool" where
  "ticks e \<equiv> 0 < sint (QueryInterval (config (fst e)))"

lemma fresh_running: "ticks e \<Longrightarrow> (move S K R)\<^sup>*\<^sup>* (fresh e) (running e)"
proof -
  assume e: "ticks e"
  let ?t = "(fresh e)\<lparr>startOnce := S_Done, wg := 1, loop := L_Begin\<rparr>"
  have "move S K R (fresh e) ((fresh e)\<lparr>startOnce := S_Add\<rparr>)"
      "move S K R ((fresh e)\<lparr>startOnce := S_Add\<rparr>) ((fresh e)\<lparr>startOnce := S_Spawn, wg := 1\<rparr>)"
      "move S K R ((fresh e)\<lparr>startOnce := S_Spawn, wg := 1\<rparr>) ?t"
    by (rule moves(1); simp add: Start_step_def fresh_def running_def)+
  moreover have "move S K R ?t (running e)"
    by (rule moves(7)) (use e in \<open>simp_all add: Loop_begin_def fresh_def running_def\<close>)
  ultimately show ?thesis by (meson converse_rtranclp_into_rtranclp r_into_rtranclp)
qed

lemma sample_ticks: "ticks (sample_live, w)"
  by (simp add: sample_live_def sample_emulator_def sample_config_def)

text \<open>With \<^verbatim>\<open>quit\<close> closed, the loop at its select can leave and \<^verbatim>\<open>Stop\<close> can return.\<close>

lemma select_to_stopped:
  assumes "loop s = L_Select" and "quit s" and "wg s = 1" and "stopOnce s = P_Wait" and "crashed s = None"
  shows "(move S K R)\<^sup>*\<^sup>* s (s\<lparr>loop := L_Exited, wg := 0, stopOnce := P_Done\<rparr>)"
proof -
  have "move S K R s (s\<lparr>loop := L_Exit\<rparr>)"
    by (rule moves(5)) (use assms in \<open>simp_all add: Loop_quit_def\<close>)
  moreover have "move S K R (s\<lparr>loop := L_Exit\<rparr>) (s\<lparr>loop := L_Exited, wg := 0\<rparr>)"
    by (rule moves(6)) (use assms in \<open>simp_all add: Loop_done_def\<close>)
  moreover have "move S K R (s\<lparr>loop := L_Exited, wg := 0\<rparr>) (s\<lparr>loop := L_Exited, wg := 0, stopOnce := P_Done\<rparr>)"
    by (rule moves(2)) (use assms in \<open>simp_all add: Stop_step_def\<close>)
  ultimately show ?thesis by (meson converse_rtranclp_into_rtranclp r_into_rtranclp)
qed

lemma running_stopped: "(move S K R)\<^sup>*\<^sup>* (running e) (stopped e)"
proof -
  let ?s = "(running e)\<lparr>stopOnce := P_Wait, quit := True\<rparr>"
  have "move S K R (running e) ((running e)\<lparr>stopOnce := P_Close\<rparr>)"
      "move S K R ((running e)\<lparr>stopOnce := P_Close\<rparr>) ?s"
    by (rule moves(2); simp add: Stop_step_def fresh_def running_def)+
  moreover have "(move S K R)\<^sup>*\<^sup>* ?s (stopped e)"
    using select_to_stopped [of ?s S K R] by (simp add: running_def fresh_def stopped_def)
  ultimately show ?thesis by (meson converse_rtranclp_into_rtranclp)
qed

theorem lifecycle_invariant_witness:
  "wg (running (sample_live, sample_run)) = 1 \<and> \<not> quit (running (sample_live, sample_run))"
  using lifecycle_invariant [OF fresh_running [OF sample_ticks, of sample_signing sample_keyring sample_retry sample_run]]
  by (simp add: running_def fresh_def)

theorem Stop_ends_submission_witness:
  "loop (stopped (sample_live, sample_run)) = L_Exited"
  using Stop_ends_submission [OF fresh_running [OF sample_ticks, of sample_signing sample_keyring sample_retry sample_run]
      _ _ running_stopped, of "stopped (sample_live, sample_run)"]
  by (simp add: running_def stopped_def fresh_def)

text \<open>Two ways in which \<^verbatim>\<open>Stop\<close> gets to return.\<close>

lemma stops_at_select:
  assumes "(move S K R)\<^sup>*\<^sup>* s t" "loop t = L_Select" "quit t" "wg t = 1" "stopOnce t = P_Wait" "crashed t = None"
  shows "\<exists>s'. (move S K R)\<^sup>*\<^sup>* s s' \<and> stopOnce s' = P_Done \<and> crashed s' = None"
  using select_to_stopped [OF assms(2-6), of S K R] assms(1,6)
  by (intro exI [of _ "t\<lparr>loop := L_Exited, wg := 0, stopOnce := P_Done\<rparr>"]) (simp add: rtranclp_trans)

lemma stops_at_zero:
  assumes "(move S K R)\<^sup>*\<^sup>* s t" "wg t = 0" "stopOnce t = P_Wait" "crashed t = None"
  shows "\<exists>s'. (move S K R)\<^sup>*\<^sup>* s s' \<and> stopOnce s' = P_Done \<and> crashed s' = None"
proof -
  have "move S K R t (t\<lparr>stopOnce := P_Done\<rparr>)"
    by (rule moves(2)) (use assms in \<open>simp_all add: Stop_step_def\<close>)
  with assms show ?thesis by (intro exI [of _ "t\<lparr>stopOnce := P_Done\<rparr>"]) (simp add: rtranclp.rtrancl_into_rtrancl)
qed

text \<open>
  C13: With a positive query interval \<^verbatim>\<open>Stop\<close> can always return: from every reachable state in which it
  waits, if a round in progress ends without a panic, the loop can leave and the wait group reach zero,
  so that \<^verbatim>\<open>Stop\<close> is not stuck, whether \<^verbatim>\<open>Start\<close> was never called, is in the middle of spawning the loop,
  or has returned.
\<close>

theorem Stop_can_return:
  assumes "(move S K R)\<^sup>*\<^sup>* (fresh e) s" and "stopOnce s = P_Wait" and "crashed s = None"
    and "0 < sint (QueryInterval (config (fst e)))"
    and "loop s = L_Round \<Longrightarrow> \<exists>r e'. tick S K R (emulator s) = Some (r, e') \<and> (\<forall>q. r \<noteq> Panic q)"
  shows "\<exists>s'. (move S K R)\<^sup>*\<^sup>* s s' \<and> stopOnce s' = P_Done \<and> crashed s' = None"
proof -
  have inv: "lc_inv s" using lifecycle.reachable_inv assms(1) by blast
  have t: "ticks (emulator s)"
    using steady.reachable_inv [OF _ assms(1), of "fst e"] assms(4) by (metis prod.collapse)
  have q: "quit s" using inv assms(2) by (simp add: lc_inv_def)
  have begin_loop: "move S K R u (u\<lparr>loop := L_Select\<rparr>)" if "loop u = L_Begin" "emulator u = emulator s" "crashed u = None" for u
    by (rule moves(7)) (use that t in \<open>simp_all add: Loop_begin_def\<close>)
  consider (zero) "wg s = 0" | (spawn) "startOnce s = S_Spawn" "wg s = 1" | (begins) "loop s = L_Begin" "wg s = 1"
    | (select) "loop s = L_Select" "wg s = 1" | (round) "loop s = L_Round" "wg s = 1" | (exit) "loop s = L_Exit" "wg s = 1"
    using lc_inv_wg [OF inv] by (auto split: if_splits)
  then show ?thesis
  proof cases
    case zero
    with assms(2,3) show ?thesis by (intro stops_at_zero [of S K R s s]) simp_all
  next
    case spawn
    let ?u = "s\<lparr>loop := L_Begin, startOnce := S_Done\<rparr>"
    have "move S K R s ?u" by (rule moves(1)) (use spawn assms(3) in \<open>simp_all add: Start_step_def\<close>)
    moreover have "move S K R ?u (?u\<lparr>loop := L_Select\<rparr>)" by (rule begin_loop) (use assms(3) in simp_all)
    ultimately have "(move S K R)\<^sup>*\<^sup>* s (?u\<lparr>loop := L_Select\<rparr>)" by (meson converse_rtranclp_into_rtranclp r_into_rtranclp)
    then show ?thesis by (rule stops_at_select) (use spawn q assms(2,3) in simp_all)
  next
    case begins
    have "(move S K R)\<^sup>*\<^sup>* s (s\<lparr>loop := L_Select\<rparr>)" by (rule r_into_rtranclp, rule begin_loop) (use begins assms(3) in simp_all)
    then show ?thesis by (rule stops_at_select) (use begins q assms(2,3) in simp_all)
  next
    case select
    with q assms(2,3) show ?thesis by (intro stops_at_select [of S K R s s]) simp_all
  next
    case round
    with assms(5) obtain r e' where r: "tick S K R (emulator s) = Some (r, e')" "\<forall>q. r \<noteq> Panic q" by blast
    have "move S K R s (s\<lparr>emulator := e', loop := L_Select\<rparr>)"
      by (rule moves(4)) (use r round assms(3) in \<open>auto simp: Loop_round_def split: res.splits\<close>)
    then have "(move S K R)\<^sup>*\<^sup>* s (s\<lparr>emulator := e', loop := L_Select\<rparr>)" by blast
    then show ?thesis by (rule stops_at_select) (use round q assms(2,3) in simp_all)
  next
    case exit
    have "move S K R s (s\<lparr>wg := 0, loop := L_Exited\<rparr>)"
      by (rule moves(6)) (use exit assms(3) in \<open>simp_all add: Loop_done_def\<close>)
    then show ?thesis by (intro stops_at_zero [of S K R s "s\<lparr>wg := 0, loop := L_Exited\<rparr>"]) (use assms(2,3) in auto)
  qed
qed

theorem Stop_can_return_witness:
  "\<exists>s'. (move sample_signing sample_keyring sample_retry)\<^sup>*\<^sup>*
      ((fresh (sample_live, sample_run))\<lparr>stopOnce := P_Wait, quit := True\<rparr>) s' \<and> stopOnce s' = P_Done"
proof -
  let ?e = "(sample_live, sample_run)"
  let ?s = "(fresh ?e)\<lparr>stopOnce := P_Wait, quit := True\<rparr>"
  let ?mv = "move sample_signing sample_keyring sample_retry"
  have "?mv (fresh ?e) ((fresh ?e)\<lparr>stopOnce := P_Close\<rparr>)" "?mv ((fresh ?e)\<lparr>stopOnce := P_Close\<rparr>) ?s"
    by (rule moves(2); simp add: Stop_step_def fresh_def)+
  then have "?mv\<^sup>*\<^sup>* (fresh ?e) ?s" by (meson converse_rtranclp_into_rtranclp r_into_rtranclp)
  from Stop_can_return [OF this] sample_ticks show ?thesis by (auto simp: fresh_def)
qed

section \<open>A query interval that is not positive\<close>

definition stuck_inv :: "'x CovenantEmulator \<times> 'x world \<Rightarrow> 'x machine \<Rightarrow> bool" where
  "stuck_inv e s \<longleftrightarrow> lc_inv s \<and> emulator s = e \<and> loop s \<in> {L_None, L_Begin}"

lemma stuck_inv_step:
  assumes "\<not> ticks e" and "stuck_inv e s" and "lstep S K R a s s'"
  shows "stuck_inv e s'"
proof -
  have "lc_inv s'" using assms(2,3) lc_inv_step by (auto simp: stuck_inv_def)
  with assms show ?thesis
    by (auto simp: stuck_inv_def step_defs Loop_round_def elim!: lstepE split: start_pc.splits stop_pc.splits if_splits)
qed

interpretation stuck: inductive_invariant "move S K R" "\<lambda>s. s = fresh e \<and> \<not> ticks e" "\<lambda>s. \<not> ticks e \<and> stuck_inv e s"
  for S :: signing_lib and K :: "'x keyring_lib" and R and e :: "'x CovenantEmulator \<times> 'x world"
  by unfold_locales (auto simp: stuck_inv_def lc_inv_fresh move_def dest: stuck_inv_step, simp_all add: fresh_def)

text \<open>
  C39: \<^verbatim>\<open>Validate\<close> accepts every query interval, but with one that is not positive the daemon never does a
  round: in every reachable state the emulator and the world are as they were, and once \<^verbatim>\<open>Start\<close> has spawned
  the loop, the only thing the loop can do is to crash the process when it makes its ticker. Until then a
  \<^verbatim>\<open>Stop\<close> that has begun to wait cannot return.
\<close>

theorem nonpositive_interval_crashes:
  assumes "(move S K R)\<^sup>*\<^sup>* (fresh e) s" and "sint (QueryInterval (config (fst e))) \<le> 0"
  shows "emulator s = e \<and> loop s \<in> {L_None, L_Begin} \<and>
    (crashed s = None \<and> loop s = L_Begin \<longrightarrow>
       (\<exists>s'. lstep S K R Looper s s') \<and>
       (\<forall>s'. lstep S K R Looper s s' \<longrightarrow> crashed s' = Some Nonpositive_interval) \<and>
       (\<forall>s'. stopOnce s = P_Wait \<longrightarrow> \<not> lstep S K R Stopper s s')) \<and>
    (\<forall>c c' q. Validate c = Ok c' \<longrightarrow> Validate (c\<lparr>QueryInterval := q\<rparr>) = Ok (c'\<lparr>QueryInterval := q\<rparr>))"
proof -
  have inv: "lc_inv s" "emulator s = e" "loop s \<in> {L_None, L_Begin}"
    using stuck.reachable_inv [OF _ assms(1), of e] assms(2) by (simp_all add: stuck_inv_def)
  have "\<exists>s'. lstep S K R Looper s s'" if "crashed s = None" "loop s = L_Begin"
    by (rule exI, rule lstep.ticker) (use that in \<open>simp_all add: Loop_begin_def\<close>)
  moreover have "crashed s' = Some Nonpositive_interval" if "loop s = L_Begin" "lstep S K R Looper s s'" for s'
    using that(2,1) inv(2) assms(2) by (auto simp: step_defs Loop_round_def elim!: lstepE)
  moreover have "\<not> lstep S K R Stopper s s'" if "loop s = L_Begin" "stopOnce s = P_Wait" for s'
    using lc_inv_wg [OF inv(1)] that by (auto simp: Stop_step_def elim!: lstepE)
  moreover have "Validate c = Ok c' \<Longrightarrow> Validate (c\<lparr>QueryInterval := q\<rparr>) = Ok (c'\<lparr>QueryInterval := q\<rparr>)" for c c' q
    by (auto simp: Validate_def split: if_splits)
  ultimately show ?thesis using inv(2,3) by blast
qed

theorem nonpositive_interval_crashes_witness:
  "\<exists>s. (move sample_signing sample_keyring sample_retry)\<^sup>*\<^sup>*
      (fresh (sample_live\<lparr>config := (config sample_live)\<lparr>QueryInterval := 0\<rparr>\<rparr>, sample_run)) s \<and>
     crashed s = Some Nonpositive_interval"
proof -
  let ?e = "(sample_live\<lparr>config := (config sample_live)\<lparr>QueryInterval := 0\<rparr>\<rparr>, sample_run)"
  let ?mv = "move sample_signing sample_keyring sample_retry"
  let ?t = "(fresh ?e)\<lparr>startOnce := S_Done, wg := 1, loop := L_Begin\<rparr>"
  have "?mv (fresh ?e) ((fresh ?e)\<lparr>startOnce := S_Add\<rparr>)"
      "?mv ((fresh ?e)\<lparr>startOnce := S_Add\<rparr>) ((fresh ?e)\<lparr>startOnce := S_Spawn, wg := 1\<rparr>)"
      "?mv ((fresh ?e)\<lparr>startOnce := S_Spawn, wg := 1\<rparr>) ?t"
    by (rule moves(1); simp add: Start_step_def fresh_def)+
  then have t: "?mv\<^sup>*\<^sup>* (fresh ?e) ?t" by (meson converse_rtranclp_into_rtranclp r_into_rtranclp)
  have "crashed ?t = None" "loop ?t = L_Begin" by (simp_all add: fresh_def)
  with nonpositive_interval_crashes [OF t] obtain s where "lstep sample_signing sample_keyring sample_retry Looper ?t s"
      "crashed s = Some Nonpositive_interval"
    by auto
  moreover from this have "?mv ?t s" unfolding move_def by blast
  ultimately show ?thesis using t by (meson rtranclp.rtrancl_into_rtrancl)
qed

section \<open>Everything the daemon ever sends\<close>

text \<open>
  \<open>round_justified ce e txs\<close>: what a round that begins with the emulator and the world \<open>e\<close> may send. The
  parameters \<open>p\<close> are those that the chain reports to this round and \<open>dels\<close> are the delegations that the node
  then reports as pending; each transaction carries signatures, one to one, for some of those of \<open>dels\<close> that
  lack this emulator's signature, each approved under \<open>p\<close>, and no two messages of the round are for the
  same entry of \<open>dels\<close>. \<open>justified\<close> is what this says of a single transaction.
\<close>

definition round_justified where
  "round_justified L bc S R ce e txs \<longleftrightarrow>
     (\<exists>p w1 w2 w3 dels bs. UpdateParams R e = (Ok (), (ce\<lparr>params := Some p\<rparr>, w2)) \<and>
        QueryStakingParams L bc w1 = (Ok p, w2) \<and>
        QueryPendingDelegations L (DelegationLimit (config ce)) w2 = (Ok (map Some dels), w3) \<and>
        list_all2 (covers (carries L) S (ce\<lparr>params := Some p\<rparr>)) txs bs \<and>
        subseq (concat bs) (map Some (filter (needs_sig S ce) dels)))"

definition justified :: "'x bbn_lib \<Rightarrow> BabylonController \<Rightarrow> signing_lib \<Rightarrow> 'x CovenantEmulator \<Rightarrow> sdk_Msg list \<Rightarrow> bool" where
  "justified L bc S ce ms \<longleftrightarrow>
     (\<exists>p w1 w2 w3 dels ds. QueryStakingParams L bc w1 = (Ok p, w2) \<and>
        QueryPendingDelegations L (DelegationLimit (config ce)) w2 = (Ok (map Some dels), w3) \<and>
        set ds \<subseteq> {d \<in> set dels. needs_sig S ce d} \<and> covers (carries L) S (ce\<lparr>params := Some p\<rparr>) ms (map Some ds))"

lemma list_all2_partner: "list_all2 P xs ys \<Longrightarrow> x \<in> set xs \<Longrightarrow> \<exists>y \<in> set ys. P x y"
  by (induction rule: list_all2_induct) auto

lemma subseq_batches:
  assumes "subseq (concat bs) (map Some (filter P ds))" and "b \<in> set bs"
  shows "\<exists>es. b = map Some es \<and> set es \<subseteq> {d \<in> set ds. P d}"
proof -
  have *: "d \<in> Some ` {d \<in> set ds. P d}" if "d \<in> set b" for d
  proof -
    have "d \<in> set (concat bs)" using that assms(2) by auto
    with assms(1) obtain y where "y \<in> set (map Some (filter P ds))" "d = y" by (rule list_emb_set)
    then show ?thesis by auto
  qed
  then have "map Some (map the b) = b" by (fastforce intro!: map_idI)
  moreover have "set (map the b) \<subseteq> {d \<in> set ds. P d}" using * by force
  ultimately show ?thesis by metis
qed

lemma round_justified_each:
  assumes "round_justified L bc S R ce e txs" and "ms \<in> set txs"
  shows "justified L bc S ce ms"
proof -
  from assms(1) obtain p w1 w2 w3 dels bs where p: "QueryStakingParams L bc w1 = (Ok p, w2)"
      "QueryPendingDelegations L (DelegationLimit (config ce)) w2 = (Ok (map Some dels), w3)"
    and bs: "list_all2 (covers (carries L) S (ce\<lparr>params := Some p\<rparr>)) txs bs"
      "subseq (concat bs) (map Some (filter (needs_sig S ce) dels))"
    unfolding round_justified_def by blast
  obtain b where b: "b \<in> set bs" "covers (carries L) S (ce\<lparr>params := Some p\<rparr>) ms b"
    using list_all2_partner [OF bs(1) assms(2)] by blast
  obtain es where "b = map Some es" "set es \<subseteq> {d \<in> set dels. needs_sig S ce d}"
    using subseq_batches [OF bs(2) b(1)] by blast
  with p b(2) show ?thesis unfolding justified_def by blast
qed

lemma tick_justified:
  assumes "retries R" and "cc ce = babylon_cc L bc" and "go_sized (babylon_cc L bc)"
    and "tick S K R (ce\<lparr>params := p0\<rparr>, w) = Some (r, (ce', w'))"
  shows "\<exists>txs p. sent w' = sent w @ txs \<and> ce' = ce\<lparr>params := p\<rparr> \<and>
    (txs = [] \<or> round_justified L bc S R ce (ce\<lparr>params := p0\<rparr>, w) txs)"
proof -
  have c: "cc (ce\<lparr>params := p0\<rparr>) = babylon_cc L bc" using assms(2) by simp
  obtain txs "some" where t: "sent w' = sent w @ txs" "list_all2 (covers (carries L) S ce') txs some"
      "txs = [] \<or> (\<exists>p w1 w2 w3 dels. UpdateParams R (ce\<lparr>params := p0\<rparr>, w) = (Ok (), (ce', w2)) \<and>
         QueryStakingParams_cc (babylon_cc L bc) w1 = (Ok p, w2) \<and>
         ce' = ce\<lparr>params := p0\<rparr>\<lparr>params := Some p\<rparr> \<and>
         QueryPendingDelegations_cc (babylon_cc L bc) (DelegationLimit (config (ce\<lparr>params := p0\<rparr>))) w2 = (Ok (map Some dels), w3) \<and>
         subseq (concat some) (map Some (filter (needs_sig S (ce\<lparr>params := p0\<rparr>)) dels)))"
    using babylon.tick_safe [OF assms(1) c assms(3,4)] by blast
  have "txs = [] \<or> round_justified L bc S R ce (ce\<lparr>params := p0\<rparr>, w) txs"
    using t(2,3) unfolding round_justified_def by (auto simp: babylon_cc_def needs_sig_def [abs_def]; blast)
  with t(1) tick_emulator [OF assms(4)] show ?thesis by auto
qed

end
