(* ===== verification/Server.thy ===== *)
theory Server
  imports Lifecycle
begin

text \<open>
  The package \<^verbatim>\<open>covenant/service\<close> (server.go): \<^verbatim>\<open>RunUntilShutdown\<close> starts the emulator, waits for the
  shutdown signal and, by its deferred function, stops the emulator. Any number of goroutines may
  call it; each is a program counter, and they interleave with the emulator's own steps. The bodies of
  \<^verbatim>\<open>Start\<close> and \<^verbatim>\<open>Stop\<close> move only while a caller is inside the corresponding call.
\<close>

datatype run_pc = V_Start | V_Wait | V_Stop | V_Done | V_Returned

record 'x server =
  started :: i32
  callers :: "run_pc list"
  shutdown :: bool
  core :: "'x machine"

definition NewCovenantServer :: "'x CovenantEmulator \<times> 'x world \<Rightarrow> 'x server" where
  "NewCovenantServer e = \<lparr>started = 0, callers = [], shutdown = False, core = fresh e\<rparr>"

text \<open>\<^verbatim>\<open>atomic.AddInt32(&s.started, 1) != 1\<close>: only the caller that brings the counter to one goes on.\<close>

definition RunUntilShutdown_enter :: "'x server \<Rightarrow> 'x server" where
  "RunUntilShutdown_enter s =
     (let n = started s + 1 in
      s\<lparr>started := n, callers := callers s @ [if n \<noteq> 1 then V_Returned else V_Start]\<rparr>)"

text \<open>A caller goes on when \<^verbatim>\<open>Start\<close> has returned, when the signal is there, and when \<^verbatim>\<open>Stop\<close> has returned.\<close>

definition RunUntilShutdown_next :: "'x server \<Rightarrow> run_pc \<Rightarrow> run_pc option" where
  "RunUntilShutdown_next s c =
     (case c of
        V_Start \<Rightarrow> (if startOnce (core s) = S_Done then Some V_Wait else None)
      | V_Wait \<Rightarrow> (if shutdown s then Some V_Stop else None)
      | V_Stop \<Rightarrow> (if stopOnce (core s) = P_Done then Some V_Done else None)
      | V_Done \<Rightarrow> None
      | V_Returned \<Rightarrow> None)"

inductive sstep :: "signing_lib \<Rightarrow> 'x keyring_lib \<Rightarrow> (StakingParams option \<times> 'x world) retrier \<Rightarrow>
    'x server \<Rightarrow> 'x server \<Rightarrow> bool"
  for S K R where
  call: "crashed (core s) = None \<Longrightarrow> sstep S K R s (RunUntilShutdown_enter s)"
| signal: "crashed (core s) = None \<Longrightarrow> sstep S K R s (s\<lparr>shutdown := True\<rparr>)"
| advance: "crashed (core s) = None \<Longrightarrow> i < length (callers s) \<Longrightarrow>
    RunUntilShutdown_next s (callers s ! i) = Some c \<Longrightarrow> sstep S K R s (s\<lparr>callers := (callers s)[i := c]\<rparr>)"
| core: "lstep S K R a (core s) m \<Longrightarrow> (a = Starter \<longrightarrow> V_Start \<in> set (callers s)) \<Longrightarrow>
    (a = Stopper \<longrightarrow> V_Stop \<in> set (callers s)) \<Longrightarrow> sstep S K R s (s\<lparr>core := m\<rparr>)"

inductive_cases sstepE: "sstep S K R s s'"

section \<open>Start before Stop, Stop before the end\<close>

definition caller_ok :: "'x machine \<Rightarrow> bool \<Rightarrow> run_pc \<Rightarrow> bool" where
  "caller_ok m signal c \<longleftrightarrow>
     (c \<in> {V_Wait, V_Stop, V_Done} \<longrightarrow> startOnce m = S_Done) \<and>
     (c \<in> {V_Stop, V_Done} \<longrightarrow> signal) \<and>
     (c = V_Done \<longrightarrow> stopOnce m = P_Done)"

definition srv_inv :: "'x server \<Rightarrow> bool" where
  "srv_inv s \<longleftrightarrow> lc_inv (core s) \<and> list_all (caller_ok (core s) (shutdown s)) (callers s) \<and>
     (stopOnce (core s) \<noteq> P_Idle \<longrightarrow> stops_inv (core s) \<and> shutdown s)"

lemma caller_ok_simps [simp]:
  "caller_ok m signal V_Start" "caller_ok m signal V_Returned"
  "caller_ok m signal V_Wait \<longleftrightarrow> startOnce m = S_Done"
  "caller_ok m signal V_Stop \<longleftrightarrow> startOnce m = S_Done \<and> signal"
  "caller_ok m signal V_Done \<longleftrightarrow> startOnce m = S_Done \<and> signal \<and> stopOnce m = P_Done"
  by (auto simp: caller_ok_def)

lemma caller_ok_mono:
  "caller_ok m signal c \<Longrightarrow> (startOnce m = S_Done \<Longrightarrow> startOnce m' = S_Done) \<Longrightarrow>
     (stopOnce m = P_Done \<Longrightarrow> stopOnce m' = P_Done) \<Longrightarrow> (signal \<Longrightarrow> signal') \<Longrightarrow> caller_ok m' signal' c"
  by (cases c) simp_all

lemma stopper_only: "lstep S K R a s s' \<Longrightarrow> a \<noteq> Stopper \<Longrightarrow> stopOnce s' = stopOnce s"
  by (erule lstepE)
    (auto simp: step_defs elim!: Loop_round_cases split: start_pc.splits if_splits)

lemma stop_stays: "lstep S K R a s s' \<Longrightarrow> stopOnce s = P_Done \<Longrightarrow> stopOnce s' = P_Done"
  by (cases "a = Stopper") (auto simp: Stop_step_def stopper_only elim: lstepE)

lemma srv_inv_core:
  assumes "srv_inv s" and "lstep S K R a (core s) m" and "a = Stopper \<longrightarrow> V_Stop \<in> set (callers s)"
  shows "srv_inv (s\<lparr>core := m\<rparr>)"
proof -
  have inv: "lc_inv (core s)" "list_all (caller_ok (core s) (shutdown s)) (callers s)"
      "stopOnce (core s) \<noteq> P_Idle \<longrightarrow> stops_inv (core s) \<and> shutdown s"
    using assms(1) by (simp_all add: srv_inv_def)
  have "stops_inv m \<and> shutdown s" if "stopOnce m \<noteq> P_Idle"
  proof (cases "stopOnce (core s) = P_Idle")
    case True
    with that assms(2) have "a = Stopper" by (metis stopper_only)
    with assms(3) inv(2) have "caller_ok (core s) (shutdown s) V_Stop" unfolding list_all_iff by blast
    then have "startOnce (core s) = S_Done" "shutdown s" by simp_all
    moreover from this True inv(1) have "stops_inv (core s)" by (simp add: stops_inv_def)
    ultimately show ?thesis using stops_inv_step assms(2) by blast
  next
    case False
    with inv(3) assms(2) stops_inv_step show ?thesis by blast
  qed
  moreover have "list_all (caller_ok m (shutdown s)) (callers s)"
    using inv(2) by (rule list.pred_mono_strong)
      (rule caller_ok_mono, assumption, erule started_stays [OF assms(2)], erule stop_stays [OF assms(2)])
  ultimately show ?thesis using lc_inv_step [OF inv(1) assms(2)] by (simp add: srv_inv_def)
qed

lemma srv_inv_advance:
  assumes "srv_inv s" and "i < length (callers s)" and "RunUntilShutdown_next s (callers s ! i) = Some c"
  shows "srv_inv (s\<lparr>callers := (callers s)[i := c]\<rparr>)"
proof -
  have ok: "list_all (caller_ok (core s) (shutdown s)) (callers s)" using assms(1) by (simp add: srv_inv_def)
  then have "caller_ok (core s) (shutdown s) (callers s ! i)" using assms(2) by (simp add: list_all_length)
  then have "caller_ok (core s) (shutdown s) c"
    using assms(3) by (cases "callers s ! i") (auto simp: RunUntilShutdown_next_def split: if_splits)
  with ok have "list_all (caller_ok (core s) (shutdown s)) ((callers s)[i := c])"
    using assms(2) by (auto simp: list_all_length nth_list_update)
  with assms(1) show ?thesis by (simp add: srv_inv_def)
qed

lemma srv_inv_call: "srv_inv s \<Longrightarrow> srv_inv (RunUntilShutdown_enter s)"
  by (simp add: srv_inv_def RunUntilShutdown_enter_def Let_def)

lemma srv_inv_signal: "srv_inv s \<Longrightarrow> srv_inv (s\<lparr>shutdown := True\<rparr>)"
proof -
  assume s: "srv_inv s"
  then have "list_all (caller_ok (core s) (shutdown s)) (callers s)" by (simp add: srv_inv_def)
  then have "list_all (caller_ok (core s) True) (callers s)"
    by (rule list.pred_mono_strong) (rule caller_ok_mono, simp_all)
  with s show "srv_inv (s\<lparr>shutdown := True\<rparr>)" by (simp add: srv_inv_def)
qed

lemma srv_inv_step: "sstep S K R s s' \<Longrightarrow> srv_inv s \<Longrightarrow> srv_inv s'"
  by (erule sstepE; hypsubst)
    (simp_all only: srv_inv_call srv_inv_signal srv_inv_advance srv_inv_core simp_thms)

interpretation serving: inductive_invariant "sstep S K R" "\<lambda>s. \<exists>e. s = NewCovenantServer e" srv_inv
  for S :: signing_lib and K :: "'x keyring_lib" and R
proof unfold_locales
  fix s s' :: "'x server"
  show "\<exists>e. s = NewCovenantServer e \<Longrightarrow> srv_inv s"
    by (auto simp: NewCovenantServer_def srv_inv_def lc_inv_fresh) (simp_all add: fresh_def)
  show "srv_inv s \<Longrightarrow> sstep S K R s s' \<Longrightarrow> srv_inv s'" by (rule srv_inv_step [rotated])
qed

text \<open>
  C14: When \<^verbatim>\<open>RunUntilShutdown\<close> returns after having run, the shutdown signal was there, the emulator was
  started and is stopped, and its submission loop has left; and before the signal \<^verbatim>\<open>Stop\<close> is never
  entered, so the loop is not told to leave.
\<close>

theorem RunUntilShutdown_stops:
  assumes "(sstep S K R)\<^sup>*\<^sup>* (NewCovenantServer e) s"
  shows "(V_Done \<in> set (callers s) \<longrightarrow>
      shutdown s \<and> startOnce (core s) = S_Done \<and> stopOnce (core s) = P_Done \<and> loop (core s) = L_Exited) \<and>
    (\<not> shutdown s \<longrightarrow> stopOnce (core s) = P_Idle \<and> \<not> quit (core s))"
proof -
  have srv: "srv_inv s" using serving.reachable_inv assms by blast
  have inv: "lc_inv (core s)" "list_all (caller_ok (core s) (shutdown s)) (callers s)"
      "stopOnce (core s) \<noteq> P_Idle \<longrightarrow> stops_inv (core s) \<and> shutdown s"
    using srv by (simp_all add: srv_inv_def)
  have "stopOnce (core s) = P_Idle \<longrightarrow> \<not> quit (core s)"
    using inv(1) by (simp add: lc_inv_def)
  moreover have "V_Done \<in> set (callers s) \<longrightarrow> caller_ok (core s) (shutdown s) V_Done"
    using inv(2) unfolding list_all_iff by blast
  ultimately show ?thesis using inv(3) by (auto simp: stops_inv_def)
qed

section \<open>One caller runs\<close>

definition one_inv :: "'x server \<Rightarrow> bool" where
  "one_inv s \<longleftrightarrow> started s = of_nat (length (callers s)) \<and>
     (length (callers s) < 2 ^ 32 \<longrightarrow>
        length (filter (\<lambda>c. c \<noteq> V_Returned) (callers s)) = (if callers s = [] then 0 else 1))"

lemma length_filter_update:
  "i < length xs \<Longrightarrow> P (xs ! i) \<Longrightarrow> P c \<Longrightarrow> length (filter P (xs[i := c])) = length (filter P xs)"
  by (induction xs arbitrary: i) (auto simp: nth_Cons split: nat.splits)

lemma of_nat_u32_one: "0 < n \<Longrightarrow> n < 2 ^ 32 - 1 \<Longrightarrow> (of_nat n + 1 :: i32) \<noteq> 1"
proof
  assume n: "0 < n" "n < 2 ^ 32 - 1" "(of_nat n + 1 :: i32) = 1"
  then have "unat (of_nat n :: i32) = 0" by simp
  with n(1,2) show False by (simp add: unat_of_nat)
qed

lemma one_inv_call: "one_inv s \<Longrightarrow> one_inv (RunUntilShutdown_enter s)"
proof -
  assume s: "one_inv s"
  show "one_inv (RunUntilShutdown_enter s)"
  proof (cases "callers s = []")
    case True
    with s show ?thesis by (simp add: one_inv_def RunUntilShutdown_enter_def Let_def)
  next
    case False
    then have "started s + 1 \<noteq> 1" if "Suc (length (callers s)) < 2 ^ 32"
      using s that of_nat_u32_one [of "length (callers s)"] by (simp add: one_inv_def)
    with s False show ?thesis
      by (auto simp: one_inv_def RunUntilShutdown_enter_def Let_def)
  qed
qed

lemma one_inv_advance:
  assumes "one_inv s" and "i < length (callers s)" and "RunUntilShutdown_next s (callers s ! i) = Some c"
  shows "one_inv (s\<lparr>callers := (callers s)[i := c]\<rparr>)"
proof -
  have "callers s ! i \<noteq> V_Returned" "c \<noteq> V_Returned"
    using assms(3) by (auto simp: RunUntilShutdown_next_def split: run_pc.splits if_splits)
  with assms(1,2) show ?thesis by (auto simp: one_inv_def length_filter_update)
qed

lemma one_inv_step: "sstep S K R s s' \<Longrightarrow> one_inv s \<Longrightarrow> one_inv s'"
proof (erule sstepE)
  assume "one_inv s" "s' = RunUntilShutdown_enter s"
  then show "one_inv s'" by (simp add: one_inv_call)
next
  assume "one_inv s" "s' = s\<lparr>shutdown := True\<rparr>"
  then show "one_inv s'" by (simp add: one_inv_def)
next
  fix i c
  assume "one_inv s" "s' = s\<lparr>callers := (callers s)[i := c]\<rparr>" "i < length (callers s)"
    "RunUntilShutdown_next s (callers s ! i) = Some c"
  then show "one_inv s'" by (simp add: one_inv_advance)
next
  fix a m
  assume "one_inv s" "s' = s\<lparr>core := m\<rparr>"
  then show "one_inv s'" by (simp add: one_inv_def)
qed

interpretation counting: inductive_invariant "sstep S K R" "\<lambda>s. \<exists>e. s = NewCovenantServer e" one_inv
  for S :: signing_lib and K :: "'x keyring_lib" and R
proof unfold_locales
  fix s s' :: "'x server"
  show "\<exists>e. s = NewCovenantServer e \<Longrightarrow> one_inv s"
    by (auto simp: NewCovenantServer_def one_inv_def)
  show "one_inv s \<Longrightarrow> sstep S K R s s' \<Longrightarrow> one_inv s'" by (rule one_inv_step)
qed

text \<open>
  C30: The 32-bit counter lets one caller of \<^verbatim>\<open>RunUntilShutdown\<close> run and sends every other one back at
  once, as long as there are fewer than 2 to the 32 calls, after which it wraps around.
\<close>

theorem RunUntilShutdown_once:
  assumes "(sstep S K R)\<^sup>*\<^sup>* (NewCovenantServer e) s" and "length (callers s) < 2 ^ 32"
  shows "length (filter (\<lambda>c. c \<noteq> V_Returned) (callers s)) = (if callers s = [] then 0 else 1)"
proof -
  have "one_inv s" using counting.reachable_inv assms(1) by blast
  with assms(2) show ?thesis by (simp add: one_inv_def)
qed

section \<open>A concrete run\<close>

definition serving_state :: "run_pc \<Rightarrow> bool \<Rightarrow> 'x machine \<Rightarrow> 'x server" where
  "serving_state c signal m = \<lparr>started = 1, callers = [c], shutdown = signal, core = m\<rparr>"

lemma serving_moves:
  "lstep S K R Starter m m' \<Longrightarrow> sstep S K R (serving_state V_Start g m) (serving_state V_Start g m')"
  "lstep S K R Stopper m m' \<Longrightarrow> sstep S K R (serving_state V_Stop g m) (serving_state V_Stop g m')"
  "lstep S K R Looper m m' \<Longrightarrow> sstep S K R (serving_state c g m) (serving_state c g m')"
  using sstep.core [of S K R _ "serving_state _ g m" m'] by (fastforce simp: serving_state_def)+

lemma serving_advance:
  "crashed m = None \<Longrightarrow> RunUntilShutdown_next (serving_state c g m) c = Some c' \<Longrightarrow>
     sstep S K R (serving_state c g m) (serving_state c' g m)"
  using sstep.advance [of "serving_state c g m" 0 c' S K R] by (simp add: serving_state_def)

lemma serving_signal:
  "crashed m = None \<Longrightarrow> sstep S K R (serving_state c g m) (serving_state c True m)"
  using sstep.signal [of "serving_state c g m" S K R] by (simp add: serving_state_def)

lemma serving_entered_state: "RunUntilShutdown_enter (NewCovenantServer e) = serving_state V_Start False (fresh e)"
  by (simp add: NewCovenantServer_def RunUntilShutdown_enter_def serving_state_def)

text \<open>Up to the wait for the signal; a round; from the signal to the end.\<close>

lemma serving_up:
  assumes "ticks e"
  shows "(sstep S K R)\<^sup>*\<^sup>* (RunUntilShutdown_enter (NewCovenantServer e)) (serving_state V_Wait False (running e))"
proof -
  let ?f = "fresh e"
  let ?b = "(fresh e)\<lparr>startOnce := S_Done, wg := 1, loop := L_Begin\<rparr>"
  have "sstep S K R (serving_state V_Start False ?f) (serving_state V_Start False (?f\<lparr>startOnce := S_Add\<rparr>))"
      "sstep S K R (serving_state V_Start False (?f\<lparr>startOnce := S_Add\<rparr>))
         (serving_state V_Start False (?f\<lparr>startOnce := S_Spawn, wg := 1\<rparr>))"
      "sstep S K R (serving_state V_Start False (?f\<lparr>startOnce := S_Spawn, wg := 1\<rparr>))
         (serving_state V_Start False ?b)"
    by (rule serving_moves(1), rule lstep.start; simp add: Start_step_def fresh_def)+
  moreover have "sstep S K R (serving_state V_Start False ?b) (serving_state V_Start False (running e))"
    by (rule serving_moves(3), rule lstep.ticker) (use assms in \<open>simp_all add: Loop_begin_def fresh_def running_def\<close>)
  moreover have "sstep S K R (serving_state V_Start False (running e)) (serving_state V_Wait False (running e))"
    by (rule serving_advance; simp add: RunUntilShutdown_next_def serving_state_def running_def fresh_def)
  ultimately show ?thesis
    unfolding serving_entered_state by (meson converse_rtranclp_into_rtranclp r_into_rtranclp)
qed

lemma serving_round:
  assumes "tick S K R e = Some (Ok (), e')"
  shows "(sstep S K R)\<^sup>*\<^sup>* (serving_state c g (running e)) (serving_state c g (running e'))"
proof -
  have "sstep S K R (serving_state c g (running e)) (serving_state c g ((running e)\<lparr>loop := L_Round\<rparr>))"
    by (rule serving_moves(3), rule lstep.wake; simp add: Loop_wake_def running_def fresh_def)
  moreover have "sstep S K R (serving_state c g ((running e)\<lparr>loop := L_Round\<rparr>)) (serving_state c g (running e'))"
    by (rule serving_moves(3), rule lstep.round; simp add: Loop_round_def running_def fresh_def assms)
  ultimately show ?thesis by (meson converse_rtranclp_into_rtranclp r_into_rtranclp)
qed

lemma serving_told: "(sstep S K R)\<^sup>*\<^sup>* (serving_state V_Wait False (running e)) (serving_state V_Stop True (running e))"
proof -
  have "sstep S K R (serving_state V_Wait False (running e)) (serving_state V_Wait True (running e))"
    by (rule serving_signal) (simp add: running_def fresh_def)
  moreover have "sstep S K R (serving_state V_Wait True (running e)) (serving_state V_Stop True (running e))"
    by (rule serving_advance; simp add: RunUntilShutdown_next_def serving_state_def running_def fresh_def)
  ultimately show ?thesis by (meson converse_rtranclp_into_rtranclp r_into_rtranclp)
qed

lemma serving_finished:
  "(sstep S K R)\<^sup>*\<^sup>* (serving_state V_Stop True (running e)) (serving_state V_Done True (stopped e))"
proof -
  let ?r = "running e" and ?sv = "serving_state V_Stop True"
  let ?w = "?r\<lparr>stopOnce := P_Wait, quit := True\<rparr>"
  have "sstep S K R (?sv ?r) (?sv (?r\<lparr>stopOnce := P_Close\<rparr>))" "sstep S K R (?sv (?r\<lparr>stopOnce := P_Close\<rparr>)) (?sv ?w)"
      "sstep S K R (?sv (?w\<lparr>loop := L_Exited, wg := 0\<rparr>)) (?sv (stopped e))"
    by (rule serving_moves(2), rule lstep.stop; simp add: Stop_step_def fresh_def running_def stopped_def)+
  moreover have "sstep S K R (?sv ?w) (?sv (?w\<lparr>loop := L_Exit\<rparr>))"
    by (rule serving_moves(3), rule lstep.quit; simp add: Loop_quit_def fresh_def running_def)
  moreover have "sstep S K R (?sv (?w\<lparr>loop := L_Exit\<rparr>)) (?sv (?w\<lparr>loop := L_Exited, wg := 0\<rparr>))"
    by (rule serving_moves(3), rule lstep.leave; simp add: Loop_done_def fresh_def running_def)
  moreover have "sstep S K R (?sv (stopped e)) (serving_state V_Done True (stopped e))"
    by (rule serving_advance; simp add: RunUntilShutdown_next_def serving_state_def stopped_def fresh_def)
  ultimately show ?thesis by (meson converse_rtranclp_into_rtranclp r_into_rtranclp)
qed

lemmas serving_down = rtranclp_trans [OF serving_told serving_finished]

lemmas serving_entered = rtranclp_trans [OF serving_up serving_down]

lemma serving_run: "ticks e \<Longrightarrow> (sstep S K R)\<^sup>*\<^sup>* (NewCovenantServer e) (serving_state V_Done True (stopped e))"
  by (rule converse_rtranclp_into_rtranclp [OF sstep.call serving_entered])
    (simp_all add: NewCovenantServer_def fresh_def)

theorem RunUntilShutdown_stops_witness:
  "V_Done \<in> set (callers (serving_state V_Done True (stopped (sample_live, sample_run)))) \<and>
   loop (core (serving_state V_Done True (stopped (sample_live, sample_run)))) = L_Exited"
  using RunUntilShutdown_stops [OF serving_run [OF sample_ticks, of sample_signing sample_keyring sample_retry sample_run]]
  by (simp add: serving_state_def)

theorem RunUntilShutdown_once_witness:
  "length (filter (\<lambda>c. c \<noteq> V_Returned) (callers (serving_state V_Done True (stopped (sample_live, sample_run))))) = 1"
  using RunUntilShutdown_once [OF serving_run [OF sample_ticks, of sample_signing sample_keyring sample_retry sample_run]]
  by (simp add: serving_state_def)

section \<open>The server adds nothing to the emulator\<close>

lemma sstep_core: "sstep S K R s s' \<Longrightarrow> (move S K R)\<^sup>*\<^sup>* (core s) (core s')"
  by (erule sstepE) (auto simp: RunUntilShutdown_enter_def Let_def move_def intro!: r_into_rtranclp)

text \<open>Every run of the server is, on its emulator, a run of the emulator's own life cycle.\<close>

lemma serving_is_living: "(sstep S K R)\<^sup>*\<^sup>* s s' \<Longrightarrow> (move S K R)\<^sup>*\<^sup>* (core s) (core s')"
  by (induction rule: rtranclp_induct) (auto dest: sstep_core)

end
