(* ===== verification/Logging.thy ===== *)
theory Logging
  imports World
begin

text \<open>
  The package \<^verbatim>\<open>log\<close>: choosing the encoder and the level of the root logger, and opening the log file. An
  encoder and a level are the names that the source takes from zap; what zap does with them is not
  modelled.
\<close>

datatype zap_encoder = NewJSONEncoder | NewConsoleEncoder | NewLogfmtEncoder

datatype zap_level = DebugLevel | InfoLevel | WarnLevel | ErrorLevel | DPanicLevel | PanicLevel | FatalLevel

record Logger =
  log_encoder :: zap_encoder
  log_level :: zap_level

text \<open>
  \<^verbatim>\<open>strings.ToLower\<close> of a UTF-8 string, exact where the result is ASCII: the capital letters A to Z, and the
  two other runes whose lower case is an ASCII letter, U+0130 (a dotted capital I) and U+212A (the
  Kelvin sign). The bytes of all other runes are kept; the lower case of such a rune is not ASCII
  either, so no comparison with an ASCII name sees a difference. Then \<^verbatim>\<open>%q\<close> of ASCII text.
\<close>

definition lower_char :: "char \<Rightarrow> char" where
  "lower_char c =
     (let n = (of_char c :: nat) in if 65 \<le> n \<and> n \<le> 90 then char_of (n + 32) else c)"

fun ToLower :: "string \<Rightarrow> string" where
  "ToLower [] = []"
| "ToLower (c # cs) =
     (case cs of
        [] \<Rightarrow> [lower_char c]
      | b # ds \<Rightarrow>
          if c = CHR 0xC4 \<and> b = CHR 0xB0 then CHR ''i'' # ToLower ds
          else
            (case ds of
               [] \<Rightarrow> lower_char c # ToLower cs
             | a # es \<Rightarrow>
                 if c = CHR 0xE2 \<and> b = CHR 0x84 \<and> a = CHR 0xAA then CHR ''k'' # ToLower es
                 else lower_char c # ToLower cs))"

declare ToLower.simps [simp del]

definition quote_char :: "char \<Rightarrow> string" where
  "quote_char c =
     (if c = CHR 0x22 \<or> c = CHR 0x5C then [CHR 0x5C, c]
      else if c = CHR 0x0A then [CHR 0x5C, CHR ''n'']
      else if c = CHR 0x09 then [CHR 0x5C, CHR ''t'']
      else if c = CHR 0x0D then [CHR 0x5C, CHR ''r'']
      else [c])"

definition Quote :: "string \<Rightarrow> string" where
  "Quote s = CHR 0x22 # concat (map quote_char s) @ [CHR 0x22]"

definition NewRootLogger :: "string \<Rightarrow> string \<Rightarrow> Logger res" where
  "NewRootLogger format level =
     bindR
       (if format = ''json'' then Ok NewJSONEncoder
        else if format = ''auto'' \<or> format = ''console'' then Ok NewConsoleEncoder
        else if format = ''logfmt'' then Ok NewLogfmtEncoder
        else Err (Error (''unrecognized log format '' @ Quote format))) (\<lambda>enc.
     let l = ToLower level in
     bindR
       (if l = ''panic'' then Ok PanicLevel
        else if l = ''fatal'' then Ok FatalLevel
        else if l = ''error'' then Ok ErrorLevel
        else if l = ''warn'' \<or> l = ''warning'' then Ok WarnLevel
        else if l = ''info'' then Ok InfoLevel
        else if l = ''debug'' then Ok DebugLevel
        else Err (Error (''unsupported log level: '' @ level))) (\<lambda>lvl.
     Ok \<lparr>log_encoder = enc, log_level = lvl\<rparr>))"

definition NewRootLoggerWithFile :: "string \<Rightarrow> string \<Rightarrow> ('x world, Logger) prog" where
  "NewRootLoggerWithFile logFile level =
     bindP (on_files (MakeDirectory (Dir logFile))) (\<lambda>_.
     bindP (on_files (os_OpenAppend logFile)) (\<lambda>_.
     liftP (NewRootLogger ''console'' level)))"

section \<open>Properties\<close>

text \<open>The names of the levels, in lower case.\<close>

definition level_names :: "(string \<times> zap_level) list" where
  "level_names = [(''panic'', PanicLevel), (''fatal'', FatalLevel), (''error'', ErrorLevel), (''warn'', WarnLevel),
     (''warning'', WarnLevel), (''info'', InfoLevel), (''debug'', DebugLevel)]"

lemma NewRootLogger_console:
  "NewRootLogger ''console'' level =
     (case map_of level_names (ToLower level) of
        Some lvl \<Rightarrow> Ok \<lparr>log_encoder = NewConsoleEncoder, log_level = lvl\<rparr>
      | None \<Rightarrow> Err (Error (''unsupported log level: '' @ level)))"
  by (simp add: NewRootLogger_def level_names_def Let_def bindR_def)

lemma os_OpenAppend_quiet: "os_OpenAppend p fs = (r, fs') \<Longrightarrow> r \<noteq> Panic q"
  by (auto simp: os_OpenAppend_def os_create_def Let_def split: option.splits node.splits if_splits)

lemma os_OpenAppend_adds:
  assumes "os_OpenAppend p fs = (r, fs')"
  shows "nodes fs' k = nodes fs k \<or> (nodes fs k = None \<and> k = fs_key fs p \<and> nodes fs' k = Some (FileNode []))"
    "cwd fs' = cwd fs" "r = Ok () \<Longrightarrow> \<exists>s. nodes fs' (fs_key fs p) = Some (FileNode s)"
  using assms
  by (auto simp: os_OpenAppend_def os_create_def Let_def split: option.splits node.splits if_splits)

text \<open>
  C38: Opening the log of a daemon destroys nothing, whatever system calls fail: every name in the tree is
  as it was, the earlier log with its contents included, or there was nothing and now there is a
  directory or, at the name of the log file, an empty file; nothing is sent. A logger is returned only
  with the log file in place and only for the seven level names, in any mixture of upper and lower
  case; it encodes for the console and has the level that was named. For any other name, \<^verbatim>\<open>trace\<close> among
  them, there is no logger.
\<close>

theorem NewRootLoggerWithFile_keeps_log:
  assumes "NewRootLoggerWithFile logFile level w = (r, w')"
  shows "(\<forall>k. nodes (files w') k = nodes (files w) k \<or> (nodes (files w) k = None \<and>
      (nodes (files w') k = Some DirNode \<or>
       k = fs_key (files w) logFile \<and> nodes (files w') k = Some (FileNode [])))) \<and> sent w' = sent w \<and>
    (\<forall>l. r = Ok l \<longrightarrow> (\<exists>s. nodes (files w') (fs_key (files w) logFile) = Some (FileNode s)) \<and>
       log_encoder l = NewConsoleEncoder \<and>
       map_of [(''panic'', PanicLevel), (''fatal'', FatalLevel), (''error'', ErrorLevel), (''warn'', WarnLevel),
         (''warning'', WarnLevel), (''info'', InfoLevel), (''debug'', DebugLevel)] (ToLower level) = Some (log_level l) \<and>
       level \<noteq> ''trace'') \<and> (\<forall>q. r \<noteq> Panic q)"
proof -
  obtain d fs1 where d: "MakeDirectory (Dir logFile) (files w) = (d, fs1)" by fastforce
  obtain f fs2 where f: "os_OpenAppend logFile fs1 = (f, fs2)" by fastforce
  have key: "fs_key fs1 logFile = fs_key (files w) logFile" using MakeDirectory_run [OF d] grows_key by blast
  have run: "files w' = fs1 \<or> files w' = fs2" "sent w' = sent w" "r \<noteq> Panic q"
      "r = Ok l \<Longrightarrow> files w' = fs2 \<and> f = Ok () \<and> NewRootLogger ''console'' level = Ok l" for l q
    using assms d f MakeDirectory_quiet [OF d] os_OpenAppend_quiet [OF f]
    by (auto simp: NewRootLoggerWithFile_def bindP_def on_files_def sent_def NewRootLogger_console
        split: res.splits option.splits)
  have "ToLower ''trace'' = ''trace''" by code_simp
  then have lvl: "log_encoder l = NewConsoleEncoder \<and> map_of level_names (ToLower level) = Some (log_level l) \<and>
      level \<noteq> ''trace''" if "r = Ok l" for l
    using run(4) [OF that] by (auto simp: NewRootLogger_console level_names_def split: option.splits if_splits)
  have "nodes (files w') k = nodes (files w) k \<or> (nodes (files w) k = None \<and> (nodes (files w') k = Some DirNode \<or>
       k = fs_key (files w) logFile \<and> nodes (files w') k = Some (FileNode [])))" for k
    using run(1) MakeDirectory_adds [OF d, of k] os_OpenAppend_adds(1) [OF f, of k] key by fastforce
  with run(2-4) lvl os_OpenAppend_adds(3) [OF f] key show ?thesis unfolding level_names_def by metis
qed

definition sample_disk :: filesys where
  "sample_disk = \<lparr>nodes = [[] \<mapsto> DirNode, [''log''] \<mapsto> FileNode ''old''], cwd = [], fault = (\<lambda>_ _. None)\<rparr>"

theorem NewRootLoggerWithFile_keeps_log_witness:
  "\<exists>l w'. NewRootLoggerWithFile ''/log'' ''INFO'' (sample_world\<lparr>files := sample_disk\<rparr>) = (Ok l, w') \<and>
     nodes (files w') [''log''] = Some (FileNode ''old'')"
proof -
  let ?w = "sample_world\<lparr>files := sample_disk\<rparr>"
  have "Dir ''/log'' = ''/''" "ToLower ''INFO'' = ''info''" by code_simp+
  then have "\<exists>l w'. NewRootLoggerWithFile ''/log'' ''INFO'' ?w = (Ok l, w')"
    by (simp add: NewRootLoggerWithFile_def NewRootLogger_def on_files_def bindP_def MakeDirectory_def os_MkdirAll_def
        MkdirAll_rev.simps elements_def path_of_def os_Stat_def fs_key_def sample_disk_def os_OpenAppend_def os_create_def)
  then obtain l w' where r: "NewRootLoggerWithFile ''/log'' ''INFO'' ?w = (Ok l, w')" by blast
  have "nodes (files ?w) [''log''] = Some (FileNode ''old'')" by (simp add: sample_disk_def)
  with NewRootLoggerWithFile_keeps_log [OF r, THEN conjunct1, THEN spec [of _ "[''log'']"]] r show ?thesis by auto
qed

end
