(* ===== verification/Commands.thy ===== *)
theory Commands
  imports Server Logging
begin

text \<open>
  The program \<^verbatim>\<open>covd\<close> (\<^verbatim>\<open>cmd/covd\<close>): the commands \<^verbatim>\<open>init\<close>, \<^verbatim>\<open>create-key\<close> and \<^verbatim>\<open>start\<close>, the JSON that
  \<^verbatim>\<open>create-key\<close> prints, and \<^verbatim>\<open>main\<close>. The command line library is a parameter: an action gets a context
  that maps the names of its flags to their values. \<^verbatim>\<open>start\<close> ends by handing the emulator to the server
  of theory \<open>Server\<close>.
\<close>

section \<open>Flags\<close>

definition homeFlag :: string where "homeFlag = ''home''"
definition forceFlag :: string where "forceFlag = ''force''"
definition keyNameFlag :: string where "keyNameFlag = ''key-name''"
definition passphraseFlag :: string where "passphraseFlag = ''passphrase''"
definition hdPathFlag :: string where "hdPathFlag = ''hd-path''"
definition chainIdFlag :: string where "chainIdFlag = ''chain-id''"
definition keyringBackendFlag :: string where "keyringBackendFlag = ''keyring-backend''"
definition defaultChainID :: string where "defaultChainID = ''chain-test''"
definition defaultKeyringBackend :: string where "defaultKeyringBackend = ''test''"
definition defaultPassphrase :: string where "defaultPassphrase = []"
definition defaultHdPath :: string where "defaultHdPath = []"

lemmas flag_defs = homeFlag_def forceFlag_def keyNameFlag_def passphraseFlag_def hdPathFlag_def
  chainIdFlag_def keyringBackendFlag_def

text \<open>A flag a command declares: its name and its default value, or that it is required.\<close>

datatype cli_Flag = StringFlag string string | RequiredFlag string | BoolFlag string

record cli_Context =
  cli_String :: "string \<Rightarrow> string"
  cli_Bool :: "string \<Rightarrow> bool"

definition initCommand :: "config_lib \<Rightarrow> cli_Flag list" where
  "initCommand CL = [StringFlag homeFlag (DefaultCovenantDir CL), BoolFlag forceFlag]"

definition createKeyCommand :: "config_lib \<Rightarrow> cli_Flag list" where
  "createKeyCommand CL =
     [StringFlag chainIdFlag defaultChainID, RequiredFlag keyNameFlag,
      StringFlag passphraseFlag defaultPassphrase, StringFlag hdPathFlag defaultHdPath,
      StringFlag keyringBackendFlag defaultKeyringBackend, StringFlag homeFlag (DefaultCovenantDir CL)]"

definition startCommand :: "config_lib \<Rightarrow> cli_Flag list" where
  "startCommand CL =
     [StringFlag passphraseFlag defaultPassphrase, StringFlag homeFlag (DefaultCovenantDir CL)]"

section \<open>init.go\<close>

definition expandHome :: "environ \<Rightarrow> string \<Rightarrow> string res" where
  "expandHome env home = bindR (Abs (getwd env) home) (\<lambda>p. Ok (CleanAndExpandPath env p))"

definition initHome :: "config_lib \<Rightarrow> cli_Context \<Rightarrow> ('x world, unit) prog" where
  "initHome CL c w =
     bindP (liftP (expandHome (environment w) (cli_String c homeFlag))) (\<lambda>homePath.
     if FileExists (files w) homePath \<and> \<not> cli_Bool c forceFlag then
       throwP (Error (''home path '' @ homePath @ '' already exists''))
     else
       bindP (on_files (MakeDirectory homePath)) (\<lambda>_.
       bindP (on_files (MakeDirectory (LogDir homePath))) (\<lambda>_.
       bindP (liftP (DefaultConfigWithHomePath CL homePath)) (\<lambda>defaultConfig.
       on_files (os_WriteFile (ConfigFile homePath) (ini_print CL defaultConfig)))))) w"

section \<open>key.go\<close>

record covenantKey =
  Name_key :: string
  PublicKey_key :: string

text \<open>
  \<^verbatim>\<open>encoding/json\<close> on a UTF-8 string: quotes, backslashes, control characters, the three characters with
  a meaning in HTML and the separators U+2028 and U+2029 are escaped, and each byte that does not belong
  to a valid encoding becomes the replacement character. \<open>utf8_len\<close> is the length of a valid encoding of
  two to four bytes at the front, or zero.
\<close>

definition between :: "nat \<Rightarrow> nat \<Rightarrow> char \<Rightarrow> bool" where
  "between a b ch \<longleftrightarrow> a \<le> of_char ch \<and> of_char ch \<le> b"

definition utf8_len :: "string \<Rightarrow> nat" where
  "utf8_len s =
     (case s of
        a # b # _ \<Rightarrow>
          if between 0xC2 0xDF a \<and> between 0x80 0xBF b then 2
          else if list_all (between 0x80 0xBF) (take 1 (drop 2 s)) \<and> 3 \<le> length s \<and>
            (a = CHR 0xE0 \<and> between 0xA0 0xBF b \<or> a = CHR 0xED \<and> between 0x80 0x9F b \<or>
             (between 0xE1 0xEC a \<or> between 0xEE 0xEF a) \<and> between 0x80 0xBF b) then 3
          else if list_all (between 0x80 0xBF) (take 2 (drop 2 s)) \<and> 4 \<le> length s \<and>
            (a = CHR 0xF0 \<and> between 0x90 0xBF b \<or> a = CHR 0xF4 \<and> between 0x80 0x8F b \<or>
             between 0xF1 0xF3 a \<and> between 0x80 0xBF b) then 4
          else 0
      | _ \<Rightarrow> 0)"

definition json_char :: "char \<Rightarrow> string" where
  "json_char ch =
     (let n = (of_char ch :: nat) in
      if ch = CHR 0x22 \<or> ch = CHR 0x5C then [CHR 0x5C, ch]
      else if n = 10 then [CHR 0x5C, CHR ''n'']
      else if n = 13 then [CHR 0x5C, CHR ''r'']
      else if n = 9 then [CHR 0x5C, CHR ''t'']
      else if n < 32 \<or> ch = CHR ''<'' \<or> ch = CHR ''>'' \<or> ch = CHR ''&''
      then CHR 0x5C # ''u00'' @ [hex_digit (n div 16), hex_digit (n mod 16)]
      else [ch])"

fun json_chars :: "string \<Rightarrow> string" where
  "json_chars [] = []"
| "json_chars (c # cs) =
     (if (of_char c :: nat) < 128 then json_char c @ json_chars cs
      else
        (let n = utf8_len (c # cs); run = take n (c # cs) in
         if n = 0 then CHR 0x5C # ''ufffd'' @ json_chars cs
         else if run = [CHR 0xE2, CHR 0x80, CHR 0xA8] then CHR 0x5C # ''u2028'' @ json_chars (drop (n - 1) cs)
         else if run = [CHR 0xE2, CHR 0x80, CHR 0xA9] then CHR 0x5C # ''u2029'' @ json_chars (drop (n - 1) cs)
         else run @ json_chars (drop (n - 1) cs)))"

declare json_chars.simps [simp del]

definition json_string :: "string \<Rightarrow> string" where
  "json_string s = CHR 0x22 # json_chars s @ [CHR 0x22]"

definition MarshalIndent :: "covenantKey \<Rightarrow> string" where
  "MarshalIndent k =
     ''{'' @ CHR 0x0A # ''    '' @ json_string ''name'' @ '': '' @ json_string (Name_key k) @ '','' @
     CHR 0x0A # ''    '' @ json_string ''public-key'' @ '': '' @ json_string (PublicKey_key k) @
     CHR 0x0A # ''}''"

definition printRespJSON :: "covenantKey \<Rightarrow> ('x world, unit) prog" where
  "printRespJSON resp w = (Ok (), w\<lparr>stdout := stdout w @ [MarshalIndent resp]\<rparr>)"

definition createKey ::
    "config_lib \<Rightarrow> 'x keyring_lib \<Rightarrow> 'x bbn_lib \<Rightarrow> (BIP340PubKey \<Rightarrow> string) \<Rightarrow> cli_Context \<Rightarrow> ('x world, unit) prog" where
  "createKey CL K L MarshalHex ctx =
     (let homePath = cli_String ctx homeFlag; chainID = cli_String ctx chainIdFlag;
          keyName = cli_String ctx keyNameFlag; backend = cli_String ctx keyringBackendFlag;
          pass = cli_String ctx passphraseFlag; hdPath = cli_String ctx hdPathFlag;
          keyBackend = cli_String ctx keyringBackendFlag in
      bindP (wrapP (''failed to load the config from '' @ ConfigFile homePath) (LoadConfig CL homePath)) (\<lambda>conf.
      bindP (wrapP ''failed to create covenant key''
              (CreateCovenantKey K homePath chainID keyName backend pass hdPath)) (\<lambda>keyPair.
      bindP (printRespJSON \<lparr>Name_key = keyName,
               PublicKey_key = MarshalHex (NewBIP340PubKeyFromBTCPK L (PublicKey_info keyPair))\<rparr>) (\<lambda>_.
      on_files (os_WriteFile (ConfigFile homePath)
        (ini_print CL (conf\<lparr>BabylonConfig := (BabylonConfig conf)\<lparr>Key := keyName, KeyringBackend := keyBackend\<rparr>\<rparr>)))))))"

section \<open>start.go, main.go\<close>

text \<open>
  \<^verbatim>\<open>signal.Intercept\<close> is a parameter; it may fail. The result is the server with the main goroutine inside
  its call of \<^verbatim>\<open>RunUntilShutdown\<close>; from there the step relation of theory \<open>Server\<close> runs it.
\<close>

definition start ::
    "config_lib \<Rightarrow> 'x keyring_lib \<Rightarrow> 'x bbn_lib \<Rightarrow> ('x \<Rightarrow> unit res \<times> 'x) \<Rightarrow> cli_Context \<Rightarrow>
       ('x world, 'x server) prog" where
  "start CL K L Intercept ctx w =
     bindP (liftP (expandHome (environment w) (cli_String ctx homeFlag))) (\<lambda>homePath.
     bindP (wrapP (''failed to load config at '' @ homePath) (LoadConfig CL homePath)) (\<lambda>conf.
     bindP (wrapP ''failed to load the logger'' (NewRootLoggerWithFile (LogFile homePath) (LogLevel conf))) (\<lambda>_.
     bindP (wrapP ''failed to create rpc client for the consumer chain''
             (NewBabylonController L (BabylonConfig conf) (BTCNetParams conf))) (\<lambda>bbnClient.
     bindP (wrapP ''failed to start the covenant emulator''
             (NewCovenantEmulator K conf (babylon_cc L bbnClient) (cli_String ctx passphraseFlag))) (\<lambda>ce.
     bindP (ext_call Intercept) (\<lambda>_ w'.
     (Ok (RunUntilShutdown_enter (NewCovenantServer (ce, w'))), w'))))))) w"

text \<open>How the process ends: its exit status and what it writes to standard error.\<close>

definition fatal :: "error \<Rightarrow> nat \<times> string" where
  "fatal e = (1, ''[covd] '' @ err_text e @ [CHR 0x0A])"

definition main_exit :: "(string list \<Rightarrow> ('x world, unit) prog) \<Rightarrow> string list \<Rightarrow> 'x world \<Rightarrow> (nat \<times> string) \<times> 'x world" where
  "main_exit Run args w =
     (case Run args w of
        (Ok _, w') \<Rightarrow> ((0, []), w')
      | (Err e, w') \<Rightarrow> (fatal e, w')
      | (Panic q, w') \<Rightarrow> ((2, ''panic: '' @ q), w'))"

section \<open>Configuration files\<close>

text \<open>
  What go-flags documents of its ini writer and parser: parsing what was printed gives the options
  back, if each option has one of the choices its tag declares and the texts are plain, printable
  without surrounding blanks or a leading quote, and numbers are finite. The network parameters are
  not an option, so a parsed configuration has none.
\<close>

definition plain :: "string \<Rightarrow> bool" where
  "plain s \<longleftrightarrow> list_all (\<lambda>ch. 32 \<le> (of_char ch :: nat) \<and> (of_char ch :: nat) < 127) s \<and>
     (s = [] \<or> hd s \<notin> {CHR '' '', CHR 0x22} \<and> last s \<noteq> CHR '' '')"

definition finite_float :: "float64 \<Rightarrow> bool" where
  "finite_float x \<longleftrightarrow> (case x of Float64 n \<Rightarrow> take_bit 11 (drop_bit 52 n) \<noteq> 2047)"

definition ini_plain :: "Config \<Rightarrow> bool" where
  "ini_plain conf \<longleftrightarrow>
     LogLevel conf \<in> {''trace'', ''debug'', ''info'', ''warn'', ''error'', ''fatal''} \<and>
     BitcoinNetwork conf \<in> {''mainnet'', ''regtest'', ''testnet'', ''simnet'', ''signet''} \<and>
     (let b = BabylonConfig conf in
      finite_float (GasAdjustment b) \<and>
      list_all plain [Key b, ChainID_cfg b, RPCAddr b, GRPCAddr b, AccountPrefix b, KeyringBackend b, GasPrices b,
        KeyDirectory b, OutputFormat b, SignModeStr b])"

definition ini_faithful :: "config_lib \<Rightarrow> bool" where
  "ini_faithful CL \<longleftrightarrow>
     (\<forall>conf. ini_plain conf \<longrightarrow> ini_parse CL (ini_print CL conf) = Ok (conf\<lparr>BTCNetParams := ZeroNetParams\<rparr>))"

definition no_faults :: "'x world \<Rightarrow> bool" where
  "no_faults w \<longleftrightarrow> (\<forall>c p. fault (files w) c p = None)"

lemma Validate_net [simp]: "Validate (conf\<lparr>BTCNetParams := n\<rparr>) = Validate conf"
  by (simp add: Validate_def)

lemma Validate_babylon: "Validate conf = Ok conf \<Longrightarrow> Validate (conf\<lparr>BabylonConfig := b\<rparr>) = Ok (conf\<lparr>BabylonConfig := b\<rparr>)"
  by (cases conf) (auto simp: Validate_def split: if_splits)

lemma on_files_Ok: "on_files m w = (Ok x, w') \<longleftrightarrow> (\<exists>fs. m (files w) = (Ok x, fs) \<and> w' = w\<lparr>files := fs\<rparr>)"
  by (auto simp: on_files_def split: prod.splits)

lemma load_written:
  assumes "on_files (os_WriteFile (ConfigFile home) (ini_print CL conf)) w = (Ok (), w')"
    and "no_faults w" and "ini_faithful CL" and "Validate conf = Ok conf" and "ini_plain conf"
  shows "LoadConfig CL home w' = (Ok conf, w')"
proof -
  from assms(1) obtain fs where fs: "os_WriteFile (ConfigFile home) (ini_print CL conf) (files w) = (Ok (), fs)"
      "w' = w\<lparr>files := fs\<rparr>"
    by (auto simp: on_files_Ok)
  have "FileExists fs (ConfigFile home) \<and> os_ReadFile fs (ConfigFile home) = Ok (ini_print CL conf)"
    by (rule write_then_read [OF fs(1)]) (use assms(2) in \<open>simp add: no_faults_def\<close>)
  with fs(2) assms(3-5) show ?thesis by (simp add: LoadConfig_def Let_def ini_faithful_def)
qed

lemma LoadConfig_world: "LoadConfig CL home w = (r, w') \<Longrightarrow> w' = w"
  by (auto simp: LoadConfig_def Let_def bindP_def split: if_splits res.splits)

lemma LoadConfig_valid: "LoadConfig CL home w = (Ok conf, w') \<Longrightarrow> Validate conf = Ok conf"
  by (auto simp: LoadConfig_def Let_def run_iffs split: if_splits dest: Validate_Ok)

text \<open>Looking at the files is all that loading a configuration does.\<close>

lemma LoadConfig_files: "files w = files v \<Longrightarrow> fst (LoadConfig CL home w) = fst (LoadConfig CL home v)"
  by (simp add: LoadConfig_def Let_def bindP_def split: res.splits)

section \<open>init\<close>

lemma initHome_run:
  assumes "initHome CL c w = (Ok (), w')"
  obtains home conf w1 where "expandHome (environment w) (cli_String c homeFlag) = Ok home"
    "DefaultConfigWithHomePath CL home = Ok conf" "grows (files w) (files w1)"
    "nodes (files w1) (fs_key (files w1) (LogDir home)) = Some DirNode"
    "on_files (os_WriteFile (ConfigFile home) (ini_print CL conf)) w1 = (Ok (), w')"
proof -
  from assms obtain home conf fs1 fs2 where
      h: "expandHome (environment w) (cli_String c homeFlag) = Ok home"
        "DefaultConfigWithHomePath CL home = Ok conf"
    and m: "MakeDirectory home (files w) = (Ok (), fs1)" "MakeDirectory (LogDir home) fs1 = (Ok (), fs2)"
    and wr: "on_files (os_WriteFile (ConfigFile home) (ini_print CL conf)) (w\<lparr>files := fs2\<rparr>) = (Ok (), w')"
    by (auto simp: initHome_def run_iffs on_files_Ok split: if_splits)
  from MakeDirectory_run [OF m(1)] MakeDirectory_run [OF m(2)]
  have "grows (files w) fs2" "nodes fs2 (fs_key fs2 (LogDir home)) = Some DirNode"
    by (auto intro: grows_trans)
  with h wr that show thesis by (metis world.select_convs(3) world.surjective world.update_convs(3))
qed

lemma initHome_loads:
  assumes "initHome CL c w = (Ok (), w')" and "expandHome (environment w) (cli_String c homeFlag) = Ok home"
    and "DefaultConfigWithHomePath CL home = Ok conf" and "ini_plain conf" and "no_faults w" and "ini_faithful CL"
  shows "LoadConfig CL home w' = (Ok conf, w')"
proof -
  obtain w1 where h: "grows (files w) (files w1)"
      "on_files (os_WriteFile (ConfigFile home) (ini_print CL conf)) w1 = (Ok (), w')"
    by (rule initHome_run [OF assms(1)]) (use assms(2,3) in auto)
  have "no_faults w1" using h(1) assms(5) by (simp add: grows_def no_faults_def)
  moreover have "Validate conf = Ok conf"
    using assms(3) by (auto simp: DefaultConfigWithHomePath_def Let_def split: res.splits dest: Validate_Ok)
  ultimately show ?thesis using h(2) assms(4,6) by (intro load_written)
qed

text \<open>
  C23: A home directory that \<^verbatim>\<open>covd init\<close> has set up is one that the other commands can load: on a disk
  without faults, \<^verbatim>\<open>LoadConfig\<close> on the expanded home then returns exactly the default configuration for
  that home, if its texts are plain.
\<close>

theorem init_then_load:
  assumes "initHome CL c w = (Ok (), w')" and "expandHome (environment w) (cli_String c homeFlag) = Ok home"
    and "DefaultConfigWithHomePath CL home = Ok conf" and "ini_plain conf" and "no_faults w" and "ini_faithful CL"
  shows "LoadConfig CL home w' = (Ok conf, w')"
  using assms by (rule initHome_loads)

text \<open>
  C24: \<^verbatim>\<open>covd init\<close> without \<^verbatim>\<open>--force\<close> on a home that exists changes nothing and fails with an error that
  names it. In every case, forced or not and however it ends, it keeps every file and directory but
  the configuration file: it never clears the home directory.
\<close>

theorem init_keeps_files:
  assumes "initHome CL c w = (r, w')"
  shows "(\<forall>home. expandHome (environment w) (cli_String c homeFlag) = Ok home \<longrightarrow>
      (\<forall>k n. nodes (files w) k = Some n \<and> k \<noteq> fs_key (files w) (ConfigFile home) \<longrightarrow> nodes (files w') k = Some n) \<and>
      (FileExists (files w) home \<and> \<not> cli_Bool c forceFlag \<longrightarrow>
         w' = w \<and> r = Err (Error (''home path '' @ home @ '' already exists''))))"
proof (intro allI impI)
  fix home
  assume home: "expandHome (environment w) (cli_String c homeFlag) = Ok home"
  obtain r1 fs1 where m1: "MakeDirectory home (files w) = (r1, fs1)" by fastforce
  obtain r2 fs2 where m2: "MakeDirectory (LogDir home) fs1 = (r2, fs2)" by fastforce
  obtain conf where conf: "DefaultConfigWithHomePath CL home = Ok conf"
    by (simp add: DefaultConfigWithHomePath_def Validate_def Let_def config_defaults)
  obtain r3 fs3 where m3: "os_WriteFile (ConfigFile home) (ini_print CL conf) fs2 = (r3, fs3)" by fastforce
  have g: "grows (files w) fs1" "grows (files w) fs2"
    using MakeDirectory_run [OF m1] MakeDirectory_run [OF m2] by (auto intro: grows_trans)
  have keep: "nodes fs3 k = nodes fs2 k" if "k \<noteq> fs_key fs2 (ConfigFile home)" for k
    using m3 that by (auto simp: os_WriteFile_def os_create_def Let_def split: option.splits node.splits if_splits)
  have "files w' \<in> {files w, fs1, fs2, fs3}"
    using assms home m1 m2 m3 conf
    by (auto simp: initHome_def bindP_def on_files_def split: if_splits res.splits)
  then have "nodes (files w') k = Some n" if "nodes (files w) k = Some n" "k \<noteq> fs_key (files w) (ConfigFile home)" for k n
    using that g keep [of k] grows_key [OF g(2), of "ConfigFile home"]
    by (auto simp: grows_def map_le_def dom_def)
  then show "(\<forall>k n. nodes (files w) k = Some n \<and> k \<noteq> fs_key (files w) (ConfigFile home) \<longrightarrow> nodes (files w') k = Some n) \<and>
      (FileExists (files w) home \<and> \<not> cli_Bool c forceFlag \<longrightarrow>
         w' = w \<and> r = Err (Error (''home path '' @ home @ '' already exists'')))"
    using assms home by (auto simp: initHome_def)
qed

text \<open>
  C36: \<^verbatim>\<open>init\<close> and \<^verbatim>\<open>start\<close> make the home path absolute before they expand it, so a tilde is never
  expanded: with a working directory that has no dollar sign, a home given as a tilde and a path
  becomes a directory named tilde below the working directory, not one in the user's home.
\<close>

theorem home_tilde_is_literal:
  assumes "getwd env = Ok wd" and "rooted wd" and "CHR ''$'' \<notin> set wd" and "CHR ''$'' \<notin> set p"
  shows "expandHome env (CHR ''~'' # p) = Ok (Clean (wd @ CHR ''/'' # CHR ''~'' # p))"
proof -
  let ?q = "wd @ CHR ''/'' # CHR ''~'' # p"
  have "wd \<noteq> []" using assms(2) by auto
  then have join: "Join [wd, CHR ''~'' # p] = Clean ?q" by (simp add: Join_def)
  have root: "rooted (Clean ?q)" using assms(2) \<open>wd \<noteq> []\<close> by (simp add: rooted_Clean rooted_append)
  have "CHR ''$'' \<notin> set (Clean ?q)" using assms(3,4) by (intro Clean_chars) auto
  then have "CleanAndExpandPath env (Clean ?q) = Clean (Clean ?q)"
    using root by (cases "Clean ?q") (auto simp: CleanAndExpandPath_def Expand_plain simp del: Expand.simps)
  then show ?thesis
    using assms(1) join by (simp add: expandHome_def Abs_def Clean_idem)
qed

lemma initHome_faults: "initHome CL c w = (Ok (), w') \<Longrightarrow> no_faults w \<Longrightarrow> no_faults w'"
proof (erule initHome_run)
  fix home conf w1
  assume "no_faults w" "grows (files w) (files w1)"
    "on_files (os_WriteFile (ConfigFile home) (ini_print CL conf)) w1 = (Ok (), w')"
  then show "no_faults w'"
    by (auto simp: no_faults_def grows_def on_files_Ok os_WriteFile_def dest: os_create_run)
qed

section \<open>create-key\<close>

lemma CreateCovenantKey_files: "keeps files (CreateCovenantKey K dir chain name backend pass hdPath)"
  unfolding CreateCovenantKey_def NewChainKeyringController_def CreateChainKey_def
  by (intro keeps_intros; simp add: split_beta keeps_intros)

lemma CreateCovenantKey_stdout: "keeps stdout (CreateCovenantKey K dir chain name backend pass hdPath)"
  unfolding CreateCovenantKey_def NewChainKeyringController_def CreateChainKey_def
  by (intro keeps_intros stdout_frame; simp add: split_beta keeps_intros)

lemma createKey_run:
  assumes "createKey CL K L MarshalHex ctx w = (Ok (), w')" and "fst (LoadConfig CL (cli_String ctx homeFlag) w) = Ok conf"
    and "conf' = conf\<lparr>BabylonConfig := (BabylonConfig conf)\<lparr>Key := cli_String ctx keyNameFlag,
      KeyringBackend := cli_String ctx keyringBackendFlag\<rparr>\<rparr>"
    and "ini_plain conf'" and "no_faults w" and "ini_faithful CL"
  shows "LoadConfig CL (cli_String ctx homeFlag) w' = (Ok conf', w') \<and>
    (\<exists>info w1. CreateCovenantKey K (cli_String ctx homeFlag) (cli_String ctx chainIdFlag) (cli_String ctx keyNameFlag)
         (cli_String ctx keyringBackendFlag) (cli_String ctx passphraseFlag) (cli_String ctx hdPathFlag) w = (Ok info, w1) \<and>
       stdout w' = stdout w @ [MarshalIndent \<lparr>Name_key = cli_String ctx keyNameFlag,
         PublicKey_key = MarshalHex (NewBIP340PubKeyFromBTCPK L (PublicKey_info info))\<rparr>])"
proof -
  let ?home = "cli_String ctx homeFlag"
  from assms(1-3) obtain w0 info w1 w2 where
      l: "LoadConfig CL ?home w = (Ok conf, w0)"
    and k: "CreateCovenantKey K ?home (cli_String ctx chainIdFlag) (cli_String ctx keyNameFlag)
       (cli_String ctx keyringBackendFlag) (cli_String ctx passphraseFlag) (cli_String ctx hdPathFlag) w0 = (Ok info, w1)"
    and pr: "printRespJSON \<lparr>Name_key = cli_String ctx keyNameFlag,
      PublicKey_key = MarshalHex (NewBIP340PubKeyFromBTCPK L (PublicKey_info info))\<rparr> w1 = (Ok (), w2)"
    and wr: "on_files (os_WriteFile (ConfigFile ?home) (ini_print CL conf')) w2 = (Ok (), w')"
    by (auto simp: createKey_def Let_def run_iffs)
  have w0: "w0 = w" using l by (rule LoadConfig_world)
  have "files w2 = files w" "stdout w2 = stdout w @ [MarshalIndent \<lparr>Name_key = cli_String ctx keyNameFlag,
      PublicKey_key = MarshalHex (NewBIP340PubKeyFromBTCPK L (PublicKey_info info))\<rparr>]"
    using keepsD [OF CreateCovenantKey_files k] keepsD [OF CreateCovenantKey_stdout k] pr w0
    by (auto simp: printRespJSON_def)
  moreover have "stdout w' = stdout w2" using wr by (auto simp: on_files_Ok)
  moreover have "no_faults w2" using \<open>files w2 = files w\<close> assms(5) by (simp add: no_faults_def)
  ultimately show ?thesis
    using l k w0 load_written [OF wr _ assms(6) _ assms(4)] Validate_babylon [OF LoadConfig_valid [OF l]] assms(3) by auto
qed

text \<open>
  C22: After \<^verbatim>\<open>covd create-key\<close> the configuration in the home is the one that was there with the name of
  the new key and the backend it is stored in, so \<^verbatim>\<open>start\<close> will look for that key; every other option,
  the chain identifier included, is as before, whatever \<^verbatim>\<open>--chain-id\<close> was given (for plain texts, on a disk
  without faults). One JSON object with
  the name and the public key of the created key is printed.
\<close>

theorem createKey_saves:
  assumes "createKey CL K L MarshalHex ctx w = (Ok (), w')" and "fst (LoadConfig CL (cli_String ctx homeFlag) w) = Ok conf"
    and "conf' = conf\<lparr>BabylonConfig := (BabylonConfig conf)\<lparr>Key := cli_String ctx keyNameFlag,
      KeyringBackend := cli_String ctx keyringBackendFlag\<rparr>\<rparr>"
    and "ini_plain conf'" and "no_faults w" and "ini_faithful CL"
  shows "LoadConfig CL (cli_String ctx homeFlag) w' = (Ok conf', w') \<and>
    (\<exists>info w1. CreateCovenantKey K (cli_String ctx homeFlag) (cli_String ctx chainIdFlag) (cli_String ctx keyNameFlag)
         (cli_String ctx keyringBackendFlag) (cli_String ctx passphraseFlag) (cli_String ctx hdPathFlag) w = (Ok info, w1) \<and>
       stdout w' = stdout w @ [MarshalIndent \<lparr>Name_key = cli_String ctx keyNameFlag,
         PublicKey_key = MarshalHex (NewBIP340PubKeyFromBTCPK L (PublicKey_info info))\<rparr>])"
  using assms by (rule createKey_run)

section \<open>What an action reads\<close>

definition declared :: "cli_Flag list \<Rightarrow> string set" where
  "declared fs = {n. \<exists>f \<in> set fs. f = BoolFlag n \<or> f = RequiredFlag n \<or> (\<exists>d. f = StringFlag n d)}"

definition agree :: "cli_Flag list \<Rightarrow> cli_Context \<Rightarrow> cli_Context \<Rightarrow> bool" where
  "agree fs c c' \<longleftrightarrow> (\<forall>n \<in> declared fs. cli_String c n = cli_String c' n \<and> cli_Bool c n = cli_Bool c' n)"

text \<open>
  Every flag that an action reads is one its command declares: two contexts that agree on the
  declared flags of a command make it do the same, from every world.
\<close>

lemma actions_read_declared_flags:
  "(agree (initCommand CL) c c' \<longrightarrow> initHome CL c w = initHome CL c' w) \<and>
   (agree (createKeyCommand CL) c c' \<longrightarrow> createKey CL K L MarshalHex c w = createKey CL K L MarshalHex c' w) \<and>
   (agree (startCommand CL) c c' \<longrightarrow> start CL K L Intercept c w = start CL K L Intercept c' w)"
  by (auto simp: agree_def declared_def initCommand_def createKeyCommand_def startCommand_def
      initHome_def createKey_def start_def Let_def)

section \<open>start\<close>

lemma NewBabylonController_Ok:
  "NewBabylonController L conf net w = (Ok bc, w') \<Longrightarrow> bc = \<lparr>cfg = conf, btcParams = net\<rparr>"
  by (auto simp: NewBabylonController_def Let_def run_iffs)

lemma NewBabylonController_frame:
  "keeps sent (NewBabylonController L conf net)" "keeps environment (NewBabylonController L conf net)"
  unfolding NewBabylonController_def Let_def by (intro keeps_intros)+

lemma NewRootLoggerWithFile_frame: "keeps sent (NewRootLoggerWithFile logFile level)"
  unfolding NewRootLoggerWithFile_def by (intro keeps_intros)

lemma server_core: "core (RunUntilShutdown_enter (NewCovenantServer e)) = fresh e"
  by (simp add: RunUntilShutdown_enter_def NewCovenantServer_def Let_def)

lemma server_emulator: "emulator (core (RunUntilShutdown_enter (NewCovenantServer e))) = e"
  by (simp add: server_core fresh_def)

lemma start_run:
  assumes "start CL K L Intercept ctx w = (Ok srv, w')"
  shows "\<exists>ce home conf. srv = RunUntilShutdown_enter (NewCovenantServer (ce, w')) \<and>
    expandHome (environment w) (cli_String ctx homeFlag) = Ok home \<and>
    fst (LoadConfig CL home w) = Ok conf \<and> Validate conf = Ok conf \<and> config ce = conf \<and>
    cc ce = babylon_cc L \<lparr>cfg = BabylonConfig conf, btcParams = BTCNetParams conf\<rparr> \<and>
    fpName (kc ce) = Key (BabylonConfig conf) \<and> passphrase ce = cli_String ctx passphraseFlag \<and>
    wired (kc ce) w' \<and> params ce = None \<and> sent w' = sent w \<and>
    (\<exists>rec rest x x' key.
       keyring_Key K (kr_handle (kr (kc ce))) (Key (BabylonConfig conf)) (passphrase ce) x = ((Ok rec, rest), x') \<and>
       GetCachedPrivKey K rec = Ok (Secp256k1PrivKey key) \<and> ParsePubKey K (PubKeyBytes K key) = Ok (pk ce))"
proof -
  from assms obtain home conf l w0 w1 bc w2 w3 ce where
      home: "expandHome (environment w) (cli_String ctx homeFlag) = Ok home"
    and load: "LoadConfig CL home w = (Ok conf, w0)"
    and log: "NewRootLoggerWithFile (LogFile home) (LogLevel conf) w0 = (Ok l, w1)"
    and bc: "NewBabylonController L (BabylonConfig conf) (BTCNetParams conf) w1 = (Ok bc, w2)"
    and ce: "NewCovenantEmulator K conf (babylon_cc L bc) (cli_String ctx passphraseFlag) w2 = (Ok ce, w3)"
    and int: "ext_call Intercept w3 = (Ok (), w')"
    and srv: "srv = RunUntilShutdown_enter (NewCovenantServer (ce, w'))"
    by (auto simp: start_def run_iffs)
  have "sent w2 = sent w"
    using keepsD [OF NewBabylonController_frame(1) bc] keepsD [OF NewRootLoggerWithFile_frame log]
      LoadConfig_world [OF load] by simp
  moreover have "sent w' = sent w3" "readers w' = readers w3"
    using keepsD [OF ext_call_frame(5) int] keepsD [OF ext_call_frame(2) int] by simp_all
  ultimately show ?thesis
    using srv home load LoadConfig_valid [OF load] NewBabylonController_Ok [OF bc] NewCovenantEmulator_run [OF ce]
    by (intro exI [of _ ce] exI [of _ home] exI [of _ conf]) (simp add: wired_def)
qed

lemma NewBabylonController_opened:
  "NewBabylonController L conf net w = (Ok bc, w') \<Longrightarrow>
     Validate_bbn L (BBNConfigToBabylonConfig conf) = Ok () \<and>
     (\<exists>x x'. bbnclient_New L (BBNConfigToBabylonConfig conf) x = (Ok (), x'))"
  by (auto simp: NewBabylonController_def Let_def run_iffs ext_call_def split: prod.splits)

lemma start_opened:
  assumes "start CL K L Intercept ctx w = (Ok srv, w')" "expandHome (environment w) (cli_String ctx homeFlag) = Ok home"
    "fst (LoadConfig CL home w) = Ok conf"
  shows "Validate_bbn L (BBNConfigToBabylonConfig (BabylonConfig conf)) = Ok () \<and>
    (\<exists>x x'. bbnclient_New L (BBNConfigToBabylonConfig (BabylonConfig conf)) x = (Ok (), x'))"
  using assms by (auto simp: start_def run_iffs dest: NewBabylonController_opened)

text \<open>
  C40: \<^verbatim>\<open>covd start\<close> enters \<^verbatim>\<open>RunUntilShutdown\<close> of a new server, whose emulator runs the configuration found
  in the expanded home, on the Bitcoin network it names; talks to the Babylon node through a client
  opened with the options of that configuration, all but the address of the gRPC server, which the client
  never gets; holds a keyring controller for the configured key that resets the reader its keyring
  reads from, with the passphrase of the command line; has the public part of the key that the keyring
  gave out for that name and passphrase; and has sent nothing yet.
\<close>

theorem start_ready:
  assumes "start CL K L Intercept ctx w = (Ok srv, w')"
  shows "\<exists>ce home conf b. srv = RunUntilShutdown_enter (NewCovenantServer (ce, w')) \<and>
    expandHome (environment w) (cli_String ctx homeFlag) = Ok home \<and>
    fst (LoadConfig CL home w) = Ok conf \<and> Validate conf = Ok conf \<and> config ce = conf \<and> b = BabylonConfig conf \<and>
    cc ce = babylon_cc L \<lparr>cfg = b, btcParams = BTCNetParams conf\<rparr> \<and>
    (\<exists>x x'. bbnclient_New L
       \<lparr>Key_bbn = Key b, ChainID_bbn = ChainID_cfg b, RPCAddr_bbn = RPCAddr b, GRPCAddr_bbn = [],
        AccountPrefix_bbn = AccountPrefix b, KeyringBackend_bbn = KeyringBackend b, GasAdjustment_bbn = GasAdjustment b,
        GasPrices_bbn = GasPrices b, KeyDirectory_bbn = KeyDirectory b, Debug_bbn = Debug b, Timeout_bbn = Timeout b,
        BlockTimeout_bbn = BlockTimeout b, OutputFormat_bbn = OutputFormat b, SignModeStr_bbn = SignModeStr b,
        SubmitterAddress_bbn = []\<rparr> x = (Ok (), x')) \<and>
    fpName (kc ce) = Key b \<and> passphrase ce = cli_String ctx passphraseFlag \<and>
    wired (kc ce) w' \<and> params ce = None \<and> sent w' = sent w \<and>
    (\<exists>rec rest x x' key.
       keyring_Key K (kr_handle (kr (kc ce))) (Key b) (passphrase ce) x = ((Ok rec, rest), x') \<and>
       GetCachedPrivKey K rec = Ok (Secp256k1PrivKey key) \<and> ParsePubKey K (PubKeyBytes K key) = Ok (pk ce))"
proof -
  obtain ce home conf where r: "srv = RunUntilShutdown_enter (NewCovenantServer (ce, w'))"
      "expandHome (environment w) (cli_String ctx homeFlag) = Ok home" "fst (LoadConfig CL home w) = Ok conf"
      "Validate conf = Ok conf" "config ce = conf"
      "cc ce = babylon_cc L \<lparr>cfg = BabylonConfig conf, btcParams = BTCNetParams conf\<rparr>"
      "fpName (kc ce) = Key (BabylonConfig conf)" "passphrase ce = cli_String ctx passphraseFlag"
      "wired (kc ce) w'" "params ce = None" "sent w' = sent w"
      "\<exists>rec rest x x' key.
       keyring_Key K (kr_handle (kr (kc ce))) (Key (BabylonConfig conf)) (passphrase ce) x = ((Ok rec, rest), x') \<and>
       GetCachedPrivKey K rec = Ok (Secp256k1PrivKey key) \<and> ParsePubKey K (PubKeyBytes K key) = Ok (pk ce)"
    using start_run [OF assms] by blast
  note opened = start_opened [OF assms r(2,3), THEN conjunct2, unfolded BBNConfigToBabylonConfig_def]
  show ?thesis
    by (rule exI [of _ ce], rule exI [of _ home], rule exI [of _ conf], rule exI [of _ "BabylonConfig conf"])
      (intro conjI refl r opened)
qed

section \<open>A concrete configuration file\<close>

text \<open>One line per option: each character marked, an end mark after each value.\<close>

definition enc_values :: "string list \<Rightarrow> string" where
  "enc_values xs = concat (map (\<lambda>s. concat (map (\<lambda>ch. [CHR ''c'', ch]) s) @ ''e'') xs)"

fun dec_values :: "string \<Rightarrow> string \<Rightarrow> string list" where
  "dec_values acc (m # ch # s) =
     (if m = CHR ''c'' then dec_values (acc @ [ch]) s else acc # dec_values [] (ch # s))"
| "dec_values acc [m] = [acc]"
| "dec_values acc [] = []"

lemma dec_value: "dec_values acc (concat (map (\<lambda>ch. [CHR ''c'', ch]) s) @ CHR ''e'' # t) = (acc @ s) # dec_values [] t"
proof (induction s arbitrary: acc)
  case Nil
  show ?case by (cases t) simp_all
qed simp

lemma dec_enc_values: "dec_values [] (enc_values xs) = xs"
proof (induction xs)
  case (Cons x xs)
  have "enc_values (x # xs) = concat (map (\<lambda>ch. [CHR ''c'', ch]) x) @ CHR ''e'' # enc_values xs"
    by (simp add: enc_values_def)
  with Cons show ?case by (simp only: dec_value) simp
qed (simp add: enc_values_def)

definition sample_print :: "Config \<Rightarrow> string" where
  "sample_print c =
     (let b = BabylonConfig c in enc_values
        [LogLevel c, show_nat (unat (QueryInterval c)), show_nat (unat (DelegationLimit c)),
         show_nat (unat (SigsBatchSize c)), BitcoinNetwork c, Key b, ChainID_cfg b, RPCAddr b, GRPCAddr b,
         AccountPrefix b, KeyringBackend b, (case GasAdjustment b of Float64 n \<Rightarrow> show_nat (unat n)), GasPrices b,
         KeyDirectory b, (if Debug b then ''t'' else ''f''), show_nat (unat (Timeout b)),
         show_nat (unat (BlockTimeout b)), OutputFormat b, SignModeStr b])"

definition sample_parse :: "string \<Rightarrow> Config res" where
  "sample_parse s =
     (case dec_values [] s of
        [l, q, d, n, net, k, ch, rpc, grpc, pre, back, gas, price, dir, dbg, tm, btm, fmt, sg] \<Rightarrow>
          Ok \<lparr>LogLevel = l, QueryInterval = of_nat (read_nat q), DelegationLimit = of_nat (read_nat d),
              SigsBatchSize = of_nat (read_nat n), BitcoinNetwork = net, BTCNetParams = ZeroNetParams,
              BabylonConfig =
                \<lparr>Key = k, ChainID_cfg = ch, RPCAddr = rpc, GRPCAddr = grpc, AccountPrefix = pre,
                 KeyringBackend = back, GasAdjustment = Float64 (of_nat (read_nat gas)), GasPrices = price,
                 KeyDirectory = dir, Debug = (dbg = ''t''), Timeout = of_nat (read_nat tm),
                 BlockTimeout = of_nat (read_nat btm), OutputFormat = fmt, SignModeStr = sg\<rparr>\<rparr>
      | _ \<Rightarrow> Err (Error ''malformed''))"

definition sample_config_lib :: config_lib where
  "sample_config_lib =
     \<lparr>DefaultBabylonConfig = (BBNConfigToBabylonConfig sample_bbn_config), DefaultCovenantDir = ''/h'',
      ini_parse = sample_parse, ini_print = sample_print\<rparr>"

lemma sample_ini: "ini_faithful sample_config_lib"
  unfolding ini_faithful_def
proof (intro allI impI)
  fix c :: Config
  show "ini_parse sample_config_lib (ini_print sample_config_lib c) = Ok (c\<lparr>BTCNetParams := ZeroNetParams\<rparr>)"
    by (cases c; cases "BabylonConfig c"; cases "GasAdjustment (BabylonConfig c)")
      (simp add: sample_config_lib_def sample_parse_def sample_print_def Let_def dec_enc_values read_show_nat)
qed

section \<open>The commands on a concrete disk\<close>

definition sample_flags :: cli_Context where
  "sample_flags =
     \<lparr>cli_String = (\<lambda>n. if n = ''home'' then ''/h'' else if n = ''key-name'' then ''covenant-key''
        else if n = ''passphrase'' then ''secret'' else if n = ''hd-path'' then [] else ''test''),
      cli_Bool = (\<lambda>_. False)\<rparr>"

definition sample_options :: Config where
  "sample_options =
     \<lparr>LogLevel = ''info'', QueryInterval = 15, DelegationLimit = 100, SigsBatchSize = 10, BitcoinNetwork = ''simnet'',
      BTCNetParams = SimNetParams, BabylonConfig = sample_bbn_config\<rparr>"

text \<open>An empty disk, and one that holds a home with a configuration file and a log.\<close>

definition blank_world :: "unit world" where
  "blank_world = sample_world\<lparr>files := \<lparr>nodes = [[] \<mapsto> DirNode], cwd = [], fault = (\<lambda>_ _. None)\<rparr>\<rparr>"

definition home_world :: "unit world" where
  "home_world = sample_world\<lparr>files :=
     \<lparr>nodes = [[] \<mapsto> DirNode, [''h''] \<mapsto> DirNode, [''h'', ''logs''] \<mapsto> DirNode,
        [''h'', ''covd.conf''] \<mapsto> FileNode (ini_print sample_config_lib sample_options)],
      cwd = [], fault = (\<lambda>_ _. None)\<rparr>\<rparr>"

lemma sample_paths:
  "expandHome sample_environ ''/h'' = Ok ''/h''" "LogDir ''/h'' = ''/h/logs''" "ConfigFile ''/h'' = ''/h/covd.conf''"
  "Dir (LogFile ''/h'') = ''/h/logs''" "LogFile ''/h'' = ''/h/logs/covd.log''"
  "elements ''h'' = [''h'']" "elements ''h/logs'' = [''h'', ''logs'']"
  "elements ''h/covd.conf'' = [''h'', ''covd.conf'']" "elements ''h/logs/covd.log'' = [''h'', ''logs'', ''covd.log'']"
  "clean_go True [] [''h''] = [''h'']" "clean_go True [] [''h'', ''logs''] = [''h'', ''logs'']"
  "clean_go True [] [''h'', ''covd.conf''] = [''h'', ''covd.conf'']"
  "clean_go True [] [''h'', ''logs'', ''covd.log''] = [''h'', ''logs'', ''covd.log'']"
  "path_of True [''h''] = ''/h''" "path_of True [''h'', ''logs''] = ''/h/logs''"
  by code_simp+

lemmas sample_files = os_MkdirAll_def MakeDirectory_def MkdirAll_rev.simps os_Stat_def fs_key_def mkdir_checked_def
  os_Mkdir_def under_file_def is_file_def FileExists_def IsNotExist_def os_WriteFile_def os_create_def os_ReadFile_def
  os_OpenAppend_def Let_def

lemma sample_dirs:
  "files blank_world = \<lparr>nodes = [[] \<mapsto> DirNode], cwd = [], fault = (\<lambda>_ _. None)\<rparr>"
  "environment blank_world = sample_environ" "environment home_world = sample_environ" "ext home_world = ()"
  "readers home_world = []" "sent home_world = []" "trace home_world = []"
  "no_faults blank_world" "no_faults home_world"
  by (simp_all add: blank_world_def home_world_def no_faults_def sample_world_def sent_def)

lemma sample_plain:
  "\<exists>conf. DefaultConfigWithHomePath sample_config_lib ''/h'' = Ok conf \<and> ini_plain conf \<and> LogLevel conf = ''debug'' \<and>
     KeyDirectory (BabylonConfig conf) = ''/h''"
  "ini_plain sample_options"
  by (simp_all add: DefaultConfigWithHomePath_def Validate_def Let_def config_defaults DefaultBBNConfig_def sample_config_lib_def
      BBNConfigToBabylonConfig_def sample_bbn_config_def sample_options_def ini_plain_def plain_def finite_float_def)

lemma ini_plain_key:
  "ini_plain conf \<Longrightarrow> plain name \<Longrightarrow> plain backend \<Longrightarrow>
     ini_plain (conf\<lparr>BabylonConfig := (BabylonConfig conf)\<lparr>Key := name, KeyringBackend := backend\<rparr>\<rparr>)"
  by (simp add: ini_plain_def Let_def)

lemma sample_mkdir:
  "MakeDirectory ''/h'' \<lparr>nodes = [[] \<mapsto> DirNode], cwd = [], fault = (\<lambda>_ _. None)\<rparr> =
     (Ok (), \<lparr>nodes = [[] \<mapsto> DirNode, [''h''] \<mapsto> DirNode], cwd = [], fault = (\<lambda>_ _. None)\<rparr>)"
  "MakeDirectory ''/h/logs'' \<lparr>nodes = [[] \<mapsto> DirNode, [''h''] \<mapsto> DirNode], cwd = [], fault = (\<lambda>_ _. None)\<rparr> =
     (Ok (), \<lparr>nodes = [[] \<mapsto> DirNode, [''h''] \<mapsto> DirNode, [''h'', ''logs''] \<mapsto> DirNode], cwd = [],
        fault = (\<lambda>_ _. None)\<rparr>)"
  by (simp_all add: sample_files sample_paths)

lemma sample_init: "\<exists>w'. initHome sample_config_lib sample_flags blank_world = (Ok (), w')"
proof -
  obtain conf where "DefaultConfigWithHomePath sample_config_lib ''/h'' = Ok conf"
    by (simp add: DefaultConfigWithHomePath_def Validate_def Let_def config_defaults)
  moreover have "\<not> FileExists (files blank_world) ''/h''" by (simp add: sample_dirs sample_files sample_paths)
  moreover have "\<exists>fs. os_WriteFile ''/h/covd.conf'' s \<lparr>nodes = [[] \<mapsto> DirNode, [''h''] \<mapsto> DirNode, [''h'', ''logs''] \<mapsto> DirNode],
      cwd = [], fault = (\<lambda>_ _. None)\<rparr> = (Ok (), fs)" for s by (simp add: sample_files sample_paths)
  ultimately show ?thesis
    by (auto simp: initHome_def run_iffs on_files_Ok sample_flags_def flag_defs sample_paths sample_dirs sample_mkdir)
qed

theorem init_then_load_witness:
  "\<exists>w' conf. initHome sample_config_lib sample_flags blank_world = (Ok (), w') \<and>
     LoadConfig sample_config_lib ''/h'' w' = (Ok conf, w')"
proof -
  obtain w' where r: "initHome sample_config_lib sample_flags blank_world = (Ok (), w')" using sample_init by blast
  obtain conf where c: "DefaultConfigWithHomePath sample_config_lib ''/h'' = Ok conf" "ini_plain conf"
    using sample_plain(1) by blast
  have "expandHome (environment blank_world) (cli_String sample_flags homeFlag) = Ok ''/h''"
    by (simp add: sample_dirs sample_flags_def flag_defs sample_paths)
  from init_then_load [OF r this c sample_dirs(8) sample_ini] r show ?thesis by blast
qed

lemma sample_home: "LoadConfig sample_config_lib ''/h'' home_world = (Ok sample_options, home_world)"
proof -
  have "ini_parse sample_config_lib (ini_print sample_config_lib sample_options) =
      Ok (sample_options\<lparr>BTCNetParams := ZeroNetParams\<rparr>)"
    using sample_ini sample_plain(2) by (simp add: ini_faithful_def)
  moreover have "Validate sample_options = Ok sample_options"
    by (simp add: Validate_def sample_options_def Let_def)
  ultimately show ?thesis
    by (simp add: LoadConfig_def Let_def home_world_def sample_paths sample_files)
qed

text \<open>A home as \<^verbatim>\<open>init\<close> leaves it, whatever the configuration file says.\<close>

definition set_up :: "unit world \<Rightarrow> bool" where
  "set_up w \<longleftrightarrow> environment w = sample_environ \<and> no_faults w \<and> cwd (files w) = [] \<and>
     nodes (files w) [''h''] = Some DirNode \<and> nodes (files w) [''h'', ''logs''] = Some DirNode \<and>
     is_file (nodes (files w) [''h'', ''covd.conf'']) \<and> nodes (files w) [''h'', ''logs'', ''covd.log''] = None"

lemma set_up_home: "set_up home_world"
  by (simp add: set_up_def home_world_def no_faults_def sample_world_def is_file_def)

lemma set_up_calls:
  assumes "set_up w"
  shows "FileExists (files w) ''/h''" "MakeDirectory ''/h'' (files w) = (Ok (), files w)"
    "MakeDirectory ''/h/logs'' (files w) = (Ok (), files w)"
    "\<exists>fs. os_OpenAppend ''/h/logs/covd.log'' (files w) = (Ok (), fs)"
    "os_WriteFile ''/h/covd.conf'' s (files w) =
       (Ok (), (files w)\<lparr>nodes := (nodes (files w))([''h'', ''covd.conf''] \<mapsto> FileNode s)\<rparr>)"
    "set_up (w\<lparr>files := (files w)\<lparr>nodes := (nodes (files w))([''h'', ''covd.conf''] \<mapsto> FileNode s)\<rparr>\<rparr>)"
  using assms
  by (auto simp: set_up_def no_faults_def is_file_def sample_files sample_paths split: option.splits node.splits)

theorem init_keeps_files_witness:
  "\<exists>e. initHome sample_config_lib sample_flags home_world = (Err e, home_world) \<and>
     e = Error ''home path /h already exists''"
proof -
  obtain r w' where r: "initHome sample_config_lib sample_flags home_world = (r, w')" by fastforce
  with set_up_calls(1) [OF set_up_home] init_keeps_files [OF r] r show ?thesis
    by (simp add: sample_dirs sample_flags_def flag_defs sample_paths)
qed

theorem home_tilde_is_literal_witness:
  "expandHome (sample_environ\<lparr>getwd := Ok ''/work''\<rparr>) ''~/.covd'' = Ok ''/work/~/.covd''"
proof -
  have "Clean ''/work/~/.covd'' = ''/work/~/.covd''" by code_simp
  with home_tilde_is_literal [of "sample_environ\<lparr>getwd := Ok ''/work''\<rparr>" "''/work''" "''/.covd''"]
  show ?thesis by simp
qed

lemma sample_create:
  "\<exists>info w'. CreateCovenantKey sample_keyring ''/h'' ''test'' ''covenant-key'' ''test'' ''secret'' [] w = (Ok info, w')"
  by (simp add: CreateCovenantKey_def CreateClientCtx_def NewChainKeyringController_def CreateKeyring_def CreateChainKey_def
      NewReader_def Reset_def reading_call_def ext_call_def bindP_def sample_keyring_def wrapP_def)

lemma CreateCovenantKey_environment: "keeps environment (CreateCovenantKey K dir chain name backend pass hdPath)"
  unfolding CreateCovenantKey_def NewChainKeyringController_def CreateChainKey_def
  by (intro keeps_intros; simp add: split_beta keeps_intros)

definition sample_hexkey :: "BIP340PubKey \<Rightarrow> string" where
  "sample_hexkey k = (case k of BIP340PubKey b \<Rightarrow> hex_EncodeToString b)"

lemma sample_createKey:
  assumes "set_up w" and "LoadConfig sample_config_lib ''/h'' w = (Ok conf, w)"
  shows "\<exists>w'. createKey sample_config_lib sample_keyring L sample_hexkey sample_flags w = (Ok (), w') \<and> set_up w'"
proof -
  obtain info w1 where k: "CreateCovenantKey sample_keyring ''/h'' ''test'' ''covenant-key'' ''test'' ''secret'' [] w
      = (Ok info, w1)" using sample_create by blast
  have f: "files w1 = files w" "environment w1 = environment w"
    using keepsD [OF CreateCovenantKey_files k] keepsD [OF CreateCovenantKey_environment k] by simp_all
  then have "set_up (w1\<lparr>stdout := out\<rparr>)" for out using assms(1) by (simp add: set_up_def no_faults_def)
  from set_up_calls(5,6) [OF this] k assms(2) show ?thesis
    by (auto simp: createKey_def Let_def run_iffs printRespJSON_def on_files_Ok sample_flags_def flag_defs sample_paths)
qed

theorem createKey_saves_witness:
  "\<exists>w' conf. createKey sample_config_lib sample_keyring sample_bbn sample_hexkey sample_flags home_world = (Ok (), w') \<and>
     LoadConfig sample_config_lib ''/h'' w' = (Ok conf, w') \<and> Key (BabylonConfig conf) = ''covenant-key'' \<and>
     length (stdout w') = 1"
proof -
  obtain w' where r: "createKey sample_config_lib sample_keyring sample_bbn sample_hexkey sample_flags home_world = (Ok (), w')"
    using sample_createKey [OF set_up_home sample_home] by blast
  have h: "cli_String sample_flags homeFlag = ''/h''" "plain (cli_String sample_flags keyNameFlag)"
      "plain (cli_String sample_flags keyringBackendFlag)" "cli_String sample_flags keyNameFlag = ''covenant-key''"
    by (simp_all add: sample_flags_def flag_defs plain_def)
  have "stdout home_world = []" by (simp add: home_world_def sample_world_def)
  with createKey_saves [OF r _ refl ini_plain_key [OF sample_plain(2) h(2,3)] sample_dirs(9) sample_ini] r h(1,4) sample_home
  show ?thesis by auto
qed

lemma sample_log_levels: "\<exists>l. NewRootLogger ''console'' ''info'' = Ok l" "\<exists>l. NewRootLogger ''console'' ''debug'' = Ok l"
proof -
  have "ToLower ''info'' = ''info''" "ToLower ''debug'' = ''debug''" by code_simp+
  then show "\<exists>l. NewRootLogger ''console'' ''info'' = Ok l" "\<exists>l. NewRootLogger ''console'' ''debug'' = Ok l"
    by (auto simp: NewRootLogger_def)
qed

lemma sample_start_run:
  assumes "set_up w" and "LoadConfig sample_config_lib ''/h'' w = (Ok conf, w)"
    and "\<exists>l. NewRootLogger ''console'' (LogLevel conf) = Ok l" and "Key (BabylonConfig conf) \<noteq> []"
    and "KeyDirectory (BabylonConfig conf) \<noteq> []" and "KeyringBackend (BabylonConfig conf) \<noteq> []"
  shows "\<exists>srv w'. start sample_config_lib sample_keyring sample_node (\<lambda>x. (Ok (), x)) sample_flags w = (Ok srv, w')"
proof -
  obtain l w1 where "NewRootLoggerWithFile ''/h/logs/covd.log'' (LogLevel conf) w = (Ok l, w1)"
    using assms(3) set_up_calls(3,4) [OF assms(1)] sample_paths(4,5)
    by (auto simp: NewRootLoggerWithFile_def run_iffs on_files_Ok)
  moreover have "environment w = sample_environ" using assms(1) by (simp add: set_up_def)
  ultimately show ?thesis
    using assms(2,4-6)
    by (simp add: start_def bindP_def wrapP_def sample_flags_def flag_defs sample_paths NewBabylonController_def
        ext_call_def sample_node_def sample_bbn_def NewCovenantEmulator_def CreateKeyring_def CreateClientCtx_def
        NewChainKeyringControllerWithKeyring_def GetChainPrivKey_def sample_keyring_def NewReader_def Reset_def
        reading_call_def Let_def)
qed

lemma sample_start:
  "\<exists>srv w'. start sample_config_lib sample_keyring sample_node (\<lambda>x. (Ok (), x)) sample_flags home_world = (Ok srv, w')"
  using sample_log_levels
  by (intro sample_start_run [OF set_up_home sample_home]) (simp_all add: sample_options_def sample_bbn_config_def)

theorem start_ready_witness:
  "\<exists>srv w'. start sample_config_lib sample_keyring sample_node (\<lambda>x. (Ok (), x)) sample_flags home_world = (Ok srv, w') \<and>
     config (fst (emulator (core srv))) = sample_options \<and> wired (kc (fst (emulator (core srv)))) w' \<and> sent w' = []"
proof -
  obtain srv w' where r: "start sample_config_lib sample_keyring sample_node (\<lambda>x. (Ok (), x)) sample_flags home_world = (Ok srv, w')"
    using sample_start by blast
  from start_ready [OF r] r sample_home show ?thesis
    by (auto simp: sample_dirs sample_flags_def flag_defs sample_paths server_emulator)
qed

end
