(* ===== verification/Service_Spec.thy ===== *)
theory Service_Spec
  imports Commands
begin

text \<open>
  What the daemon promises, without goroutines, channels or libraries: a service that is opened once,
  submits transactions while it is open, each one allowed, and is closed for good. The life cycle of
  the emulator, and with it the whole program, refines this service. The second part is the promise in
  the other direction: a running daemon whose node answers does submit.
\<close>

section \<open>The service\<close>

datatype phase = Unopened | Serving | Closed

record service =
  phase :: phase
  submitted :: "sdk_Msg list list"

inductive service_step :: "(sdk_Msg list \<Rightarrow> bool) \<Rightarrow> service \<Rightarrow> service \<Rightarrow> bool" for allowed where
  open_up: "phase v = Unopened \<Longrightarrow> service_step allowed v (v\<lparr>phase := Serving\<rparr>)"
| submit: "phase v = Serving \<Longrightarrow> allowed ms \<Longrightarrow> service_step allowed v (v\<lparr>submitted := submitted v @ [ms]\<rparr>)"
| close: "phase v = Serving \<Longrightarrow> service_step allowed v (v\<lparr>phase := Closed\<rparr>)"

inductive_cases service_stepE: "service_step allowed v v'"

definition unopened :: service where
  "unopened = \<lparr>phase = Unopened, submitted = []\<rparr>"

text \<open>What the specification says of itself: nothing happens before it opens or after it closes.\<close>

definition service_inv :: "(sdk_Msg list \<Rightarrow> bool) \<Rightarrow> service \<Rightarrow> bool" where
  "service_inv allowed v \<longleftrightarrow> list_all allowed (submitted v) \<and> (phase v = Unopened \<longrightarrow> submitted v = [])"

interpretation service: inductive_invariant "service_step allowed" "\<lambda>v. v = unopened" "service_inv allowed" for allowed
  by unfold_locales (auto simp: service_inv_def unopened_def elim!: service_stepE)

lemma closed_stays: "(service_step allowed)\<^sup>*\<^sup>* v v' \<Longrightarrow> phase v = Closed \<Longrightarrow> v' = v"
  by (induction rule: rtranclp_induct) (auto elim!: service_stepE)

lemma submit_all:
  "phase v = Serving \<Longrightarrow> list_all allowed txs \<Longrightarrow>
     (service_step allowed)\<^sup>*\<^sup>* v (v\<lparr>submitted := submitted v @ txs\<rparr>)"
proof (induction txs rule: rev_induct)
  case (snoc ms txs)
  let ?v = "v\<lparr>submitted := submitted v @ txs\<rparr>"
  have "service_step allowed ?v (?v\<lparr>submitted := submitted ?v @ [ms]\<rparr>)"
    by (rule service_step.submit) (use snoc.prems in simp_all)
  with snoc show ?case by (simp add: rtranclp.rtrancl_into_rtrancl)
qed simp

section \<open>Simulation\<close>

text \<open>
  A step of the detailed system is matched by any number of steps of the abstract one, under an
  invariant of the detailed system.
\<close>

locale simulation = inductive_invariant step init inv
  for step :: "'s \<Rightarrow> 's \<Rightarrow> bool" and init :: "'s \<Rightarrow> bool" and inv :: "'s \<Rightarrow> bool" +
  fixes astep :: "'a \<Rightarrow> 'a \<Rightarrow> bool" and abs :: "'s \<Rightarrow> 'a"
  assumes match: "inv s \<Longrightarrow> step s s' \<Longrightarrow> astep\<^sup>*\<^sup>* (abs s) (abs s')"
begin

lemma matches: "step\<^sup>*\<^sup>* s s' \<Longrightarrow> inv s \<Longrightarrow> astep\<^sup>*\<^sup>* (abs s) (abs s')"
proof (induction rule: rtranclp_induct)
  case (step s1 s2)
  with steps_inv [OF step(1)] match [OF _ step(2)] show ?case by (meson rtranclp_trans)
qed simp

lemma reachable_matches: "init s \<Longrightarrow> step\<^sup>*\<^sup>* s s' \<Longrightarrow> astep\<^sup>*\<^sup>* (abs s) (abs s')"
  by (blast intro: matches init_inv)

end

section \<open>The emulator as a service\<close>

definition phase_of :: "loop_pc \<Rightarrow> phase" where
  "phase_of l = (case l of L_None \<Rightarrow> Unopened | L_Begin \<Rightarrow> Serving | L_Select \<Rightarrow> Serving | L_Round \<Rightarrow> Serving | L_Exit \<Rightarrow> Closed | L_Exited \<Rightarrow> Closed)"

lemma phase_of_simps [simp]:
  "phase_of L_None = Unopened" "phase_of L_Begin = Serving" "phase_of L_Select = Serving" "phase_of L_Round = Serving"
  "phase_of L_Exit = Closed" "phase_of L_Exited = Closed"
  by (simp_all add: phase_of_def)

definition service_of :: "'x machine \<Rightarrow> service" where
  "service_of m = \<lparr>phase = phase_of (loop m), submitted = sent (snd (emulator m))\<rparr>"

lemma service_of_fresh: "service_of (fresh (ce, w)) = \<lparr>phase = Unopened, submitted = sent w\<rparr>"
  by (simp add: service_of_def fresh_def)

text \<open>The emulator it started with, up to the parameters, and the state of its goroutine.\<close>

definition emulates where
  "emulates L bc R ce s \<longleftrightarrow> retries R \<and> cc ce = babylon_cc L bc \<and> go_sized (babylon_cc L bc) \<and> lc_inv s \<and>
     (\<exists>p. fst (emulator s) = ce\<lparr>params := p\<rparr>)"

lemma round_match:
  assumes "emulates L bc R ce s" and "tick S K R (emulator s) = Some (r, e)"
  shows "\<exists>txs p. sent (snd e) = sent (snd (emulator s)) @ txs \<and> fst e = ce\<lparr>params := p\<rparr> \<and>
    list_all (justified L bc S ce) txs \<and> (txs = [] \<or> round_justified L bc S R ce (emulator s) txs)"
proof -
  from assms(1) obtain p where p: "fst (emulator s) = ce\<lparr>params := p\<rparr>" "retries R" "cc ce = babylon_cc L bc"
      "go_sized (babylon_cc L bc)"
    by (auto simp: emulates_def)
  obtain ce' w' where e: "e = (ce', w')" by fastforce
  have "tick S K R (ce\<lparr>params := p\<rparr>, snd (emulator s)) = Some (r, (ce', w'))"
    using assms(2) p(1) e by (metis prod.collapse)
  from tick_justified [OF p(2-4) this] obtain txs p' where txs: "sent w' = sent (snd (emulator s)) @ txs"
      "ce' = ce\<lparr>params := p'\<rparr>" "txs = [] \<or> round_justified L bc S R ce (emulator s) txs"
    by (metis p(1) prod.collapse)
  moreover have "list_all (justified L bc S ce) txs" using txs(3) round_justified_each by (fastforce simp: list_all_iff)
  ultimately show ?thesis by (auto simp: e)
qed

lemma emulates_step: "emulates L bc R ce s \<Longrightarrow> lstep S K R a s s' \<Longrightarrow> emulates L bc R ce s'"
proof -
  assume e: "emulates L bc R ce s" and st: "lstep S K R a s s'"
  have "lc_inv s'" using e st lc_inv_step by (auto simp: emulates_def)
  moreover have "\<exists>p. fst (emulator s') = ce\<lparr>params := p\<rparr>"
    using st
  proof (cases rule: lstep.cases)
    case round
    from round(3) show ?thesis
      by (cases rule: Loop_round_cases) (auto dest: round_match [OF e])
  qed (use e in \<open>auto simp: emulates_def emulator_unchanged\<close>)
  ultimately show "emulates L bc R ce s'" using e by (simp add: emulates_def)
qed

lemma service_match:
  assumes "emulates L bc R ce s" and "lstep S K R a s s'"
  shows "(service_step (justified L bc S ce))\<^sup>*\<^sup>* (service_of s) (service_of s')"
  using assms(2)
proof (cases rule: lstep.cases)
  case start
  have "loop s = L_None \<longleftrightarrow> startOnce s \<noteq> S_Done" using assms(1) by (simp add: emulates_def lc_inv_def)
  with start(3) show ?thesis
    using service_step.open_up [of "service_of s" "justified L bc S ce"]
    by (auto simp: Start_step_def service_of_def split: start_pc.splits)
next
  case round
  from round(3) obtain r e where e: "loop s = L_Round" "tick S K R (emulator s) = Some (r, e)"
      "service_of s' = (service_of s)\<lparr>submitted := sent (snd e)\<rparr>"
    by (cases rule: Loop_round_cases) (auto simp: service_of_def)
  obtain txs where "sent (snd e) = submitted (service_of s) @ txs" "list_all (justified L bc S ce) txs"
    using round_match [OF assms(1) e(2)] by (auto simp: service_of_def)
  moreover have "phase (service_of s) = Serving" using e(1) by (simp add: service_of_def)
  ultimately show ?thesis using e(3) submit_all [of "service_of s" "justified L bc S ce" txs] by simp
next
  case quit
  then show ?thesis
    using service_step.close [of "service_of s" "justified L bc S ce"]
    by (auto simp: Loop_quit_def service_of_def split: if_splits)
qed (auto simp: step_defs service_of_def split: stop_pc.splits if_splits)

interpretation emulating: simulation "move S K R" "\<lambda>s. emulates L bc R ce s \<and> (\<exists>w. s = fresh (ce, w))"
    "emulates L bc R ce" "service_step (justified L bc S ce)" service_of
  for S :: signing_lib and K :: "'x keyring_lib" and R and L :: "'x bbn_lib" and bc and ce :: "'x CovenantEmulator"
proof unfold_locales
  fix s s' :: "'x machine"
  show "emulates L bc R ce s \<Longrightarrow> move S K R s s' \<Longrightarrow> emulates L bc R ce s'"
    unfolding move_def by (blast intro: emulates_step)
  show "emulates L bc R ce s \<Longrightarrow> move S K R s s' \<Longrightarrow>
      (service_step (justified L bc S ce))\<^sup>*\<^sup>* (service_of s) (service_of s')"
    unfolding move_def by (blast intro: service_match)
qed blast

lemma emulates_fresh:
  "retries R \<Longrightarrow> cc ce = babylon_cc L bc \<Longrightarrow> go_sized (babylon_cc L bc) \<Longrightarrow> emulates L bc R ce (fresh (ce, w))"
  by (auto simp: emulates_def fresh_def lc_inv_def intro: exI [of _ "params ce"])

section \<open>Tracing transactions back to their round\<close>

lemma round_logged:
  assumes "emulates L bc R ce s" and "lstep S K R a s s'"
  shows "\<exists>txs. sent (snd (emulator s')) = sent (snd (emulator s)) @ txs \<and>
    (txs = [] \<or> loop s = L_Round \<and> round_justified L bc S R ce (emulator s) txs)"
  using assms(2)
proof (cases rule: lstep.cases)
  case round
  from round(3) obtain r e where "loop s = L_Round" "tick S K R (emulator s) = Some (r, e)" "emulator s' = e"
    by (cases rule: Loop_round_cases) auto
  with round_match [OF assms(1)] show ?thesis by blast
qed (simp_all add: emulator_unchanged)

lemma sstep_cases: "sstep S K R s s' \<Longrightarrow> core s' = core s \<or> (\<exists>a. lstep S K R a (core s) (core s'))"
  by (erule sstepE) (auto simp: RunUntilShutdown_enter_def Let_def)

interpretation tracing: traceback "sstep S K R" "\<lambda>s. emulates L bc R ce (core s)" "\<lambda>s. emulates L bc R ce (core s)"
    "\<lambda>s. sent (snd (emulator (core s)))"
    "\<lambda>s txs. loop (core s) = L_Round \<and> round_justified L bc S R ce (emulator (core s)) txs"
  for S :: signing_lib and K :: "'x keyring_lib" and R and L :: "'x bbn_lib" and bc and ce :: "'x CovenantEmulator"
proof unfold_locales
  fix s s' :: "'x server"
  show "emulates L bc R ce (core s) \<Longrightarrow> sstep S K R s s' \<Longrightarrow> emulates L bc R ce (core s')"
    using sstep_cases [of S K R s s'] emulates_step [of L bc R ce "core s" S K _ "core s'"] by auto
  show "emulates L bc R ce (core s) \<Longrightarrow> sstep S K R s s' \<Longrightarrow>
      \<exists>txs. sent (snd (emulator (core s'))) = sent (snd (emulator (core s))) @ txs \<and>
        (txs = [] \<or> loop (core s) = L_Round \<and> round_justified L bc S R ce (emulator (core s)) txs)"
    using sstep_cases [of S K R s s'] round_logged [of L bc R ce "core s" S K _ "core s'"] by auto
qed

section \<open>covd as a service\<close>

lemma started_emulates:
  assumes "start CL K L Intercept ctx w = (Ok srv, w')" and "retries R" and "emulator (core srv) = (ce, v)"
    and "bc = \<lparr>cfg = BabylonConfig (config ce), btcParams = BTCNetParams (config ce)\<rparr>" and "go_sized (babylon_cc L bc)"
  shows "core srv = fresh (ce, w') \<and> emulates L bc R ce (core srv) \<and> wired (kc ce) w' \<and> sent w' = sent w \<and>
    srv = RunUntilShutdown_enter (NewCovenantServer (ce, w'))"
proof -
  have "srv = RunUntilShutdown_enter (NewCovenantServer (ce, w'))" "cc ce = babylon_cc L bc" "wired (kc ce) w'"
      "sent w' = sent w"
    using start_run [OF assms(1)] assms(3,4) by (auto simp: server_emulator)
  then show ?thesis using emulates_fresh assms(2,5) by (simp add: server_core)
qed

lemma done_closed:
  assumes "(sstep S K R)\<^sup>*\<^sup>* (NewCovenantServer e) s" and "V_Done \<in> set (callers s)"
  shows "loop (core s) = L_Exited"
proof -
  have srv: "srv_inv s" using serving.reachable_inv assms(1) by blast
  then have "caller_ok (core s) (shutdown s) V_Done" using assms(2) unfolding srv_inv_def list_all_iff by blast
  then have "startOnce (core s) = S_Done" "stopOnce (core s) = P_Done" by simp_all
  with srv show ?thesis by (simp add: srv_inv_def stops_inv_def)
qed

lemma entered_reachable:
  assumes "(sstep S K R)\<^sup>*\<^sup>* (RunUntilShutdown_enter (NewCovenantServer e)) s"
  shows "(sstep S K R)\<^sup>*\<^sup>* (NewCovenantServer e) s"
  by (rule converse_rtranclp_into_rtranclp [OF sstep.call assms]) (simp add: NewCovenantServer_def fresh_def)

text \<open>
  C2: \<^verbatim>\<open>covd\<close> implements the service: every state that the server of \<^verbatim>\<open>covd start\<close> can reach, however it is
  called, signalled and scheduled, is one that the specification can reach from its unopened state by
  opening once, submitting justified transactions while open and closing once. When the call of
  \<^verbatim>\<open>RunUntilShutdown\<close> has returned the service is closed, and once it is closed nothing is submitted.
\<close>

theorem covd_refines:
  assumes "start CL K L Intercept ctx w = (Ok srv, w')" and "sent w = []" and "retries R"
    and "emulator (core srv) = (ce, v)" and "bc = \<lparr>cfg = BabylonConfig (config ce), btcParams = BTCNetParams (config ce)\<rparr>"
    and "go_sized (babylon_cc L bc)" and "(sstep S K R)\<^sup>*\<^sup>* srv s"
  shows "(service_step (justified L bc S ce))\<^sup>*\<^sup>* unopened (service_of (core s)) \<and>
    (V_Done \<in> set (callers s) \<longrightarrow> phase (service_of (core s)) = Closed) \<and>
    (\<forall>s'. phase (service_of (core s)) = Closed \<and> (sstep S K R)\<^sup>*\<^sup>* s s' \<longrightarrow> service_of (core s') = service_of (core s))"
proof -
  note st = started_emulates [OF assms(1,3-6)]
  have run: "(move S K R)\<^sup>*\<^sup>* (core srv) (core s)" using assms(7) by (rule serving_is_living)
  have "service_of (core srv) = unopened" using st assms(2) by (simp add: service_of_fresh unopened_def server_core)
  with emulating.matches [OF run] st have "(service_step (justified L bc S ce))\<^sup>*\<^sup>* unopened (service_of (core s))"
    by metis
  moreover have "V_Done \<in> set (callers s) \<longrightarrow> phase (service_of (core s)) = Closed"
    using done_closed [OF entered_reachable, of S K R "(ce, w')" s] assms(7) st by (auto simp: service_of_def)
  moreover have "service_of (core s') = service_of (core s)"
    if "phase (service_of (core s)) = Closed" "(sstep S K R)\<^sup>*\<^sup>* s s'" for s'
    using closed_stays [OF emulating.matches [OF serving_is_living [OF that(2)]] that(1)]
      emulating.steps_inv [OF run] st by blast
  ultimately show ?thesis by blast
qed

section \<open>The readers survive\<close>

text \<open>No operation of a round drops a reader, so a controller that is wired stays wired.\<close>

abbreviation reader_total :: "'x world \<Rightarrow> nat" where
  "reader_total w \<equiv> length (readers w)"

lemma QueryStakingParams_readers: "keeps reader_total (QueryStakingParams L bc)"
  unfolding QueryStakingParams_def by (intro keeps_intros)

lemma QueryPendingDelegations_readers: "keeps reader_total (QueryPendingDelegations L n)"
  unfolding QueryPendingDelegations_def queryDelegationsWithStatus_def by (intro keeps_intros)

lemma signDelegation_readers [keeps_intros]: "keeps reader_total (signDelegation S K ce d)"
  unfolding signDelegation_def getPrivKey_def Let_def by (intro keeps_intros)

lemma collectSigs_readers: "cc ce = babylon_cc L bc \<Longrightarrow> keeps reader_total (collectSigs S K ce sigs ds)"
  by (induction ds arbitrary: sigs)
    (auto simp: babylon_cc_def intro!: keeps_intros SubmitCovenantSigs_readers)

lemma AddCovenantSignatures_readers:
  "cc ce = babylon_cc L bc \<Longrightarrow> keeps reader_total (AddCovenantSignatures S K ce ds)"
  unfolding AddCovenantSignatures_def by (intro keeps_intros collectSigs_readers)

lemma submitBatches_readers:
  "cc ce = babylon_cc L bc \<Longrightarrow> submitBatches S K ce bs w = (r, w') \<Longrightarrow> reader_total w' = reader_total w"
proof (induction bs arbitrary: w)
  case (Cons b bs)
  obtain r1 w1 where b: "AddCovenantSignatures S K ce b w = (r1, w1)" by fastforce
  have "reader_total w1 = reader_total w"
    using keepsD [OF AddCovenantSignatures_readers [OF Cons.prems(1)] b] .
  with Cons b show ?case by (auto split: res.splits)
qed simp

lemma attempts_readers:
  assumes "\<And>s. reader_total (snd (snd (f s))) = reader_total (snd s)"
  shows "reader_total (snd (snd (attempts n f s))) = reader_total (snd s)"
  using assms
proof (induction n arbitrary: s)
  case (Suc n)
  obtain r s' where "f s = (r, s')" by (metis prod.collapse)
  with Suc.IH [OF Suc.prems, of s'] Suc.prems [of s] show ?case by (auto split: res.splits)
qed simp

lemma UpdateParams_readers:
  assumes "retries R" and "cc ce = babylon_cc L bc" and "UpdateParams R (ce, w) = (r, (ce', w'))"
  shows "reader_total w' = reader_total w"
proof -
  have "reader_total (snd (snd (queryParams ce s))) = reader_total (snd s)" for s
  proof -
    obtain q v where "QueryStakingParams L bc (snd s) = (q, v)" by fastforce
    with keepsD [OF QueryStakingParams_readers this] assms(2) show ?thesis
      by (auto simp: queryParams_def babylon_cc_def split: prod.splits res.splits)
  qed
  then have "reader_total (snd (snd (attempts 4 (queryParams ce) (None, w)))) = reader_total w"
    using attempts_readers [of "queryParams ce" 4 "(None, w)"] by simp
  moreover have "R RtyAttNum RtyDel RtyErr (queryParams ce) (None, w) = attempts 4 (queryParams ce) (None, w)"
    using assms(1) by (simp add: retries_def RtyAttNum_def RtyErr_def eval_nat_numeral del: attempts.simps)
  ultimately show ?thesis
    using assms(3)
    by (cases "attempts 4 (queryParams ce) (None, w)")
      (auto simp: UpdateParams_def getParamsWithRetry_def simp del: attempts.simps split: prod.splits res.splits)
qed

lemma tick_readers:
  assumes "retries R" and "cc ce = babylon_cc L bc" and "tick S K R (ce, w) = Some (r, (ce', w'))"
  shows "reader_total w' = reader_total w"
proof -
  obtain u ce1 w1 where u: "UpdateParams R (ce, w) = (u, (ce1, w1))" by (metis prod.collapse)
  have c: "cc ce1 = babylon_cc L bc" using UpdateParams_emulator [OF u] assms(2) by auto
  obtain q w2 where q: "QueryPendingDelegations L (DelegationLimit (config ce1)) w1 = (q, w2)" by fastforce
  have "reader_total w2 = reader_total w"
    using keepsD [OF QueryPendingDelegations_readers q] UpdateParams_readers [OF assms(1,2) u] by simp
  moreover have "reader_total w1 = reader_total w" using UpdateParams_readers [OF assms(1,2) u] .
  moreover have "w' = w1 \<or> w' = w2 \<or> (\<exists>bs. submitBatches S K ce1 bs w2 = (r, w'))"
    using assms(3) u q c
    by (auto simp: tick_def babylon_cc_def split: prod.splits res.splits option.splits)
  ultimately show ?thesis using submitBatches_readers [OF c] by metis
qed


section \<open>A running daemon submits\<close>

interpretation keeping: inductive_invariant "move S K R" "\<lambda>s. emulates L bc R ce s \<and> wired (kc ce) (snd (emulator s))"
    "\<lambda>s. emulates L bc R ce s \<and> wired (kc ce) (snd (emulator s))"
  for S :: signing_lib and K :: "'x keyring_lib" and R and L :: "'x bbn_lib" and bc and ce :: "'x CovenantEmulator"
proof unfold_locales
  fix s s' :: "'x machine"
  assume i: "emulates L bc R ce s \<and> wired (kc ce) (snd (emulator s))" and "move S K R s s'"
  then obtain a where a: "lstep S K R a s s'" by (auto simp: move_def)
  from a have "wired (kc ce) (snd (emulator s'))"
  proof (cases rule: lstep.cases)
    case round
    then obtain r e where e: "tick S K R (emulator s) = Some (r, e)" "emulator s' = e"
      by (auto elim: Loop_round_cases)
    obtain ce' w' where "e = (ce', w')" by fastforce
    then have "tick S K R (fst (emulator s), snd (emulator s)) = Some (r, (ce', w'))" using e(1) by simp
    moreover have "cc (fst (emulator s)) = babylon_cc L bc" "retries R" using i by (auto simp: emulates_def)
    ultimately have "reader_total w' = reader_total (snd (emulator s))" by (blast dest: tick_readers)
    with i e(2) \<open>e = (ce', w')\<close> show ?thesis by (simp add: wired_def)
  qed (use i in \<open>simp_all add: emulator_unchanged\<close>)
  with emulates_step [OF _ a] i show "emulates L bc R ce s' \<and> wired (kc ce) (snd (emulator s'))" by blast
qed blast

lemma server_round:
  assumes "crashed (core s) = None" and "loop (core s) = L_Select" and "tick S K R (emulator (core s)) = Some (Ok (), e)"
  shows "(sstep S K R)\<^sup>*\<^sup>* s (s\<lparr>core := (core s)\<lparr>emulator := e\<rparr>\<rparr>)"
proof -
  let ?m = "(core s)\<lparr>loop := L_Round\<rparr>"
  have "lstep S K R Looper (core s) ?m" by (rule lstep.wake) (use assms in \<open>simp_all add: Loop_wake_def\<close>)
  then have "sstep S K R s (s\<lparr>core := ?m\<rparr>)" by (rule sstep.core) simp_all
  moreover have "lstep S K R Looper ?m ((core s)\<lparr>emulator := e\<rparr>)"
    by (rule lstep.round) (use assms in \<open>simp_all add: Loop_round_def\<close>)
  then have "sstep S K R (s\<lparr>core := ?m\<rparr>) (s\<lparr>core := (core s)\<lparr>emulator := e\<rparr>\<rparr>)"
    using sstep.core [of S K R Looper "s\<lparr>core := ?m\<rparr>"] by simp
  ultimately show ?thesis by (meson converse_rtranclp_into_rtranclp r_into_rtranclp)
qed

text \<open>
  C6: A running \<^verbatim>\<open>covd\<close> whose node answers does its work: from every state of the server in which the
  submission loop waits for its ticker, if the keyring still gives out the key, the node reports
  parameters and pending delegations and accepts transactions, and no delegation makes the signing
  panic, then the daemon can take steps after which exactly the transactions for the signable batches of
  unsigned delegations have been sent, and it waits for its ticker again.
\<close>

theorem covd_serves:
  assumes "start CL K L Intercept ctx w = (Ok srv, w')" and "retries R"
    and "emulator (core srv) = (ce, v)" and "bc = \<lparr>cfg = BabylonConfig (config ce), btcParams = BTCNetParams (config ce)\<rparr>"
    and "go_sized (babylon_cc L bc)" and "(sstep S K R)\<^sup>*\<^sup>* srv s"
    and "loop (core s) = L_Select" and "crashed (core s) = None" and "SigsBatchSize (config ce) \<noteq> 0"
    and "has_key K ce sk" and "accepts L bc signer"
    and "QueryStakingParams L bc (snd (emulator (core s))) = (Ok p, w1)"
    and "QueryPendingDelegations L (DelegationLimit (config ce)) w1 = (Ok (map Some ds), w2)"
    and "\<And>d q. d \<in> set ds \<Longrightarrow> decide S (BTCNetParams (config ce)) p (pk ce) sk (Some d) \<noteq> Panic q"
  shows "\<exists>s'. (sstep S K R)\<^sup>*\<^sup>* s s' \<and> loop (core s') = L_Select \<and> crashed (core s') = None \<and>
    sent (snd (emulator (core s'))) = sent (snd (emulator (core s))) @
      concat (map (batch_tx L signer (decide S (BTCNetParams (config ce)) p (pk ce) sk))
        (chunks (unat (SigsBatchSize (config ce))) (map Some (filter (needs_sig S ce) ds))))"
proof -
  note st = started_emulates [OF assms(1-5)]
  have "wired (kc ce) (snd (emulator (core srv)))" using st by (simp add: server_emulator)
  with keeping.steps_inv [OF serving_is_living [OF assms(6)]] st
  have i: "emulates L bc R ce (core s)" "wired (kc ce) (snd (emulator (core s)))" by blast+
  obtain p0 u where e: "emulator (core s) = (ce\<lparr>params := p0\<rparr>, u)"
    using i(1) by (metis emulates_def prod.collapse)
  let ?ce = "ce\<lparr>params := p0\<rparr>"
  have "reader_total w2 = reader_total u"
    using keepsD [OF QueryStakingParams_readers assms(12)] keepsD [OF QueryPendingDelegations_readers assms(13)] e by simp
  then have wd: "wired (kc ?ce) w2" using i(2) e by (simp add: wired_def)
  have "length (map Some ds) < 2 ^ 63"
    using assms(5,13) unfolding go_sized_def babylon_cc_def by fastforce
  then have len: "length ds < 2 ^ 63" by simp
  have "cc ?ce = babylon_cc L bc" "has_key K ?ce sk" "SigsBatchSize (config ?ce) \<noteq> 0"
    using i(1) assms(9,10) by (simp_all add: emulates_def has_key_def)
  from tick_run [OF assms(2) this(1) assms(11) this(2) _ _ wd this(3) len, of u p w1 S] assms(12-14) e
  obtain u' where u': "tick S K R (?ce, u) = Some (Ok (), (?ce\<lparr>params := Some p\<rparr>, u'))"
      "sent u' = sent u @ concat (map (batch_tx L signer (decide S (BTCNetParams (config ce)) p (pk ce) sk))
        (chunks (unat (SigsBatchSize (config ce))) (map Some (filter (needs_sig S ce) ds))))"
    by (auto simp: needs_sig_def [abs_def])
  have "(sstep S K R)\<^sup>*\<^sup>* s (s\<lparr>core := (core s)\<lparr>emulator := (?ce\<lparr>params := Some p\<rparr>, u')\<rparr>\<rparr>)"
    by (rule server_round [OF assms(8,7)]) (simp add: e u'(1))
  with u'(2) e assms(7,8) show ?thesis by fastforce
qed

section \<open>A concrete service\<close>

lemma sample_ready:
  assumes "start sample_config_lib sample_keyring sample_node (\<lambda>x. (Ok (), x)) sample_flags home_world = (Ok srv, w')"
  obtains ce where "srv = RunUntilShutdown_enter (NewCovenantServer (ce, w'))" "config ce = sample_options"
    "sample_like ce w'"
proof -
  obtain ce where ce: "srv = RunUntilShutdown_enter (NewCovenantServer (ce, w'))" "config ce = sample_options"
      "cc ce = babylon_cc sample_node \<lparr>cfg = BabylonConfig (config ce), btcParams = BTCNetParams (config ce)\<rparr>"
      "passphrase ce = ''secret''" "wired (kc ce) w'" "pk ce = PublicKey [5]"
    using start_run [OF assms] sample_home
    by (auto simp: sample_dirs sample_flags_def flag_defs sample_paths sample_keyring_def)
  have "has_key sample_keyring ce (PrivateKey [5])"
    using ce(4) sample_opens by (cases "kr (kc ce)") (auto simp: has_key_def sample_keyring_def)
  with ce that show thesis
    by (simp add: sample_like_def sample_options_def sample_bc_def sample_keyring_def)
qed

lemma sample_started:
  obtains srv w' ce where
    "start sample_config_lib sample_keyring sample_node (\<lambda>x. (Ok (), x)) sample_flags home_world = (Ok srv, w')"
    "srv = RunUntilShutdown_enter (NewCovenantServer (ce, w'))" "sample_like ce w'" "emulator (core srv) = (ce, w')"
    "sample_bc = \<lparr>cfg = BabylonConfig (config ce), btcParams = BTCNetParams (config ce)\<rparr>" "sent w' = []"
    "ticks (ce, w')"
proof -
  obtain srv w' where r: "start sample_config_lib sample_keyring sample_node (\<lambda>x. (Ok (), x)) sample_flags home_world = (Ok srv, w')"
    using sample_start by blast
  obtain ce where "srv = RunUntilShutdown_enter (NewCovenantServer (ce, w'))" "config ce = sample_options"
      "sample_like ce w'"
    using r by (rule sample_ready)
  moreover have "sent w' = []" using start_run [OF r] sample_dirs(6) by auto
  ultimately show thesis
    using r that by (simp add: server_emulator sample_options_def sample_bc_def)
qed

theorem covd_refines_witness:
  "\<exists>srv w' s ce ms. start sample_config_lib sample_keyring sample_node (\<lambda>x. (Ok (), x)) sample_flags home_world = (Ok srv, w') \<and>
     (sstep sample_signing sample_keyring sample_retry)\<^sup>*\<^sup>* srv s \<and> service_of (core s) = \<lparr>phase = Closed, submitted = [ms]\<rparr> \<and>
     (service_step (justified sample_node sample_bc sample_signing ce))\<^sup>*\<^sup>* unopened (service_of (core s))"
proof (rule sample_started)
  fix srv w' ce
  assume r: "start sample_config_lib sample_keyring sample_node (\<lambda>x. (Ok (), x)) sample_flags home_world = (Ok srv, w')"
    and srv: "srv = RunUntilShutdown_enter (NewCovenantServer (ce, w'))" "sample_like ce w'" "emulator (core srv) = (ce, w')"
      "sample_bc = \<lparr>cfg = BabylonConfig (config ce), btcParams = BTCNetParams (config ce)\<rparr>" "sent w' = []"
    "ticks (ce, w')"
  obtain e ms where t: "tick sample_signing sample_keyring sample_retry (ce, w') = Some (Ok (), e)" "sent (snd e) = [ms]"
    using sample_tick [OF srv(2)] srv(5) by auto
  let ?s = "serving_state V_Done True (stopped e)"
  have run: "(sstep sample_signing sample_keyring sample_retry)\<^sup>*\<^sup>* srv ?s"
    unfolding srv(1) using serving_up [OF srv(6)] serving_round [OF t(1)] serving_down by (meson rtranclp_trans)
  have "service_of (core ?s) = \<lparr>phase = Closed, submitted = [ms]\<rparr>"
    using t(2) by (simp add: service_of_def serving_state_def stopped_def fresh_def)
  with covd_refines [OF r sample_dirs(6) sample_retries srv(3,4) sample_node_sized run] r run show ?thesis by metis
qed

theorem covd_serves_witness:
  "\<exists>srv w' s. start sample_config_lib sample_keyring sample_node (\<lambda>x. (Ok (), x)) sample_flags home_world = (Ok srv, w') \<and>
     (sstep sample_signing sample_keyring sample_retry)\<^sup>*\<^sup>* srv s \<and> loop (core s) = L_Select \<and>
     sent (snd (emulator (core s))) = [[toMsgAddCovenantSigs sample_node ''bbn1signer'' sample_sigs]]"
proof (rule sample_started)
  fix srv w' ce
  assume r: "start sample_config_lib sample_keyring sample_node (\<lambda>x. (Ok (), x)) sample_flags home_world = (Ok srv, w')"
    and srv: "srv = RunUntilShutdown_enter (NewCovenantServer (ce, w'))" "sample_like ce w'" "emulator (core srv) = (ce, w')"
      "sample_bc = \<lparr>cfg = BabylonConfig (config ce), btcParams = BTCNetParams (config ce)\<rparr>" "sent w' = []"
    "ticks (ce, w')"
  let ?s = "serving_state V_Wait False (running (ce, w'))"
  have run: "(sstep sample_signing sample_keyring sample_retry)\<^sup>*\<^sup>* srv ?s" unfolding srv(1) using srv(6) by (rule serving_up)
  have at: "loop (core ?s) = L_Select" "crashed (core ?s) = None" "emulator (core ?s) = (ce, w')"
    by (simp_all add: serving_state_def running_def fresh_def)
  obtain w1 w2 where f: "has_key sample_keyring ce (PrivateKey [5])"
      "QueryStakingParams sample_node sample_bc (snd (emulator (core ?s))) = (Ok sample_params, w1)"
      "QueryPendingDelegations sample_node (DelegationLimit (config ce)) w1 = (Ok (map Some [sample_delegation]), w2)"
      "SigsBatchSize (config ce) \<noteq> 0" "needs_sig sample_signing ce sample_delegation"
      "decide sample_signing (BTCNetParams (config ce)) sample_params (pk ce) (PrivateKey [5]) (Some sample_delegation)
         = Ok (Some sample_sigs)"
    using sample_tick_facts [OF srv(2)] at(3) by (metis snd_conv)
  have quiet: "d \<in> set [sample_delegation] \<Longrightarrow> decide sample_signing (BTCNetParams (config ce)) sample_params (pk ce)
      (PrivateKey [5]) (Some d) \<noteq> Panic q" for d q
    using f(6) by simp
  have "0 < unat (SigsBatchSize (config ce))" using f(4) by (simp add: unat_gt_0)
  note tx = sample_tx [OF f(5) this f(6), of sample_node "''bbn1signer''"]
  obtain s' where "(sstep sample_signing sample_keyring sample_retry)\<^sup>*\<^sup>* ?s s'" "loop (core s') = L_Select"
      "sent (snd (emulator (core s'))) = [[toMsgAddCovenantSigs sample_node ''bbn1signer'' sample_sigs]]"
    using covd_serves [OF r sample_retries srv(3,4) sample_node_sized run at(1,2) f(4,1) sample_node_accepts f(2,3) quiet]
      at(3) srv(5) unfolding tx by auto
  with r run show ?thesis by (meson rtranclp_trans)
qed

end
