(* ===== verification/Test_Data.thy ===== *)
theory Test_Data
  imports Client_Controller
begin

text \<open>
  The test data of \<^verbatim>\<open>testutil/datagen.go\<close>. The random source and the generators of the Babylon library
  are parameters over a generator state, which every draw passes on. A failed \<^verbatim>\<open>require.NoError\<close> ends the
  test, here as a panic. The point of interest is what the generated staking parameters always are, since
  the tests of the signing run on them and on nothing else.
\<close>

section \<open>Random sources\<close>

record 'g datagen =
  RandomInt :: "int \<Rightarrow> 'g \<Rightarrow> u64 \<times> 'g"
  GenRandomByteArray :: "u64 \<Rightarrow> 'g \<Rightarrow> bytes \<times> 'g"
  GenRandomBTCKeyPair :: "'g \<Rightarrow> (PrivateKey \<times> PublicKey) res \<times> 'g"
  GenRandomBTCAddress :: "NetParams \<Rightarrow> 'g \<Rightarrow> Address res \<times> 'g"
  rand_New :: "i64 \<Rightarrow> 'g"
  rand_Int63 :: "'g \<Rightarrow> i64 \<times> 'g"
  LegacyNewDecWithPrec :: "i64 \<Rightarrow> i64 \<Rightarrow> LegacyDec"
  LegacyDec_zero :: LegacyDec

definition draw :: "('g \<Rightarrow> 'a \<times> 'g) \<Rightarrow> ('g, 'a) prog" where
  "draw f g = (case f g of (x, g') \<Rightarrow> (Ok x, g'))"

definition require_NoError :: "('w, 'a) prog \<Rightarrow> ('w, 'a) prog" where
  "require_NoError m w = (case m w of (Err e, w') \<Rightarrow> (Panic (''test failed: '' @ err_text e), w') | r \<Rightarrow> r)"

section \<open>datagen.go\<close>

definition GenRandomHexStr :: "'g datagen \<Rightarrow> u64 \<Rightarrow> ('g, string) prog" where
  "GenRandomHexStr G n =
     bindP (draw (GenRandomByteArray G n)) (\<lambda>randBytes. returnP (hex_EncodeToString randBytes))"

text \<open>The corpus of the fuzzer is the list of its seeds; the source is seeded with the time.\<close>

primrec addSeeds :: "'g datagen \<Rightarrow> nat \<Rightarrow> i64 list \<Rightarrow> 'g \<Rightarrow> i64 list" where
  "addSeeds G 0 f r = f"
| "addSeeds G (Suc n) f r = (case rand_Int63 G r of (x, r') \<Rightarrow> addSeeds G n (f @ [x]) r')"

definition AddRandomSeedsToFuzzer :: "'g datagen \<Rightarrow> i64 \<Rightarrow> u64 \<Rightarrow> i64 list \<Rightarrow> i64 list" where
  "AddRandomSeedsToFuzzer G now num f = addSeeds G (unat num) f (rand_New G now)"

definition GenValidSlashingRate :: "'g datagen \<Rightarrow> ('g, LegacyDec) prog" where
  "GenValidSlashingRate G =
     bindP (draw (RandomInt G 41)) (\<lambda>n. returnP (LegacyNewDecWithPrec G (n + 10) 2))"

primrec appendKeys :: "'g datagen \<Rightarrow> nat \<Rightarrow> PublicKey list \<Rightarrow> ('g, PublicKey list) prog" where
  "appendKeys G 0 pks = returnP pks"
| "appendKeys G (Suc n) pks =
     bindP (require_NoError (GenRandomBTCKeyPair G)) (\<lambda>(_, covPk). appendKeys G n (pks @ [covPk]))"

text \<open>\<^verbatim>\<open>make\<close> panics on a capacity that is no \<^verbatim>\<open>int\<close>; the counter of the loops is signed.\<close>

definition makeKeys :: "'g datagen \<Rightarrow> i64 \<Rightarrow> ('g, PublicKey list) prog" where
  "makeKeys G num =
     (if sint num < 0 then panicP ''makeslice: cap out of range'' else appendKeys G (nat (sint num)) [])"

definition GenRandomParams :: "'g datagen \<Rightarrow> ('g, StakingParams) prog" where
  "GenRandomParams G =
     bindP (draw (RandomInt G 5)) (\<lambda>n.
     let covThreshold = n + 1; covNum = covThreshold * 2 in
     bindP (makeKeys G covNum) (\<lambda>covenantPks.
     bindP (require_NoError (GenRandomBTCAddress G SimNetParams)) (\<lambda>slashingAddr.
     bindP (GenValidSlashingRate G) (\<lambda>rate.
     returnP
       \<lparr>ComfirmationTimeBlocks = 10, FinalizationTimeoutBlocks = 100, MinSlashingTxFeeSat = 1,
        CovenantPks = covenantPks, SlashingAddress = slashingAddr, CovenantQuorum = ucast covThreshold,
        SlashingRate = rate, MinComissionRate = LegacyDec_zero G, MinUnbondingTime = 100\<rparr>))))"

definition GenBtcPublicKeys :: "'g datagen \<Rightarrow> i64 \<Rightarrow> ('g, PublicKey list) prog" where
  "GenBtcPublicKeys G num = makeKeys G num"

section \<open>What the generators document\<close>

text \<open>
  \<^verbatim>\<open>RandomInt(r, n)\<close> is below \<open>n\<close>; a decimal of precision two is the number of hundredths, kept with
  eighteen decimal places; keys and addresses are always found.
\<close>

definition generates :: "'g datagen \<Rightarrow> bool" where
  "generates G \<longleftrightarrow>
     (\<forall>n g. 0 < n \<longrightarrow> unat (fst (RandomInt G n g)) < nat n) \<and>
     (\<forall>n. LegacyNewDecWithPrec G n 2 = LegacyDec (sint n * 10 ^ 16)) \<and>
     (\<forall>g. \<exists>kp g'. GenRandomBTCKeyPair G g = (Ok kp, g')) \<and>
     (\<forall>net g. \<exists>a g'. GenRandomBTCAddress G net g = (Ok a, g'))"

text \<open>
  Staking parameters as the chain would accept them: a quorum of at least one and at most the whole
  committee, a rate between zero and one, and a minimum unbonding time that is not below the
  finalization timeout.
\<close>

definition wf_params :: "StakingParams \<Rightarrow> bool" where
  "wf_params p \<longleftrightarrow>
     0 < unat (CovenantQuorum p) \<and> unat (CovenantQuorum p) \<le> length (CovenantPks p) \<and>
     length (CovenantPks p) < 2 ^ 32 \<and> 0 \<le> sint (MinSlashingTxFeeSat p) \<and>
     (case SlashingRate p of LegacyDec r \<Rightarrow> 0 < r \<and> r < 10 ^ 18) \<and>
     MinimumUnbondingTime p = ucast (MinUnbondingTime p)"

lemma generates_below: "generates G \<Longrightarrow> 0 < n \<Longrightarrow> unat (fst (RandomInt G n g)) < nat n"
  unfolding generates_def by blast

lemma appendKeys_run:
  assumes "generates G"
  shows "\<exists>ks g'. appendKeys G n pks g = (Ok (pks @ ks), g') \<and> length ks = n"
proof (induction n arbitrary: pks g)
  case (Suc n)
  obtain sk k g1 where k: "GenRandomBTCKeyPair G g = (Ok (sk, k), g1)"
    using assms unfolding generates_def by (metis surj_pair)
  obtain ks g' where "appendKeys G n (pks @ [k]) g1 = (Ok ((pks @ [k]) @ ks), g')" "length ks = n"
    using Suc.IH by blast
  with k show ?case
    by (intro exI [of _ "k # ks"]) (simp add: bindP_def require_NoError_def)
qed simp

lemma draw_run: "f g = (x, g') \<Longrightarrow> draw f g = (Ok x, g')"
  by (simp add: draw_def)

lemma sint_small: "unat (x :: u64) < 2 ^ 63 \<Longrightarrow> sint x = int (unat x)"
proof -
  assume "unat x < 2 ^ 63"
  then have "int (unat x) < int (2 ^ 63)" by (simp only: of_nat_less_iff)
  then have "uint x < 2 ^ 63" by simp
  moreover have "- (2 ^ 63) \<le> uint x" by (rule order_trans [of _ 0]) simp_all
  ultimately have "signed_take_bit 63 (uint x) = uint x" by (rule signed_take_bit_int_eq_self [rotated])
  then show ?thesis by (simp add: sint_uint)
qed

lemma small_words:
  fixes n :: u64
  assumes "unat n < 41"
  shows "unat (ucast (n + 1) :: u32) = unat n + 1" "nat (sint ((n + 1) * 2)) = 2 * unat n + 2" "\<not> sint ((n + 1) * 2) < 0"
    "10 \<le> sint (n + 10)" "sint (n + 10) \<le> 50"
proof -
  have u: "unat (n + 1) = unat n + 1" "unat ((n + 1) * 2) = 2 * unat n + 2" "unat (n + 10) = unat n + 10"
    using assms by (simp_all add: unat_word_ariths)
  show "unat (ucast (n + 1) :: u32) = unat n + 1" using assms u(1) by (simp add: unat_ucast_mod)
  have b: "unat ((n + 1) * 2) < 2 ^ 63" "unat (n + 10) < 2 ^ 63" unfolding u using assms by simp_all
  have m: "sint ((n + 1) * 2) = int (2 * unat n + 2)" "sint (n + 10) = int (unat n + 10)"
    using sint_small [OF b(1)] sint_small [OF b(2)] unfolding u by simp_all
  show "nat (sint ((n + 1) * 2)) = 2 * unat n + 2" "\<not> sint ((n + 1) * 2) < 0" by (simp_all only: m nat_int of_nat_less_0_iff) simp
  show "10 \<le> sint (n + 10)" "sint (n + 10) \<le> 50" unfolding m using assms by linarith+
qed

lemma GenValidSlashingRate_run:
  assumes "generates G"
  shows "\<exists>r g'. GenValidSlashingRate G g = (Ok (LegacyDec r), g') \<and> 10 ^ 17 \<le> r \<and> r \<le> 5 * 10 ^ 17"
proof -
  obtain n g' where n: "RandomInt G 41 g = (n, g')" by fastforce
  have "unat (fst (RandomInt G 41 g)) < nat 41" by (rule generates_below [OF assms]) simp
  then have "unat n < 41" by (simp add: n)
  with small_words(4,5) [of n] assms n show ?thesis
    by (simp add: GenValidSlashingRate_def bindP_def draw_def generates_def)
qed

text \<open>
  C34: The random staking parameters of the tests are always well formed, whatever the random source
  draws: the generator returns, the quorum is between one and five, the committee has twice as many
  keys, and the slashing rate is between a tenth and a half. The minimum unbonding time is 100 in every
  test, and so is the finalization timeout, so no test tells the two apart.
\<close>

theorem GenRandomParams_wf:
  assumes "generates G"
  shows "\<exists>p g' r. GenRandomParams G g = (Ok p, g') \<and> wf_params p \<and>
    1 \<le> unat (CovenantQuorum p) \<and> unat (CovenantQuorum p) \<le> 5 \<and> length (CovenantPks p) = 2 * unat (CovenantQuorum p) \<and>
    SlashingRate p = LegacyDec r \<and> 10 ^ 17 \<le> r \<and> r \<le> 5 * 10 ^ 17 \<and>
    unat (MinUnbondingTime p) = 100 \<and> unat (FinalizationTimeoutBlocks p) = 100"
proof -
  obtain n g1 where n: "RandomInt G 5 g = (n, g1)" by fastforce
  have "unat (fst (RandomInt G 5 g)) < nat 5" by (rule generates_below [OF assms]) simp
  then have small: "unat n < 5" by (simp add: n)
  have w: "unat (ucast (n + 1) :: u32) = unat n + 1" "nat (sint ((n + 1) * 2)) = 2 * unat n + 2"
      "\<not> sint ((n + 1) * 2) < 0"
    using small_words(1-3) [of n] small by (simp_all only:) simp_all
  obtain ks g2 where ks: "appendKeys G (nat (sint ((n + 1) * 2))) [] g1 = (Ok ks, g2)" "length ks = 2 * unat n + 2"
    using appendKeys_run [OF assms, of "nat (sint ((n + 1) * 2))" "[]" g1] unfolding w(2) by auto
  obtain a g3 where a: "GenRandomBTCAddress G SimNetParams g2 = (Ok a, g3)"
    using assms unfolding generates_def by blast
  obtain r g4 where r: "GenValidSlashingRate G g3 = (Ok (LegacyDec r), g4)" "10 ^ 17 \<le> r" "r \<le> 5 * 10 ^ 17"
    using GenValidSlashingRate_run [OF assms] by blast
  have "GenRandomParams G g = (Ok \<lparr>ComfirmationTimeBlocks = 10, FinalizationTimeoutBlocks = 100, MinSlashingTxFeeSat = 1,
      CovenantPks = ks, SlashingAddress = a, CovenantQuorum = ucast (n + 1), SlashingRate = LegacyDec r,
      MinComissionRate = LegacyDec_zero G, MinUnbondingTime = 100\<rparr>, g4)"
    using n ks(1) a r(1) w(3)
    by (simp add: GenRandomParams_def bindP_def draw_def Let_def makeKeys_def require_NoError_def)
  with ks(2) w(1) small r(2,3) show ?thesis
    by (simp add: wf_params_def MinimumUnbondingTime_def)
qed

text \<open>A linear congruential source.\<close>

definition sample_datagen :: "nat datagen" where
  "sample_datagen =
     \<lparr>RandomInt = (\<lambda>n g. (of_int (int g mod n), (75 * g + 74) mod 65537)),
      GenRandomByteArray = (\<lambda>n g. (replicate (unat n) (of_nat g), (75 * g + 74) mod 65537)),
      GenRandomBTCKeyPair = (\<lambda>g. (Ok (PrivateKey [of_nat g], PublicKey [of_nat g]), (75 * g + 74) mod 65537)),
      GenRandomBTCAddress = (\<lambda>_ g. (Ok (Address (show_nat g)), (75 * g + 74) mod 65537)),
      rand_New = (\<lambda>x. unat x mod 65537), rand_Int63 = (\<lambda>g. (of_nat g, (75 * g + 74) mod 65537)),
      LegacyNewDecWithPrec = (\<lambda>n prec. LegacyDec (sint n * 10 ^ nat (18 - sint prec))), LegacyDec_zero = LegacyDec 0\<rparr>"

lemma sample_generates: "generates sample_datagen"
proof -
  have "unat (of_int (int g mod n) :: u64) < nat n" if "0 < n" for g n
  proof -
    have m: "int g mod n < n" "0 \<le> int g mod n" using that by simp_all
    have "int (unat (of_int (int g mod n) :: u64)) = (int g mod n) mod 2 ^ 64"
      by (simp only: uint_nat [symmetric] uint_word_of_int) simp
    also have "\<dots> \<le> int g mod n" using m(2) by (rule zmod_le_nonneg_dividend)
    finally show ?thesis using m(1) by linarith
  qed
  then show ?thesis by (simp add: generates_def sample_datagen_def)
qed

theorem GenRandomParams_wf_witness:
  "\<exists>p g'. GenRandomParams sample_datagen 7 = (Ok p, g') \<and> wf_params p \<and> length (CovenantPks p) \<le> 10"
  using GenRandomParams_wf [OF sample_generates, of 7] by auto

end
