(* ===== verification/Node_Handler.thy ===== *)
theory Node_Handler
  imports Test_Data Commands
begin

text \<open>
  The handler of the Babylon node in the end-to-end tests (\<^verbatim>\<open>itest/babylon_node_handler.go\<close>,
  \<^verbatim>\<open>itest/utils.go\<close>): it makes a temporary directory, runs \<^verbatim>\<open>babylond testnet\<close>, starts \<^verbatim>\<open>babylond start\<close>, writes its
  process id to a file, and at the end signals it, waits for it and removes the directory. What other
  processes do is a parameter: starting, signalling and waiting may change the whole world, and a wait
  for a process that does not end does not return.
\<close>

section \<open>More of package os\<close>

text \<open>Removing a tree removes every node below its path; a missing tree is no error.\<close>

definition os_Remove :: "string \<Rightarrow> (filesys, unit) prog" where
  "os_Remove p fs =
     (case fault fs Sys_unlink p of
        Some e \<Rightarrow> (Err (Error (''remove '' @ p @ '': '' @ errno_text e)), fs)
      | None \<Rightarrow>
          (let k = fs_key fs p in
           case nodes fs k of
             None \<Rightarrow> (Err (Error (''remove '' @ p @ '': '' @ errno_text ENOENT)), fs)
           | Some DirNode \<Rightarrow>
               if \<exists>e. nodes fs (k @ [e]) \<noteq> None then (Err (Error (''remove '' @ p @ '': directory not empty'')), fs)
               else (Ok (), fs\<lparr>nodes := (nodes fs)(k := None)\<rparr>)
           | Some _ \<Rightarrow> (Ok (), fs\<lparr>nodes := (nodes fs)(k := None)\<rparr>)))"

definition under :: "string list \<Rightarrow> string list \<Rightarrow> bool" where
  "under k k' \<longleftrightarrow> take (length k) k' = k"

definition endsWithDot :: "string \<Rightarrow> bool" where
  "endsWithDot p \<longleftrightarrow> p = ''.'' \<or> drop (length p - 2) p = ''/.''"

definition os_RemoveAll :: "string \<Rightarrow> (filesys, unit) prog" where
  "os_RemoveAll p fs =
     (if p = [] then (Ok (), fs)
      else if endsWithDot p then (Err (Error (''RemoveAll '' @ p @ '': invalid argument'')), fs)
      else
        (case fault fs Sys_unlink p of
           Some e \<Rightarrow> (Err (Error (''unlinkat '' @ p @ '': '' @ errno_text e)), fs)
         | None \<Rightarrow>
             if under_file fs (fs_key fs p) then (Err (Error (''unlinkat '' @ p @ '': '' @ errno_text ENOTDIR)), fs)
             else (Ok (), fs\<lparr>nodes := (\<lambda>k. if under (fs_key fs p) k then None else nodes fs k)\<rparr>)))"

definition os_Create :: "string \<Rightarrow> (filesys, unit) prog" where
  "os_Create p = os_create (\<lambda>_. []) Sys_open p"

text \<open>Writing at the end of an open file, and closing it; what is written to a file without a name is lost.\<close>

definition file_Write :: "string \<Rightarrow> string \<Rightarrow> (filesys, unit) prog" where
  "file_Write p s fs =
     (case fault fs Sys_write p of
        Some e \<Rightarrow> (Err (Error (''write '' @ p @ '': '' @ errno_text e)), fs)
      | None \<Rightarrow>
          (Ok (),
           (case nodes fs (fs_key fs p) of
              Some (FileNode old) \<Rightarrow> fs\<lparr>nodes := (nodes fs)(fs_key fs p \<mapsto> FileNode (old @ s))\<rparr>
            | _ \<Rightarrow> fs)))"

definition file_Close :: "string \<Rightarrow> (filesys, unit) prog" where
  "file_Close p fs =
     ((case fault fs Sys_close p of Some e \<Rightarrow> Err (Error (''close '' @ p @ '': '' @ errno_text e)) | None \<Rightarrow> Ok ()), fs)"

definition os_Chmod :: "string \<Rightarrow> (filesys, unit) prog" where
  "os_Chmod p fs =
     ((case fault fs Sys_chmod p of
         Some e \<Rightarrow> Err (Error (''chmod '' @ p @ '': '' @ errno_text e))
       | None \<Rightarrow> if nodes fs (fs_key fs p) = None then Err (Error (''chmod '' @ p @ '': '' @ errno_text ENOENT)) else Ok ()), fs)"

definition os_TempDir :: "environ \<Rightarrow> string" where
  "os_TempDir env = (if getenv env ''TMPDIR'' = [] then ''/tmp'' else getenv env ''TMPDIR'')"

text \<open>
  \<^verbatim>\<open>os.MkdirTemp\<close>: the random string \<open>rnd i\<close> of the \<open>i\<close>-th attempt replaces the last star of the pattern, or is
  appended to it; after 10000 names that are taken it gives up. An error about a missing directory \<open>dir\<close> is
  that of looking it up.
\<close>

definition prefixAndSuffix :: "string \<Rightarrow> (string \<times> string) option" where
  "prefixAndSuffix pattern =
     (if CHR ''/'' \<in> set pattern then None
      else if CHR ''*'' \<in> set pattern
      then Some (rev (tl (dropWhile (\<lambda>c. c \<noteq> CHR ''*'') (rev pattern))),
                 rev (takeWhile (\<lambda>c. c \<noteq> CHR ''*'') (rev pattern)))
      else Some (pattern, []))"

definition joinPath :: "string \<Rightarrow> string \<Rightarrow> string" where
  "joinPath dir name = (if dir \<noteq> [] \<and> last dir = CHR ''/'' then dir @ name else dir @ ''/'' @ name)"

primrec mkdirTemp ::
    "(nat \<Rightarrow> string) \<Rightarrow> string \<Rightarrow> string \<times> string \<Rightarrow> nat \<Rightarrow> nat \<Rightarrow> (filesys, string) prog" where
  "mkdirTemp rnd dir ps i 0 fs =
     (Err (Error (''mkdirtemp '' @ dir @ ''/'' @ fst ps @ ''*'' @ snd ps @ '': '' @ errno_text EEXIST)), fs)"
| "mkdirTemp rnd dir ps i (Suc n) fs =
     (let name = joinPath dir (fst ps) @ rnd i @ snd ps in
      case os_Mkdir name fs of
        (None, fs') \<Rightarrow> (Ok name, fs')
      | (Some e, fs') \<Rightarrow>
          if IsExist e then mkdirTemp rnd dir ps (Suc i) n fs'
          else if IsNotExist e \<and> os_Stat fs' dir = Inl ENOENT
          then (Err (Error (''stat '' @ dir @ '': '' @ errno_text ENOENT)), fs')
          else (Err (Error (''mkdir '' @ name @ '': '' @ errno_text e)), fs'))"

definition os_MkdirTemp :: "(nat \<Rightarrow> string) \<Rightarrow> environ \<Rightarrow> string \<Rightarrow> string \<Rightarrow> (filesys, string) prog" where
  "os_MkdirTemp rnd env dir pattern =
     (case prefixAndSuffix pattern of
        None \<Rightarrow> throwP (Error (''mkdirtemp '' @ pattern @ '': pattern contains path separator''))
      | Some ps \<Rightarrow> mkdirTemp rnd (if dir = [] then os_TempDir env else dir) ps 0 10000)"

section \<open>Package os/exec\<close>

datatype os_Signal = os_Kill | os_Interrupt

text \<open>
  What other processes do. Starting one gives an error or a process id. Waiting may not return (\<open>None\<close>);
  otherwise it fails (\<open>Inl\<close>) or collects the process, whose exit may be an error. Running a command to its end
  also returns its error output.
\<close>

record 'x procs =
  proc_start :: "string list \<Rightarrow> 'x world \<Rightarrow> (error + nat) \<times> 'x world"
  proc_signal :: "nat \<Rightarrow> os_Signal \<Rightarrow> 'x world \<Rightarrow> error option \<times> 'x world"
  proc_wait :: "nat \<Rightarrow> 'x world \<Rightarrow> ((error + error option) \<times> 'x world) option"
  proc_run :: "string list \<Rightarrow> 'x world \<Rightarrow> ((error option \<times> string) \<times> 'x world) option"

definition of_err :: "error option \<Rightarrow> unit res" where
  "of_err e = (case e of None \<Rightarrow> Ok () | Some x \<Rightarrow> Err x)"

record Cmd =
  Args :: "string list"
  Process :: "nat option"
  waited :: bool

definition exec_Command :: "string list \<Rightarrow> Cmd" where
  "exec_Command args = \<lparr>Args = args, Process = None, waited = False\<rparr>"

definition cmd_Start :: "'x procs \<Rightarrow> Cmd \<Rightarrow> 'x world \<Rightarrow> (error + nat) \<times> Cmd \<times> 'x world" where
  "cmd_Start P c w =
     (if Process c \<noteq> None then (Inl (Error ''exec: already started''), c, w)
      else
        (case proc_start P (Args c) w of
           (Inl e, w') \<Rightarrow> (Inl e, c, w')
         | (Inr pid, w') \<Rightarrow> (Inr pid, c\<lparr>Process := Some pid\<rparr>, w')))"

definition process_Signal :: "'x procs \<Rightarrow> Cmd \<Rightarrow> nat \<Rightarrow> os_Signal \<Rightarrow> 'x world \<Rightarrow> error option \<times> 'x world" where
  "process_Signal P c pid sig w =
     (if waited c then (Some (Error ''os: process already finished''), w) else proc_signal P pid sig w)"

definition cmd_Wait :: "'x procs \<Rightarrow> Cmd \<Rightarrow> 'x world \<Rightarrow> (error option \<times> Cmd \<times> 'x world) option" where
  "cmd_Wait P c w =
     (case Process c of
        None \<Rightarrow> Some (Some (Error ''exec: not started''), c, w)
      | Some pid \<Rightarrow>
          if waited c then Some (Some (Error ''exec: Wait was already called''), c, w)
          else
            (case proc_wait P pid w of
               None \<Rightarrow> None
             | Some (Inl e, w') \<Rightarrow> Some (Some e, c, w')
             | Some (Inr e, w') \<Rightarrow> Some (e, c\<lparr>waited := True\<rparr>, w')))"

section \<open>itest/utils.go\<close>

definition baseDir :: "(nat \<Rightarrow> string) \<Rightarrow> string \<Rightarrow> ('x world, string) prog" where
  "baseDir rnd pattern w =
     bindP (on_files (os_MkdirTemp rnd (environment w) (os_TempDir (environment w)) pattern)) (\<lambda>tempName.
     bindP (on_files (os_Chmod tempName)) (\<lambda>_. returnP tempName)) w"

section \<open>babylonNode\<close>

record babylonNode =
  cmd :: "Cmd option"
  pidFile :: string
  dataDir :: string
  chainID_node :: string
  slashingAddr :: string
  covenantPk :: "BIP340PubKey option"

definition newBabylonNode :: "string \<Rightarrow> Cmd option \<Rightarrow> string \<Rightarrow> string \<Rightarrow> BIP340PubKey option \<Rightarrow> babylonNode" where
  "newBabylonNode dir c chain addr key =
     \<lparr>cmd = c, pidFile = [], dataDir = dir, chainID_node = chain, slashingAddr = addr, covenantPk = key\<rparr>"

definition writePid :: "string \<Rightarrow> nat \<Rightarrow> ('x world, unit) prog" where
  "writePid p pid =
     bindP (on_files (file_Write p (show_nat pid @ [CHR 0x0A]))) (\<lambda>_. on_files (file_Close p))"

definition node_start :: "'x procs \<Rightarrow> (babylonNode \<times> 'x world, unit) prog" where
  "node_start P s =
     (case s of (n, w) \<Rightarrow>
      case cmd n of
        None \<Rightarrow> (Panic nil_deref, s)
      | Some c \<Rightarrow>
     (case cmd_Start P c w of
        (Inl e, c', w') \<Rightarrow> (Err e, (n\<lparr>cmd := Some c'\<rparr>, w'))
      | (Inr pid, c', w1) \<Rightarrow>
          (let n1 = n\<lparr>cmd := Some c'\<rparr>; p = Join [dataDir n, ''config'' @ ''.pid''] in
           case on_files (os_Create p) w1 of
             (Ok _, w2) \<Rightarrow> (case writePid p pid w2 of (r, w3) \<Rightarrow> (r, (n1\<lparr>pidFile := p\<rparr>, w3)))
           | (Err e, w2) \<Rightarrow> (Err e, (n1, w2))
           | (Panic q, w2) \<Rightarrow> (Panic q, (n1, w2)))))"

text \<open>The deferred wait runs after the signal, and its error replaces that of the signal.\<close>

definition node_stop :: "'x procs \<Rightarrow> string \<Rightarrow> babylonNode \<times> 'x world \<Rightarrow> (unit res \<times> babylonNode \<times> 'x world) option" where
  "node_stop P GOOS s =
     (case s of (n, w) \<Rightarrow>
      case cmd n of
        None \<Rightarrow> Some (Ok (), n, w)
      | Some c \<Rightarrow>
     (case Process c of
        None \<Rightarrow> Some (Ok (), n, w)
      | Some pid \<Rightarrow>
     (case process_Signal P c pid (if GOOS = ''windows'' then os_Kill else os_Interrupt) w of
        (_, w1) \<Rightarrow> map_option (\<lambda>(e, c', w2). (of_err e, n\<lparr>cmd := Some c'\<rparr>, w2)) (cmd_Wait P c w1))))"

text \<open>Errors of the removals are only logged.\<close>

definition node_cleanup :: "(babylonNode \<times> 'x world, unit) prog" where
  "node_cleanup s =
     (case s of (n, w) \<Rightarrow>
      let w1 = (if pidFile n \<noteq> [] then snd (on_files (os_Remove (pidFile n)) w) else w) in
      (Ok (), (n, snd (on_files (os_RemoveAll (dataDir n)) w1))))"

definition node_shutdown :: "'x procs \<Rightarrow> string \<Rightarrow> babylonNode \<times> 'x world \<Rightarrow> (unit res \<times> babylonNode \<times> 'x world) option" where
  "node_shutdown P GOOS s =
     (case node_stop P GOOS s of
        None \<Rightarrow> None
      | Some (Ok _, s') \<Rightarrow> Some (node_cleanup s')
      | Some (Err e, s') \<Rightarrow> Some (Err e, s')
      | Some (Panic q, s') \<Rightarrow> Some (Panic q, s'))"

section \<open>BabylonNodeHandler\<close>

record BabylonNodeHandler =
  babylonNode :: babylonNode

definition testSlashingAddr :: string where
  "testSlashingAddr = ''SZtRT4BySL3o4efdGLh3k7Kny8GAnsBrSW''"

definition initTestnetArgs :: "(BIP340PubKey \<Rightarrow> string) \<Rightarrow> string \<Rightarrow> BIP340PubKey \<Rightarrow> string list" where
  "initTestnetArgs MarshalHex testDir key =
     [''babylond'', ''testnet'', ''--v=1'', ''--output-dir='' @ testDir, ''--starting-ip-address=192.168.10.2'',
      ''--keyring-backend=test'', ''--chain-id=chain-test'', ''--additional-sender-account'',
      ''--slashing-address='' @ testSlashingAddr, ''--covenant-pks='' @ MarshalHex key, ''--covenant-quorum=1'']"

text \<open>A failed check ends the test; the deferred function then removes the directory.\<close>

definition failNow :: "string \<Rightarrow> error \<Rightarrow> 'x world \<Rightarrow> BabylonNodeHandler res \<times> 'x world" where
  "failNow testDir e w = (Panic (''test failed: '' @ err_text e), snd (on_files (os_RemoveAll testDir) w))"

definition NewBabylonNodeHandler ::
    "'x procs \<Rightarrow> (nat \<Rightarrow> string) \<Rightarrow> (BIP340PubKey \<Rightarrow> string) \<Rightarrow> BIP340PubKey option \<Rightarrow> 'x world \<Rightarrow>
       (BabylonNodeHandler res \<times> 'x world) option" where
  "NewBabylonNodeHandler P rnd MarshalHex key w =
     (case require_NoError (baseDir rnd ''zBabylonTest'') w of
        (Err e, w1) \<Rightarrow> Some (Err e, w1)
      | (Panic q, w1) \<Rightarrow> Some (Panic q, w1)
      | (Ok testDir, w1) \<Rightarrow>
     (case key of
        None \<Rightarrow> Some (Panic nil_deref, w1)
      | Some bip \<Rightarrow>
     (case proc_run P (initTestnetArgs MarshalHex testDir bip) w1 of
        None \<Rightarrow> None
      | Some ((Some e, stderr), w2) \<Rightarrow>
          Some (failNow testDir e (w2\<lparr>stdout := stdout w2 @ [''init testnet failed: '' @ stderr @ '' '']\<rparr>))
      | Some ((None, stderr), w2) \<Rightarrow>
     (case on_files (os_Create (Join [testDir, ''babylon.log''])) w2 of
        (Err e, w3) \<Rightarrow> Some (failNow testDir e w3)
      | (Panic q, w3) \<Rightarrow> Some (Panic q, w3)
      | (Ok _, w3) \<Rightarrow>
          Some (Ok \<lparr>babylonNode = newBabylonNode testDir
                   (Some (exec_Command [''babylond'', ''start'', ''--home='' @ Join [testDir, ''node0'', ''babylond''],
                                        ''--log_level=debug'']))
                   ''chain-test'' testSlashingAddr key\<rparr>, w3)))))"

definition handler_Start :: "'x procs \<Rightarrow> (BabylonNodeHandler \<times> 'x world, unit) prog" where
  "handler_Start P s =
     (case s of (h, w) \<Rightarrow>
      case node_start P (babylonNode h, w) of
        (Err e, s1) \<Rightarrow> (case node_cleanup s1 of (_, (n, w')) \<Rightarrow> (Err e, (h\<lparr>babylonNode := n\<rparr>, w')))
      | (r, (n, w')) \<Rightarrow> (r, (h\<lparr>babylonNode := n\<rparr>, w')))"

definition handler_Stop :: "'x procs \<Rightarrow> string \<Rightarrow> BabylonNodeHandler \<times> 'x world \<Rightarrow>
    (unit res \<times> BabylonNodeHandler \<times> 'x world) option" where
  "handler_Stop P GOOS s =
     (case s of (h, w) \<Rightarrow>
      map_option (\<lambda>(r, n, w'). (r, h\<lparr>babylonNode := n\<rparr>, w')) (node_shutdown P GOOS (babylonNode h, w)))"

definition GetNodeDataDir :: "BabylonNodeHandler \<Rightarrow> string" where
  "GetNodeDataDir h = Join [dataDir (babylonNode h), ''node0'', ''babylond'']"

definition GetCovenantPk :: "BabylonNodeHandler \<Rightarrow> BIP340PubKey option" where
  "GetCovenantPk h = covenantPk (babylonNode h)"

section \<open>Where the data is\<close>

lemma clean_go_snoc: "x \<noteq> ''.'' \<Longrightarrow> x \<noteq> ''..'' \<Longrightarrow> clean_go r out (cs @ [x]) = clean_go r out cs @ [x]"
  by (induction r out cs rule: clean_go.induct) (auto split: list.splits)

lemma fs_key_Clean: "rooted p \<Longrightarrow> fs_key fs (Clean p) = fs_key fs p"
  by (auto simp: fs_key_def Clean_def elements_clean [OF clean_elements_go] clean_go_elements [OF clean_elements_go])

lemma fs_key_Join:
  assumes "rooted d" and "x \<noteq> []" "x \<noteq> ''.''" "x \<noteq> ''..''" "CHR ''/'' \<notin> set x"
  shows "fs_key fs (Join [d, x]) = fs_key fs d @ [x]"
proof -
  have "d \<noteq> []" "rooted (d @ CHR ''/'' # x)" using assms(1) by (auto simp: rooted_def split: list.splits)
  moreover have "elements x = [x]" using assms by (simp add: elements_def split_sep_plain)
  ultimately show ?thesis
    using assms by (simp add: Join_def fs_key_Clean) (simp add: fs_key_def elements_append clean_go_snoc)
qed

lemma fs_key_rooted: "rooted p \<Longrightarrow> fs_key fs p = fs_key fs' p"
  by (simp add: fs_key_def)

lemma under_refl [simp]: "under k k" "under k (k @ x)"
  by (simp_all add: under_def)

text \<open>Removing a file below \<open>k\<close> and then the tree at \<open>k\<close> is removing the tree.\<close>

definition without :: "string list \<Rightarrow> filesys \<Rightarrow> filesys" where
  "without k fs = fs\<lparr>nodes := (\<lambda>k'. if under k k' then None else nodes fs k')\<rparr>"

lemma os_Remove_run:
  "snd (os_Remove p fs) = fs \<or> snd (os_Remove p fs) = fs\<lparr>nodes := (nodes fs)(fs_key fs p := None)\<rparr>"
  by (auto simp: os_Remove_def Let_def split: option.splits node.splits)

lemma os_RemoveAll_run:
  assumes "p \<noteq> []" "\<not> endsWithDot p" "fault fs Sys_unlink p = None" "\<not> under_file fs (fs_key fs p)"
  shows "os_RemoveAll p fs = (Ok (), without (fs_key fs p) fs)"
  using assms by (simp add: os_RemoveAll_def without_def)

lemma removed_below:
  assumes "fs' = fs \<or> fs' = fs\<lparr>nodes := (nodes fs)(k @ [x] := None)\<rparr>"
  shows "without k fs' = without k fs" "under_file fs' k = under_file fs k"
proof -
  show "without k fs' = without k fs" using assms by (elim disjE) (simp_all add: without_def fun_eq_iff)
  have "length (take n k) \<noteq> length (k @ [x])" for n by simp
  then have "take n k \<noteq> k @ [x]" for n by metis
  with assms show "under_file fs' k = under_file fs k" by (elim disjE) (simp_all add: under_file_def)
qed

section \<open>A handler as it is made\<close>

definition fresh_node :: "babylonNode \<Rightarrow> bool" where
  "fresh_node n \<longleftrightarrow>
     (\<exists>c. cmd n = Some c \<and> Process c = None \<and> \<not> waited c) \<and> pidFile n = [] \<and>
     rooted (dataDir n) \<and> \<not> endsWithDot (dataDir n)"

definition data_key :: "BabylonNodeHandler \<Rightarrow> string list" where
  "data_key h = clean_go True [] (elements (dataDir (babylonNode h)))"

definition pid_name :: string where
  "pid_name = ''config.pid''"

lemma data_key:
  assumes "rooted (dataDir (babylonNode h))"
  shows "fs_key fs (dataDir (babylonNode h)) = data_key h"
    "fs_key fs (Join [dataDir (babylonNode h), ''config.pid'']) = data_key h @ [pid_name]"
  using assms fs_key_Join [of "dataDir (babylonNode h)" "''config.pid''" fs]
  by (simp_all add: data_key_def fs_key_def pid_name_def)

lemma removed_file:
  assumes "pidFile n = [] \<or> fs_key (files w) (pidFile n) = K @ [x]"
  obtains fs where "(if pidFile n \<noteq> [] then snd (on_files (os_Remove (pidFile n)) w) else w) = w\<lparr>files := fs\<rparr>"
    "fs = files w \<or> fs = (files w)\<lparr>nodes := (nodes (files w))(K @ [x] := None)\<rparr>"
proof (cases "pidFile n = []")
  case True
  then show thesis using that [of "files w"] by simp
next
  case False
  then show thesis
    using that [of "snd (os_Remove (pidFile n) (files w))"] os_Remove_run [of "pidFile n" "files w"] assms
    by (auto simp: on_files_def split_beta)
qed

lemma node_cleanup_run:
  assumes "rooted (dataDir n)" "\<not> endsWithDot (dataDir n)" "\<And>fs. fs_key fs (dataDir n) = K"
    and "pidFile n = [] \<or> fs_key (files w) (pidFile n) = K @ [x]"
    and "\<And>q. fault (files w) Sys_unlink q = None" "\<not> under_file (files w) K"
  shows "node_cleanup (n, w) = (Ok (), (n, w\<lparr>files := without K (files w)\<rparr>))"
proof -
  obtain fs where w1: "(if pidFile n \<noteq> [] then snd (on_files (os_Remove (pidFile n)) w) else w) = w\<lparr>files := fs\<rparr>"
    and fs: "fs = files w \<or> fs = (files w)\<lparr>nodes := (nodes (files w))(K @ [x] := None)\<rparr>"
    by (rule removed_file [OF assms(4)])
  have "dataDir n \<noteq> []" using assms(1) by (auto simp: rooted_def)
  moreover have "fault fs Sys_unlink q = None" for q using fs assms(5) by auto
  moreover have "\<not> under_file fs K" using assms(6) removed_below(2) [OF fs] by simp
  ultimately have "os_RemoveAll (dataDir n) fs = (Ok (), without K (files w))"
    using os_RemoveAll_run [of "dataDir n" fs] assms(2,3) removed_below(1) [OF fs] by simp
  then have "snd (on_files (os_RemoveAll (dataDir n)) (w\<lparr>files := fs\<rparr>)) = w\<lparr>files := without K (files w)\<rparr>"
    by (simp add: on_files_def)
  then show ?thesis by (simp only: node_cleanup_def Let_def w1 split)
qed

text \<open>A temporary directory is new, and its name extends the pattern.\<close>

lemma mkdirTemp_Ok:
  "mkdirTemp rnd dir ps i n fs = (Ok d, fs') \<Longrightarrow>
     (\<exists>j. d = joinPath dir (fst ps) @ rnd j @ snd ps) \<and> nodes fs (fs_key fs d) = None"
proof (induction n arbitrary: i)
  case (Suc n)
  let ?name = "joinPath dir (fst ps) @ rnd i @ snd ps"
  obtain r fs1 where m: "os_Mkdir ?name fs = (r, fs1)" by fastforce
  show ?case
  proof (cases r)
    case None
    with m Suc.prems have "d = ?name" by simp
    moreover have "nodes fs (fs_key fs ?name) = None"
      using m None by (auto simp: os_Mkdir_def Let_def split: option.splits if_splits)
    ultimately show ?thesis by blast
  next
    case (Some e)
    with m have "fs1 = fs" by (auto simp: os_Mkdir_def Let_def split: option.splits if_splits)
    with Some m Suc show ?thesis by (auto simp: Let_def split: if_splits)
  qed
qed simp

lemma baseDir_Ok:
  assumes "baseDir rnd ''zBabylonTest'' w = (Ok d, w1)"
  shows "\<exists>j. d = joinPath (os_TempDir (environment w)) ''zBabylonTest'' @ rnd j"
    "nodes (files w) (fs_key (files w) d) = None"
proof -
  have "os_TempDir (environment w) \<noteq> []" by (simp add: os_TempDir_def)
  then obtain fs where "mkdirTemp rnd (os_TempDir (environment w)) (''zBabylonTest'', []) 0 10000 (files w) = (Ok d, fs)"
    using assms by (auto simp: baseDir_def os_MkdirTemp_def prefixAndSuffix_def run_iffs on_files_Ok)
  from mkdirTemp_Ok [OF this] show "\<exists>j. d = joinPath (os_TempDir (environment w)) ''zBabylonTest'' @ rnd j"
    "nodes (files w) (fs_key (files w) d) = None" by simp_all
qed

lemma endsWithDot_last: "endsWithDot p \<Longrightarrow> last p = CHR ''.''"
  by (auto simp: endsWithDot_def) (metis last.simps last_drop list.distinct(1) drop_eq_Nil not_le)

lemma rooted_joinPath: "rooted dir \<Longrightarrow> rooted (joinPath dir x @ y)"
  by (cases dir) (auto simp: joinPath_def rooted_def)

lemma handler_made:
  assumes "NewBabylonNodeHandler P rnd hex key w = Some (Ok h, w1)"
    and "rooted (os_TempDir (environment w))" "\<And>j. CHR ''.'' \<notin> set (rnd j)"
  shows "fresh_node (babylonNode h)" "nodes (files w) (data_key h) = None"
proof -
  obtain d w0 where d: "baseDir rnd ''zBabylonTest'' w = (Ok d, w0)" and n: "dataDir (babylonNode h) = d"
      "pidFile (babylonNode h) = []" "\<exists>c. cmd (babylonNode h) = Some c \<and> Process c = None \<and> \<not> waited c"
    using assms(1)
    by (auto simp: NewBabylonNodeHandler_def require_NoError_def failNow_def newBabylonNode_def exec_Command_def
        split: prod.splits res.splits option.splits)
  obtain j where j: "d = joinPath (os_TempDir (environment w)) ''zBabylonTest'' @ rnd j" using baseDir_Ok(1) [OF d] by blast
  have r: "rooted d" unfolding j by (rule rooted_joinPath) (rule assms(2))
  have "last d \<noteq> CHR ''.''"
    using assms(3) [of j] by (cases "rnd j = []") (simp_all add: j joinPath_def last_append, metis last_in_set)
  then have "\<not> endsWithDot d" using endsWithDot_last by blast
  with r n show "fresh_node (babylonNode h)" by (auto simp: fresh_node_def)
  show "nodes (files w) (data_key h) = None"
    using baseDir_Ok(2) [OF d] data_key(1) [of h "files w"] r n by simp
qed

section \<open>Starting and stopping\<close>

lemma writePid_run:
  assumes "writePid p pid w = (r, w')" "nodes (files w) (fs_key (files w) p) = Some (FileNode [])"
  shows "\<exists>fs. w' = w\<lparr>files := fs\<rparr> \<and> fault fs = fault (files w) \<and> cwd fs = cwd (files w) \<and>
    (\<forall>k. k \<noteq> fs_key (files w) p \<longrightarrow> nodes fs k = nodes (files w) k) \<and>
    (r = Ok () \<longrightarrow> nodes fs (fs_key (files w) p) = Some (FileNode (show_nat pid @ [CHR 0x0A])))"
  using assms
  by (intro exI [of _ "files w'"]) (auto simp: writePid_def bindP_def on_files_def file_Write_def file_Close_def
      split: prod.splits res.splits option.splits)

text \<open>Once the process runs, only files change: the process id file, whose name is kept once it exists.\<close>

lemma node_start_run:
  assumes "fresh_node (babylonNode h)" and "cmd (babylonNode h) = Some c" "proc_start P (Args c) w = (Inr pid, w1)"
    and "node_start P (babylonNode h, w) = (r, (n, w2))"
  shows "\<exists>fs. w2 = w1\<lparr>files := fs\<rparr> \<and> fault fs = fault (files w1) \<and> cwd fs = cwd (files w1) \<and>
      (\<forall>k. k \<noteq> data_key h @ [pid_name] \<longrightarrow> nodes fs k = nodes (files w1) k) \<and>
      cmd n = Some (c\<lparr>Process := Some pid\<rparr>) \<and> dataDir n = dataDir (babylonNode h) \<and>
      (pidFile n = [] \<or> (\<forall>f. fs_key f (pidFile n) = data_key h @ [pid_name])) \<and>
      (r = Ok () \<longrightarrow> nodes fs (data_key h @ [pid_name]) = Some (FileNode (show_nat pid @ [CHR 0x0A])))"
proof -
  let ?p = "Join [dataDir (babylonNode h), ''config.pid'']"
  let ?n = "(babylonNode h)\<lparr>cmd := Some (c\<lparr>Process := Some pid\<rparr>)\<rparr>"
  have key: "fs_key f ?p = data_key h @ [pid_name]" for f
    using assms(1) by (simp add: data_key(2) fresh_node_def)
  have c: "Process c = None" "pidFile (babylonNode h) = []" using assms(1,2) by (auto simp: fresh_node_def)
  obtain r1 w0 where m: "on_files (os_Create ?p) w1 = (r1, w0)" by fastforce
  show ?thesis
  proof (cases "r1 = Ok ()")
    case True
    then obtain fs0 where w0: "w0 = w1\<lparr>files := fs0\<rparr>" "nodes fs0 = (nodes (files w1))(data_key h @ [pid_name] \<mapsto> FileNode [])"
        "fault fs0 = fault (files w1)" "cwd fs0 = cwd (files w1)"
      using m os_create_run [of "\<lambda>_. []" Sys_open ?p "files w1"] by (auto simp: os_Create_def on_files_Ok key)
    obtain r2 w3 where wr: "writePid ?p pid w0 = (r2, w3)" by fastforce
    have "r = r2" "w2 = w3" "n = ?n\<lparr>pidFile := ?p\<rparr>"
      using assms(2-4) c m True wr by (auto simp: node_start_def cmd_Start_def Let_def)
    with writePid_run [OF wr] w0 show ?thesis by (auto simp: key)
  next
    case False
    then have "w0 = w1" using m
      by (auto simp: on_files_def os_Create_def os_create_def Let_def split: prod.splits option.splits node.splits if_splits)
    moreover have "r \<noteq> Ok ()" "w2 = w0" "n = ?n"
      using assms(2-4) c m False by (auto simp: node_start_def cmd_Start_def Let_def split: res.splits)
    ultimately show ?thesis using c by (intro exI [of _ "files w1"]) simp
  qed
qed

lemma without_cong:
  assumes "fault fs = fault fs'" "cwd fs = cwd fs'" "\<And>k. k \<noteq> K @ [x] \<Longrightarrow> nodes fs k = nodes fs' k"
  shows "without K fs = without K fs'" "under_file fs K = under_file fs' K"
proof -
  have "(if under K k then None else nodes fs k) = (if under K k then None else nodes fs' k)" for k
    using assms(3) [of k] by (cases "k = K @ [x]") simp_all
  with assms(1,2) show "without K fs = without K fs'"
    by (simp add: without_def filesys.equality)
  have "length (take n K) \<noteq> length (K @ [x])" for n by simp
  then have "nodes fs (take n K) = nodes fs' (take n K)" for n using assms(3) by metis
  then show "under_file fs K = under_file fs' K" by (simp add: under_file_def)
qed

lemma handler_Stop_run:
  assumes "cmd (babylonNode h) = Some c" "Process c = Some pid" "\<not> waited c"
    and "rooted (dataDir (babylonNode h))" "\<not> endsWithDot (dataDir (babylonNode h))"
    and "pidFile (babylonNode h) = [] \<or> (\<forall>f. fs_key f (pidFile (babylonNode h)) = data_key h @ [pid_name])"
    and "proc_signal P pid (if GOOS = ''windows'' then os_Kill else os_Interrupt) v = (es, v1)"
    and "proc_wait P pid v1 = Some (Inr r, v2)" "no_faults v2" "\<not> under_file (files v2) (data_key h)"
  shows "\<exists>h'. handler_Stop P GOOS (h, v) =
    Some (of_err r, h', if r = None then v2\<lparr>files := without (data_key h) (files v2)\<rparr> else v2)"
proof -
  let ?n = "(babylonNode h)\<lparr>cmd := Some (c\<lparr>waited := True\<rparr>)\<rparr>"
  have stop: "node_stop P GOOS (babylonNode h, v) = Some (of_err r, ?n, v2)"
    using assms(1-3,7,8) by (simp add: node_stop_def process_Signal_def cmd_Wait_def)
  have "node_cleanup (?n, v2) = (Ok (), (?n, v2\<lparr>files := without (data_key h) (files v2)\<rparr>))"
    using assms(4-6,9,10) by (intro node_cleanup_run [where x = pid_name]) (auto simp: data_key(1) no_faults_def)
  with stop show ?thesis
    by (cases r) (simp_all add: handler_Stop_def node_shutdown_def of_err_def)
qed

text \<open>
  C25: The directory of a node handler did not exist before the handler was made. Once the node has
  started, the file \<^verbatim>\<open>config.pid\<close> in it holds the process id. From then on, whatever the node did to
  the world, stopping it returns what waiting for the process returned, even if it could not be
  signalled: after a clean exit the directory and all that is in it is gone and nothing else changed,
  and after any other exit nothing is removed.
\<close>

theorem node_handler_round:
  assumes "NewBabylonNodeHandler P rnd hex key w = Some (Ok h, w1)"
    and "rooted (os_TempDir (environment w))" "\<And>j. CHR ''.'' \<notin> set (rnd j)"
    and "handler_Start P (h, w') = (Ok (), (h1, w2))"
  shows "nodes (files w) (data_key h) = None \<and>
    (\<exists>pid. nodes (files w2) (data_key h @ [''config.pid'']) = Some (FileNode (show_nat pid @ [CHR 0x0A])) \<and>
       (\<forall>GOOS v es v1 r v2.
          proc_signal P pid (if GOOS = ''windows'' then os_Kill else os_Interrupt) v = (es, v1) \<and>
          proc_wait P pid v1 = Some (Inr r, v2) \<and> no_faults v2 \<and> \<not> under_file (files v2) (data_key h) \<longrightarrow>
          (\<exists>h2. handler_Stop P GOOS (h1, v) =
             Some (of_err r, h2, if r = None then v2\<lparr>files := without (data_key h) (files v2)\<rparr> else v2))))"
proof -
  note fresh = handler_made [OF assms(1-3)]
  obtain c where c: "cmd (babylonNode h) = Some c" "Process c = None" "\<not> waited c" using fresh(1) by (auto simp: fresh_node_def)
  obtain n where st: "node_start P (babylonNode h, w') = (Ok (), (n, w2))" and n: "h1 = h\<lparr>babylonNode := n\<rparr>"
    using assms(4) by (auto simp: handler_Start_def split: prod.splits res.splits)
  obtain pid w3 where pid: "proc_start P (Args c) w' = (Inr pid, w3)"
    using st c by (auto simp: node_start_def cmd_Start_def split: prod.splits sum.splits)
  have key: "data_key h1 = data_key h" "dataDir n = dataDir (babylonNode h)" "cmd n = Some (c\<lparr>Process := Some pid\<rparr>)"
      "pidFile n = [] \<or> (\<forall>f. fs_key f (pidFile n) = data_key h @ [pid_name])"
      "nodes (files w2) (data_key h @ [''config.pid'']) = Some (FileNode (show_nat pid @ [CHR 0x0A]))"
    using node_start_run [OF fresh(1) c(1) pid st] by (auto simp: n data_key_def pid_name_def)
  have "\<exists>h2. handler_Stop P GOOS (h1, v) =
      Some (of_err r, h2, if r = None then v2\<lparr>files := without (data_key h) (files v2)\<rparr> else v2)"
    if "proc_signal P pid (if GOOS = ''windows'' then os_Kill else os_Interrupt) v = (es, v1)"
      "proc_wait P pid v1 = Some (Inr r, v2)" "no_faults v2" "\<not> under_file (files v2) (data_key h)" for GOOS v es v1 r v2
    using handler_Stop_run [of h1 "c\<lparr>Process := Some pid\<rparr>", OF _ _ _ _ _ _ that(1-3)] that(4) key c fresh(1)
    by (simp add: n fresh_node_def cong: if_cong)
  with fresh(2) key(5) show ?thesis by blast
qed

definition sample_procs :: "'x procs" where
  "sample_procs = \<lparr>proc_start = (\<lambda>_ w. (Inr 42, w)), proc_signal = (\<lambda>_ _ w. (None, w)),
     proc_wait = (\<lambda>_ w. Some (Inr None, w)), proc_run = (\<lambda>_ w. Some ((None, []), w))\<rparr>"

definition tmp_world :: "unit world" where
  "tmp_world = sample_world\<lparr>files := \<lparr>nodes = [[] \<mapsto> DirNode, [''tmp''] \<mapsto> DirNode], cwd = [], fault = (\<lambda>_ _. None)\<rparr>\<rparr>"

definition sample_handler :: "BIP340PubKey \<Rightarrow> BabylonNodeHandler" where
  "sample_handler bip = \<lparr>babylonNode = newBabylonNode ''/tmp/zBabylonTest1''
     (Some (exec_Command [''babylond'', ''start'', ''--home=/tmp/zBabylonTest1/node0/babylond'', ''--log_level=debug'']))
     ''chain-test'' testSlashingAddr (Some bip)\<rparr>"

lemma sample_made:
  "\<exists>w1. NewBabylonNodeHandler sample_procs (\<lambda>_. ''1'') (\<lambda>_. []) (Some bip) tmp_world = Some (Ok (sample_handler bip), w1) \<and>
     nodes (files w1) = (nodes (files tmp_world))([''tmp'', ''zBabylonTest1''] \<mapsto> DirNode,
       [''tmp'', ''zBabylonTest1'', ''babylon.log''] \<mapsto> FileNode []) \<and> no_faults w1"
proof -
  have k: "fs_key fs ''/tmp/zBabylonTest1'' = [''tmp'', ''zBabylonTest1'']"
    "fs_key fs ''/tmp/zBabylonTest1/babylon.log'' = [''tmp'', ''zBabylonTest1'', ''babylon.log'']" for fs
    by (simp_all add: fs_key_def elements_def rooted_def)
  have j: "Join [''/tmp/zBabylonTest1'', ''babylon.log''] = ''/tmp/zBabylonTest1/babylon.log''"
    "Join [''/tmp/zBabylonTest1'', ''node0'', ''babylond''] = ''/tmp/zBabylonTest1/node0/babylond''"
    by code_simp+
  have "mkdirTemp (\<lambda>_. ''1'') ''/tmp'' (''zBabylonTest'', []) 0 (Suc 9999) (files tmp_world) =
      (Ok ''/tmp/zBabylonTest1'', (files tmp_world)\<lparr>nodes := (nodes (files tmp_world))([''tmp'', ''zBabylonTest1''] \<mapsto> DirNode)\<rparr>)"
    unfolding mkdirTemp.simps(2) by (simp add: joinPath_def os_Mkdir_def k tmp_world_def)
  then have "baseDir (\<lambda>_. ''1'') ''zBabylonTest'' tmp_world = (Ok ''/tmp/zBabylonTest1'',
      tmp_world\<lparr>files := (files tmp_world)\<lparr>nodes := (nodes (files tmp_world))([''tmp'', ''zBabylonTest1''] \<mapsto> DirNode)\<rparr>\<rparr>)"
    by (simp add: baseDir_def os_MkdirTemp_def prefixAndSuffix_def os_TempDir_def tmp_world_def sample_world_def
        sample_environ_def bindP_def returnP_def on_files_def os_Chmod_def k)
  then show ?thesis
    by (simp add: NewBabylonNodeHandler_def require_NoError_def sample_procs_def on_files_def os_Create_def os_create_def j k
        tmp_world_def sample_handler_def no_faults_def)
qed

lemma sample_runs:
  assumes "nodes (files w1) [''tmp'', ''zBabylonTest1''] = Some DirNode" "no_faults w1"
    "nodes (files w1) [''tmp'', ''zBabylonTest1'', ''config.pid''] = None"
  shows "\<exists>h1 fs. handler_Start sample_procs (sample_handler bip, w1) = (Ok (), (h1, w1\<lparr>files := fs\<rparr>)) \<and>
    fault fs = fault (files w1) \<and> (\<forall>k. length k \<le> 2 \<longrightarrow> nodes fs k = nodes (files w1) k)"
proof -
  have k: "fs_key fs ''/tmp/zBabylonTest1/config.pid'' = [''tmp'', ''zBabylonTest1'', ''config.pid'']" for fs
    by (simp add: fs_key_def elements_def rooted_def)
  have j: "Join [''/tmp/zBabylonTest1'', ''config.pid''] = ''/tmp/zBabylonTest1/config.pid''" by code_simp
  show ?thesis
    using assms
    by (auto simp: handler_Start_def node_start_def sample_handler_def newBabylonNode_def exec_Command_def cmd_Start_def
        sample_procs_def on_files_def os_Create_def os_create_def writePid_def bindP_def file_Write_def file_Close_def
        j k no_faults_def Let_def
        intro!: exI [of _ "(files w1)\<lparr>nodes := (nodes (files w1))([''tmp'', ''zBabylonTest1'', ''config.pid''] \<mapsto>
          FileNode (show_nat 42 @ [CHR 0x0A]))\<rparr>"])
qed

theorem node_handler_round_witness:
  "\<exists>w1 h1 w2 h2 w3. NewBabylonNodeHandler sample_procs (\<lambda>_. ''1'') (\<lambda>_. []) (Some (BIP340PubKey [])) tmp_world =
       Some (Ok (sample_handler (BIP340PubKey [])), w1) \<and>
     handler_Start sample_procs (sample_handler (BIP340PubKey []), w1) = (Ok (), (h1, w2)) \<and>
     handler_Stop sample_procs ''linux'' (h1, w2) = Some (Ok (), h2, w3) \<and>
     nodes (files w3) [''tmp'', ''zBabylonTest1'', ''config.pid''] = None \<and> nodes (files w3) [''tmp''] = Some DirNode"
proof -
  let ?h = "sample_handler (BIP340PubKey [])"
  obtain w1 where w1: "NewBabylonNodeHandler sample_procs (\<lambda>_. ''1'') (\<lambda>_. []) (Some (BIP340PubKey [])) tmp_world =
       Some (Ok ?h, w1)" "nodes (files w1) = (nodes (files tmp_world))([''tmp'', ''zBabylonTest1''] \<mapsto> DirNode,
       [''tmp'', ''zBabylonTest1'', ''babylon.log''] \<mapsto> FileNode [])" "no_faults w1"
    using sample_made by blast
  obtain h1 fs where st: "handler_Start sample_procs (?h, w1) = (Ok (), (h1, w1\<lparr>files := fs\<rparr>))"
      "fault fs = fault (files w1)" "\<And>k. length k \<le> 2 \<Longrightarrow> nodes fs k = nodes (files w1) k"
    using sample_runs [of w1 "BIP340PubKey []"] w1(2,3) by (auto simp: tmp_world_def)
  have d: "data_key ?h = [''tmp'', ''zBabylonTest1'']"
    by (simp add: data_key_def sample_handler_def newBabylonNode_def elements_def)
  have u: "no_faults (w1\<lparr>files := fs\<rparr>)" "\<not> under_file fs [''tmp'', ''zBabylonTest1'']"
    using st(2,3) w1(2,3) by (simp_all add: no_faults_def under_file_def is_file_def tmp_world_def upt_rec)
  have "rooted (os_TempDir (environment tmp_world))"
    by (simp add: tmp_world_def sample_world_def sample_environ_def os_TempDir_def rooted_def)
  then obtain pid where
    "\<forall>GOOS (v :: unit world) es v1 r v2.
       proc_signal sample_procs pid (if GOOS = ''windows'' then os_Kill else os_Interrupt) v = (es, v1) \<and>
       proc_wait sample_procs pid v1 = Some (Inr r, v2) \<and> no_faults v2 \<and> \<not> under_file (files v2) (data_key ?h) \<longrightarrow>
       (\<exists>h2. handler_Stop sample_procs GOOS (h1, v) =
         Some (of_err r, h2, if r = None then v2\<lparr>files := without (data_key ?h) (files v2)\<rparr> else v2))"
    using node_handler_round [OF w1(1) _ _ st(1)] by auto
  from this [rule_format, of "''linux''" "w1\<lparr>files := fs\<rparr>" None "w1\<lparr>files := fs\<rparr>" None "w1\<lparr>files := fs\<rparr>"] u
  obtain h2 where "handler_Stop sample_procs ''linux'' (h1, w1\<lparr>files := fs\<rparr>) =
      Some (Ok (), h2, w1\<lparr>files := without [''tmp'', ''zBabylonTest1''] fs\<rparr>)"
    by (auto simp: sample_procs_def d of_err_def)
  moreover have "nodes (files (w1\<lparr>files := without [''tmp'', ''zBabylonTest1''] fs\<rparr>)) [''tmp'', ''zBabylonTest1'', ''config.pid''] = None"
    "nodes (files (w1\<lparr>files := without [''tmp'', ''zBabylonTest1''] fs\<rparr>)) [''tmp''] = Some DirNode"
    using st(3) [of "[''tmp'']"] w1(2) by (simp_all add: without_def under_def tmp_world_def)
  ultimately show ?thesis using w1(1) st(1) by blast
qed

text \<open>After the process is started, the result is that of making the process id file.\<close>

lemma node_start_error:
  assumes "cmd n = Some c" "Process c = None" "proc_start P (Args c) w = (Inr pid, w1)"
    "node_start P (n, w) = (r, s)"
  shows "fst (bindP (on_files (os_Create (Join [dataDir n, ''config.pid'']))) (\<lambda>_.
    writePid (Join [dataDir n, ''config.pid'']) pid) w1) = r"
  using assms by (auto simp: node_start_def cmd_Start_def bindP_def Let_def split: prod.splits res.splits)

text \<open>
  C26: When starting a new handler fails, the error that comes back is that of the step that failed: of
  starting the process, or of creating, writing or closing the process id file. If files can be removed,
  the directory of the handler is then gone, and nothing outside it is touched. If it failed after the
  process was started, the process is neither signalled nor waited for: it keeps running, on data that
  has been removed, and the handler still holds it.
\<close>

theorem node_start_failure:
  assumes "NewBabylonNodeHandler P rnd hex key w = Some (Ok h, w1)"
    and "rooted (os_TempDir (environment w))" "\<And>j. CHR ''.'' \<notin> set (rnd j)"
    and "cmd (babylonNode h) = Some c" "proc_start P (Args c) v = (r, v1)"
    and "handler_Start P (h, v) = (Err e, (h1, v2))"
    and "\<And>q. fault (files v1) Sys_unlink q = None" "\<not> under_file (files v1) (data_key h)"
  shows "v2 = v1\<lparr>files := without (data_key h) (files v1)\<rparr> \<and>
    (case r of
       Inl err \<Rightarrow> e = err \<and> cmd (babylonNode h1) = Some c
     | Inr pid \<Rightarrow> cmd (babylonNode h1) = Some (c\<lparr>Process := Some pid\<rparr>) \<and>
         (let p = Join [dataDir (babylonNode h), ''config.pid''] in
          fst (bindP (on_files (os_Create p)) (\<lambda>_.
               bindP (on_files (file_Write p (show_nat pid @ [CHR 0x0A]))) (\<lambda>_. on_files (file_Close p))) v1) = Err e))"
proof -
  note fresh = handler_made(1) [OF assms(1-3)]
  obtain r0 n w0 where st: "node_start P (babylonNode h, v) = (r0, (n, w0))" by (metis prod.collapse)
  have c: "Process c = None" using fresh assms(4) by (auto simp: fresh_node_def)
  have res: "r0 = Err e" "h1 = h\<lparr>babylonNode := n\<rparr>" "v2 = snd (snd (node_cleanup (n, w0)))"
    using assms(6) st by (auto simp: handler_Start_def node_cleanup_def Let_def split: res.splits)
  have "\<exists>fs. w0 = v1\<lparr>files := fs\<rparr> \<and> fault fs = fault (files v1) \<and> cwd fs = cwd (files v1) \<and>
      (\<forall>k. k \<noteq> data_key h @ [pid_name] \<longrightarrow> nodes fs k = nodes (files v1) k) \<and> dataDir n = dataDir (babylonNode h) \<and>
      (pidFile n = [] \<or> (\<forall>f. fs_key f (pidFile n) = data_key h @ [pid_name])) \<and>
      (case r of Inl err \<Rightarrow> e = err \<and> cmd n = Some c | Inr pid \<Rightarrow> cmd n = Some (c\<lparr>Process := Some pid\<rparr>))"
  proof (cases r)
    case (Inl err)
    then have "r0 = Err err" "n = (babylonNode h)\<lparr>cmd := Some c\<rparr>" "w0 = v1"
      using st assms(4,5) c by (auto simp: node_start_def cmd_Start_def)
    with Inl res(1) fresh show ?thesis by (intro exI [of _ "files v1"]) (simp add: fresh_node_def)
  next
    case (Inr pid)
    from node_start_run [OF fresh assms(4,5) [unfolded Inr] st] Inr show ?thesis by auto
  qed
  then obtain fs where fs: "w0 = v1\<lparr>files := fs\<rparr>" "fault fs = fault (files v1)" "cwd fs = cwd (files v1)"
      "\<And>k. k \<noteq> data_key h @ [pid_name] \<Longrightarrow> nodes fs k = nodes (files v1) k"
    and n: "dataDir n = dataDir (babylonNode h)"
      "pidFile n = [] \<or> (\<forall>f. fs_key f (pidFile n) = data_key h @ [pid_name])"
      "case r of Inl err \<Rightarrow> e = err \<and> cmd n = Some c | Inr pid \<Rightarrow> cmd n = Some (c\<lparr>Process := Some pid\<rparr>)"
    by blast
  have "node_cleanup (n, w0) = (Ok (), (n, w0\<lparr>files := without (data_key h) (files w0)\<rparr>))"
    using fresh n(1,2) assms(7,8) fs(1,2) without_cong(2) [OF fs(2-4)]
    by (intro node_cleanup_run [where x = pid_name]) (auto simp: data_key(1) fresh_node_def)
  moreover have "fst (bindP (on_files (os_Create (Join [dataDir (babylonNode h), ''config.pid'']))) (\<lambda>_.
      writePid (Join [dataDir (babylonNode h), ''config.pid'']) pid) v1) = Err e" if "r = Inr pid" for pid
    using node_start_error [OF assms(4) c] assms(5) st res(1) that by simp
  ultimately show ?thesis
    using res fs(1) n(3) without_cong(1) [OF fs(2-4)] by (cases r) (simp_all add: writePid_def Let_def)
qed

text \<open>A process that starts although its process id file cannot be opened.\<close>

definition faulty :: "'x world \<Rightarrow> 'x world" where
  "faulty w = w\<lparr>files := (files w)\<lparr>fault := (\<lambda>call p. if call = Sys_open then Some EACCES else None)\<rparr>\<rparr>"

theorem node_start_failure_witness:
  "\<exists>w1 e h1 v2 c. NewBabylonNodeHandler sample_procs (\<lambda>_. ''1'') (\<lambda>_. []) (Some (BIP340PubKey [])) tmp_world =
       Some (Ok (sample_handler (BIP340PubKey [])), w1) \<and>
     handler_Start sample_procs (sample_handler (BIP340PubKey []), faulty w1) = (Err e, (h1, v2)) \<and>
     nodes (files v2) [''tmp'', ''zBabylonTest1''] = None \<and> cmd (babylonNode h1) = Some c \<and> Process c = Some 42"
proof -
  let ?h = "sample_handler (BIP340PubKey [])"
  obtain w1 where w1: "NewBabylonNodeHandler sample_procs (\<lambda>_. ''1'') (\<lambda>_. []) (Some (BIP340PubKey [])) tmp_world =
       Some (Ok ?h, w1)" "nodes (files w1) = (nodes (files tmp_world))([''tmp'', ''zBabylonTest1''] \<mapsto> DirNode,
       [''tmp'', ''zBabylonTest1'', ''babylon.log''] \<mapsto> FileNode [])"
    using sample_made by blast
  obtain c where c: "cmd (babylonNode ?h) = Some c" by (simp add: sample_handler_def newBabylonNode_def)
  have "\<exists>e s. handler_Start sample_procs (?h, faulty w1) = (Err e, s)"
    by (simp add: handler_Start_def node_start_def sample_handler_def newBabylonNode_def exec_Command_def cmd_Start_def
        sample_procs_def on_files_def os_Create_def os_create_def faulty_def Let_def split_beta)
  then obtain e h1 v2 where st: "handler_Start sample_procs (?h, faulty w1) = (Err e, (h1, v2))" by auto
  have d: "data_key ?h = [''tmp'', ''zBabylonTest1'']"
    by (simp add: data_key_def sample_handler_def newBabylonNode_def elements_def)
  have "rooted (os_TempDir (environment tmp_world))" "proc_start sample_procs (Args c) (faulty w1) = (Inr 42, faulty w1)"
      "\<not> under_file (files (faulty w1)) (data_key ?h)" "fault (files (faulty w1)) Sys_unlink q = None" for q
    using w1(2) by (simp_all add: tmp_world_def sample_world_def sample_environ_def os_TempDir_def rooted_def sample_procs_def
        d faulty_def under_file_def is_file_def upt_rec)
  from node_start_failure [OF w1(1) this(1) _ c this(2) st this(4,3)]
  have "v2 = (faulty w1)\<lparr>files := without (data_key ?h) (files (faulty w1))\<rparr>"
      "cmd (babylonNode h1) = Some (c\<lparr>Process := Some 42\<rparr>)" by simp_all
  then have "nodes (files v2) [''tmp'', ''zBabylonTest1''] = None \<and>
      cmd (babylonNode h1) = Some (c\<lparr>Process := Some 42\<rparr>) \<and> Process (c\<lparr>Process := Some 42\<rparr>) = Some 42"
    by (simp add: without_def d)
  with w1(1) st show ?thesis by blast
qed

end
