(* ===== verification/Spec2Isabelle.thy ===== *)
theory Spec2Isabelle
  imports Service_Spec Node_Handler
begin

text \<open>
  A verification development for \<^verbatim>\<open>covd\<close>, the covenant emulator: the daemon of a member of the Babylon
  covenant committee. It polls a Babylon node for pending Bitcoin delegations, checks the transactions
  of each one, and sends signatures on its slashing, unbonding and unbonding-slashing transactions.

  \<^bold>\<open>Parts and theories\<close>, in the order of their imports (paths are below \<^verbatim>\<open>src/\<close>):

  \<^item> \<open>Prelude\<close>: machine integers, errors with wrapping, results (\<open>Ok\<close>, \<open>Err\<close>, \<open>Panic\<close>), state-passing
    programs with their inversion rules (\<open>run_iffs\<close>), and \<open>keeps f m\<close>, that a program leaves a part of its
    state alone, with its introduction rules.
  \<^item> \<open>Staking_Types\<close>: package \<^verbatim>\<open>types\<close>. The delegation records, the quorum tests and the staking time.
  \<^item> \<open>Paths\<close>, \<open>File_System\<close>: what \<^verbatim>\<open>util/path.go\<close> uses of \<^verbatim>\<open>path/filepath\<close> and \<^verbatim>\<open>os\<close>, and its three functions.
  \<^item> \<open>World\<close>: the state the program acts on: its string readers, the trace of its calls to the node, the
    disk, the environment, its standard output, and the state \<open>ext\<close> of all the libraries, to which the files
    of a keyring backend belong. \<open>sent\<close> lists the transactions handed to the node.
  \<^item> \<open>Keyring\<close>: packages \<^verbatim>\<open>keyring\<close> and \<^verbatim>\<open>codec\<close>, and \<^verbatim>\<open>CreateCovenantKey\<close>. The passphrase travels through a shared
    reader that is reset before each use; \<open>wired\<close> says that controller and keyring share it.
  \<^item> \<open>Config\<close>, \<open>Logging\<close>: packages \<^verbatim>\<open>config\<close> and \<^verbatim>\<open>log\<close>.
  \<^item> \<open>Client_Controller\<close>: package \<^verbatim>\<open>clientcontroller\<close>. Every method of the Babylon controller, and the locale
    \<open>client_controller\<close> of the laws the emulator relies on, interpreted on it as \<open>babylon\<close>.
  \<^item> \<open>Signing\<close>: \<^verbatim>\<open>covenant/covenant.go\<close> up to \<^verbatim>\<open>getPrivKey\<close>. \<open>signDelegation\<close> is the body of the loop of
    \<^verbatim>\<open>AddCovenantSignatures\<close>, with one definition per numbered step of the source; \<open>decide\<close> is its
    specification, a pure function of the delegation, the parameters and the key.
  \<^item> \<open>Emulator\<close>: one round of the submission loop (\<open>tick\<close>): \<^verbatim>\<open>UpdateParams\<close>, \<^verbatim>\<open>removeAlreadySigned\<close>,
    \<^verbatim>\<open>delegationsToBatches\<close> and the submission of the batches.
  \<^item> \<open>Lifecycle\<close>: \<^verbatim>\<open>Start\<close>, \<^verbatim>\<open>Stop\<close> and the goroutine of the loop, as small steps that interleave freely over
    the two \<^verbatim>\<open>sync.Once\<close>, the wait group and the channel \<^verbatim>\<open>quit\<close> (\<open>lstep\<close>), with the panic of \<^verbatim>\<open>time.NewTicker\<close> for
    an interval that is not positive; and the locales \<open>inductive_invariant\<close> and \<open>traceback\<close> on which the
    properties of runs rest.
  \<^item> \<open>Server\<close>: \<^verbatim>\<open>covenant/service/server.go\<close>. Any number of callers of \<^verbatim>\<open>RunUntilShutdown\<close>, the signal, and the
    life cycle underneath (\<open>sstep\<close>).
  \<^item> \<open>Commands\<close>: \<^verbatim>\<open>cmd/covd\<close>. The commands \<^verbatim>\<open>init\<close>, \<^verbatim>\<open>create-key\<close>, \<^verbatim>\<open>start\<close>, and \<^verbatim>\<open>main\<close>.
  \<^item> \<open>Service_Spec\<close>: what \<^verbatim>\<open>covd start\<close> promises, as a service that opens once, submits justified
    transactions while it is open and closes once (\<open>service_step\<close>), and the simulation of it by the steps of
    the daemon (locale \<open>simulation\<close>, interpreted as \<open>emulating\<close>).
  \<^item> \<open>Test_Data\<close>: \<^verbatim>\<open>testutil/datagen.go\<close>, the random parameters and keys of the tests.
  \<^item> \<open>Node_Handler\<close>: \<^verbatim>\<open>itest/babylon_node_handler.go\<close> and \<^verbatim>\<open>itest/utils.go\<close>, which run a Babylon node as a
    process in a temporary directory, over more of \<^verbatim>\<open>os\<close> and the part of \<^verbatim>\<open>os/exec\<close> they use.

  \<^bold>\<open>What is shown.\<close> For the signing handler: it sends nothing or one transaction whose messages answer
  approved delegations one to one; it refines the decision function; a batch that can be signed is
  signed and sent; and when it panics. For a round: what it sends, exactly, when the chain answers, and
  what it never sends, whatever happens. For the life cycle: the wait group and the channel are used
  soundly in every interleaving, with a positive query interval \<^verbatim>\<open>Stop\<close> can always return, and after it
  nothing is sent; with any other interval the loop crashes the process before its first round. For the server: it
  runs once and stops what it started. For the commands: \<^verbatim>\<open>init\<close> destroys nothing, its configuration
  loads, \<^verbatim>\<open>create-key\<close> saves what \<^verbatim>\<open>start\<close> needs. This theory joins them: the three commands fit together,
  and from \<^verbatim>\<open>start\<close> on every transaction ever sent goes back to a round of the same run that was told of the
  delegations it is for and found them unsigned and approved. \<open>Service_Spec\<close> adds that the daemon
  implements the service (every reachable state matches one of the specification) and that a daemon
  that waits for its ticker can always do a full round when its node answers. For the test support: the
  random parameters are well formed, a node handler removes what it made, on a clean exit, and nothing
  else, and what a failed start leaves behind. Some theorems record what the code does
  where its comments or its users may expect otherwise: the quorum test and the slashing signatures,
  a batch dropped for one delegation, the timelock modulo 65536, batches of size zero, a query interval
  that is not positive, the tilde, the gRPC address, the log level \<^verbatim>\<open>trace\<close>.

  \<^bold>\<open>Parameters.\<close> Libraries are arguments: \<open>keyring_lib\<close> (Cosmos keyring, BIP39, secp256k1), \<open>config_lib\<close>
  (go-flags, defaults of the Babylon client), \<open>bbn_lib\<close> (the Babylon RPC client and types), \<open>signing_lib\<close>
  (btcstaking and adaptor signatures), \<open>retrier\<close> (\<^verbatim>\<open>retry.Do\<close>), the flags and \<^verbatim>\<open>signal.Intercept\<close>. They may return
  any value, fail or panic, and change \<open>ext\<close> at will. The tests add \<open>datagen\<close> (the random source and Babylon's
  generators) and \<open>procs\<close> (what other processes do, to the whole world). Hypotheses on them are named and state what they
  document: \<open>retries\<close>, \<open>accepts\<close>, \<open>opens\<close>, \<open>has_key\<close>, \<open>remembers\<close>, \<open>serves\<close>, \<open>quiet\<close>, \<open>go_sized\<close> (a Go slice has fewer
  than \<open>2 ^ 63\<close> elements), \<open>ini_faithful\<close>, \<open>generates\<close>; each has a concrete instance in a witness.

  \<^bold>\<open>Loops and bounds.\<close> The batching loop and the pagination loop may run for ever and are partial functions
  into \<open>option\<close>, with theorems on when they return; a wait for a process that never ends is \<open>None\<close> as well.
  There is no fuel; the bound of 10000 attempts at a temporary name is that of \<^verbatim>\<open>os.MkdirTemp\<close>. Lengths and indices are 64-bit
  words where the source converts them, the quorum 32-bit, the timelock 16-bit, the server's counter
  32-bit.

  \<^bold>\<open>Not modelled.\<close> Two names of one file, that is, symbolic links with a target (\<open>File_System\<close> says which
  links there are). Log messages and what zap does with them, the period of the ticker (it may fire at any
  time), the waiting time between retries. \<^verbatim>\<open>testutil/utils.go\<close> and \<^verbatim>\<open>testutil/mocks\<close>: they record the
  expectations of a mock in \<^verbatim>\<open>gomock\<close> and have no behaviour of their own. The unit and end-to-end tests with
  \<^verbatim>\<open>itest/test_manager.go\<close>: they drive the program and a Babylon node and assert. \<^verbatim>\<open>tools/tools.go\<close>: no code.
\<close>

section \<open>The commands together\<close>

text \<open>
  C8: Setting up and starting fit together: after \<^verbatim>\<open>covd init\<close> and then \<^verbatim>\<open>covd create-key\<close> on the home that
  \<^verbatim>\<open>init\<close> expanded, an emulator that \<^verbatim>\<open>covd start\<close> creates for that home runs the default configuration,
  looks for the key under the name it was created with, in the directory and the backend where
  \<^verbatim>\<open>create-key\<close> stored it (for plain texts, on a disk without faults). The chain identifier is still the
  default one, whatever \<^verbatim>\<open>create-key\<close> was given.
\<close>

theorem setup_then_start:
  assumes "initHome CL c w = (Ok (), w1)" and "expandHome (environment w) (cli_String c homeFlag) = Ok home"
    and "createKey CL K L MarshalHex k w1 = (Ok (), w2)" and "cli_String k homeFlag = home"
    and "start CL K L Intercept ctx w2 = (Ok srv, w3)"
    and "expandHome (environment w2) (cli_String ctx homeFlag) = Ok home"
    and "no_faults w" and "ini_faithful CL" and "DefaultConfigWithHomePath CL home = Ok conf" and "ini_plain conf"
    and "plain (cli_String k keyNameFlag)" and "plain (cli_String k keyringBackendFlag)"
  shows "\<exists>ce. srv = RunUntilShutdown_enter (NewCovenantServer (ce, w3)) \<and>
    config ce = conf\<lparr>BabylonConfig := (BabylonConfig conf)\<lparr>Key := cli_String k keyNameFlag,
      KeyringBackend := cli_String k keyringBackendFlag\<rparr>\<rparr> \<and>
    fpName (kc ce) = cli_String k keyNameFlag \<and> KeyDirectory (BabylonConfig (config ce)) = home \<and>
    ChainID_cfg (BabylonConfig (config ce)) = ChainID_cfg (DefaultBBNConfig CL) \<and> wired (kc ce) w3 \<and>
    sent w3 = sent w2"
proof -
  let ?conf = "conf\<lparr>BabylonConfig := (BabylonConfig conf)\<lparr>Key := cli_String k keyNameFlag,
      KeyringBackend := cli_String k keyringBackendFlag\<rparr>\<rparr>"
  have l: "LoadConfig CL home w1 = (Ok conf, w1)" by (rule initHome_loads [OF assms(1,2,9,10,7,8)])
  have "no_faults w1" using initHome_faults [OF assms(1,7)] .
  from createKey_run [OF assms(3) _ refl ini_plain_key [OF assms(10-12)] this assms(8)] l assms(4)
  have "fst (LoadConfig CL home w2) = Ok ?conf" by auto
  moreover obtain ce where "srv = RunUntilShutdown_enter (NewCovenantServer (ce, w3))"
      "fst (LoadConfig CL home w2) = Ok (config ce)" "fpName (kc ce) = Key (BabylonConfig (config ce))"
      "wired (kc ce) w3" "sent w3 = sent w2"
    using start_run [OF assms(5)] assms(6) by auto
  moreover have "KeyDirectory (BabylonConfig conf) = home" "ChainID_cfg (BabylonConfig conf) = ChainID_cfg (DefaultBBNConfig CL)"
    using assms(9) by (auto simp: DefaultConfigWithHomePath_def Validate_def Let_def config_defaults)
  ultimately show ?thesis by auto
qed

theorem setup_then_start_witness:
  "\<exists>w1 w2 srv w3. initHome sample_config_lib (sample_flags\<lparr>cli_Bool := (\<lambda>_. True)\<rparr>) home_world = (Ok (), w1) \<and>
     createKey sample_config_lib sample_keyring sample_node sample_hexkey sample_flags w1 = (Ok (), w2) \<and>
     start sample_config_lib sample_keyring sample_node (\<lambda>x. (Ok (), x)) sample_flags w2 = (Ok srv, w3) \<and>
     fpName (kc (fst (emulator (core srv)))) = ''covenant-key'' \<and>
     KeyDirectory (BabylonConfig (config (fst (emulator (core srv))))) = ''/h''"
proof -
  let ?c = "sample_flags\<lparr>cli_Bool := (\<lambda>_. True)\<rparr>"
  have h: "expandHome (environment w) (cli_String sample_flags homeFlag) = Ok ''/h''" if "set_up w" for w
    using that by (simp add: set_up_def sample_flags_def flag_defs sample_paths)
  have p: "plain (cli_String sample_flags keyNameFlag)" "plain (cli_String sample_flags keyringBackendFlag)"
      "expandHome (environment home_world) (cli_String ?c homeFlag) = Ok ''/h''" "cli_String sample_flags homeFlag = ''/h''"
    using h [OF set_up_home] by (simp_all add: sample_flags_def flag_defs plain_def)
  obtain conf where conf: "DefaultConfigWithHomePath sample_config_lib ''/h'' = Ok conf" "LogLevel conf = ''debug''"
      "KeyDirectory (BabylonConfig conf) = ''/h''" "ini_plain conf"
    using sample_plain(1) by blast
  obtain w1 where w1: "initHome sample_config_lib ?c home_world = (Ok (), w1)" "set_up w1"
    using conf(1) set_up_calls(2,3,5,6) [OF set_up_home] h [OF set_up_home]
    by (auto simp: initHome_def run_iffs on_files_Ok sample_paths)
  have l1: "LoadConfig sample_config_lib ''/h'' w1 = (Ok conf, w1)"
    by (rule initHome_loads [OF w1(1) p(3) conf(1,4) sample_dirs(9) sample_ini])
  obtain w2 where w2: "createKey sample_config_lib sample_keyring sample_node sample_hexkey sample_flags w1 = (Ok (), w2)"
      "set_up w2"
    using sample_createKey [OF w1(2) l1] by blast
  have "no_faults w1" using w1(2) by (simp add: set_up_def)
  from createKey_run [OF w2(1) _ refl ini_plain_key [OF conf(4) p(1,2)] this sample_ini] l1 p(4)
  have l2: "LoadConfig sample_config_lib ''/h'' w2 = (Ok (conf\<lparr>BabylonConfig := (BabylonConfig conf)\<lparr>Key := ''covenant-key'',
      KeyringBackend := ''test''\<rparr>\<rparr>), w2)" by (auto simp: sample_flags_def flag_defs)
  obtain srv w3 where w3: "start sample_config_lib sample_keyring sample_node (\<lambda>x. (Ok (), x)) sample_flags w2 = (Ok srv, w3)"
    using sample_start_run [OF w2(2) l2] sample_log_levels conf(2,3) by auto
  from setup_then_start [OF w1(1) p(3) w2(1) p(4) w3 h [OF w2(2)] sample_dirs(9) sample_ini conf(1,4) p(1,2)] w1(1) w2(1) w3
  show ?thesis by (auto simp: sample_flags_def flag_defs server_emulator)
qed

text \<open>
  C1: The whole program keeps the safety of its signatures: whatever \<^verbatim>\<open>covd start\<close> reads from the disk and
  the command line, and however the server it hands the emulator to is called, signalled and
  scheduled, every transaction the daemon has ever sent goes back to a round of this very run: one step
  from a state \<open>s0\<close> of the run sent it. In that round the chain reported the parameters and the node then
  reported the pending delegations, both in the world of \<open>s0\<close>; the messages of the round go to the
  configured node and carry signatures, one to one, for entries of that report that lacked this
  member's signature, no entry twice, each approved under those parameters and on the configured
  Bitcoin network.
\<close>

theorem covd_safety:
  assumes "start CL K L Intercept ctx w = (Ok srv, w')" and "sent w = []" and "retries R"
    and "emulator (core srv) = (ce, v)" and "bc = \<lparr>cfg = BabylonConfig (config ce), btcParams = BTCNetParams (config ce)\<rparr>"
    and "go_sized (babylon_cc L bc)" and "(sstep S K R)\<^sup>*\<^sup>* srv s" and "ms \<in> set (sent (snd (emulator (core s))))"
  shows "\<exists>s0 s1 txs p w1 w2 w3 dels bs.
    (sstep S K R)\<^sup>*\<^sup>* srv s0 \<and> sstep S K R s0 s1 \<and> (sstep S K R)\<^sup>*\<^sup>* s1 s \<and> loop (core s0) = L_Round \<and>
    sent (snd (emulator (core s1))) = sent (snd (emulator (core s0))) @ txs \<and> ms \<in> set txs \<and>
    UpdateParams R (emulator (core s0)) = (Ok (), (ce\<lparr>params := Some p\<rparr>, w2)) \<and>
    QueryStakingParams L bc w1 = (Ok p, w2) \<and>
    QueryPendingDelegations L (DelegationLimit (config ce)) w2 = (Ok (map Some dels), w3) \<and>
    list_all2 (covers (carries L) S (ce\<lparr>params := Some p\<rparr>)) txs bs \<and>
    subseq (concat bs) (map Some (filter (needs_sig S ce) dels))"
proof -
  note st = started_emulates [OF assms(1,3-6)]
  have "sent (snd (emulator (core srv))) = []" using st assms(2) by (simp add: server_emulator)
  from tracing.traced [OF assms(7) _ this assms(8)] st obtain s0 s1 txs where
      "(sstep S K R)\<^sup>*\<^sup>* srv s0" "sstep S K R s0 s1" "(sstep S K R)\<^sup>*\<^sup>* s1 s" "loop (core s0) = L_Round"
      "sent (snd (emulator (core s1))) = sent (snd (emulator (core s0))) @ txs" "ms \<in> set txs"
      "round_justified L bc S R ce (emulator (core s0)) txs"
    by metis
  then show ?thesis unfolding round_justified_def by blast
qed

theorem covd_safety_witness:
  "\<exists>srv w' s s0 ms. start sample_config_lib sample_keyring sample_node (\<lambda>x. (Ok (), x)) sample_flags home_world = (Ok srv, w') \<and>
     (sstep sample_signing sample_keyring sample_retry)\<^sup>*\<^sup>* srv s \<and> V_Done \<in> set (callers s) \<and>
     sent (snd (emulator (core s))) = [ms] \<and> loop (core s0) = L_Round \<and>
     (sstep sample_signing sample_keyring sample_retry)\<^sup>*\<^sup>* srv s0"
proof (rule sample_started)
  fix srv w' ce
  assume r: "start sample_config_lib sample_keyring sample_node (\<lambda>x. (Ok (), x)) sample_flags home_world = (Ok srv, w')"
    and srv: "srv = RunUntilShutdown_enter (NewCovenantServer (ce, w'))" "sample_like ce w'" "emulator (core srv) = (ce, w')"
      "sample_bc = \<lparr>cfg = BabylonConfig (config ce), btcParams = BTCNetParams (config ce)\<rparr>" "sent w' = []" "ticks (ce, w')"
  obtain e ms where t: "tick sample_signing sample_keyring sample_retry (ce, w') = Some (Ok (), e)" "sent (snd e) = [ms]"
    using sample_tick [OF srv(2)] srv(5) by auto
  let ?s = "serving_state V_Done True (stopped e)"
  have run: "(sstep sample_signing sample_keyring sample_retry)\<^sup>*\<^sup>* srv ?s"
    unfolding srv(1) using serving_up [OF srv(6)] serving_round [OF t(1)] serving_down by (meson rtranclp_trans)
  have s: "sent (snd (emulator (core ?s))) = [ms]" "V_Done \<in> set (callers ?s)"
    using t(2) by (simp_all add: serving_state_def stopped_def fresh_def)
  then have "ms \<in> set (sent (snd (emulator (core ?s))))" by simp
  from covd_safety [OF r sample_dirs(6) sample_retries srv(3,4) sample_node_sized run this] r run s show ?thesis by metis
qed

end
